(* ===== verification/Shadow_Base.thy ===== *)
theory Shadow_Base
  imports "HOL-Library.Word" "HOL-Library.Monad_Syntax" "HOL-Library.Signed_Division"
begin

text \<open>
  The prelude of the development: the machine types of the engine, the model of a Rust
  computation that may panic, the integer operations the sources use (wrapping, saturating
  and narrowing ones), byte slices, and the generic lemmas the components share.

  The crate is built with \<open>cargo build --release\<close> (README, \<open>Cargo.toml\<close>): native
  integer arithmetic wraps, and \<open>U256\<close>/\<open>U512\<close> operators wrap in every profile. What
  still panics in that profile is a branch of the model: division by zero, an index or slice
  out of range, a narrowing \<open>to\<close> that does not fit. A computation that may panic has an
  \<open>option\<close> type; \<open>None\<close> is the panic, which with \<open>panic = "abort"\<close> ends the
  process.
\<close>

unbundle bit_operations_syntax

section \<open>Machine types\<close>

type_synonym u8 = "8 word"
type_synonym u32 = "32 word"
type_synonym u64 = "64 word"
type_synonym usize = "64 word"
type_synonym u128 = "128 word"
type_synonym u256 = "256 word"
type_synonym u512 = "512 word"
type_synonym address = "160 word"
type_synonym b256 = "256 word"
type_synonym i16 = int
type_synonym i32 = int
type_synonym i128 = int
type_synonym i256 = int

type_synonym 'a exec = "'a option"

named_theorems nowrap \<open>reading machine arithmetic as arithmetic on the natural numbers\<close>
named_theorems exec_simps \<open>unfolding panicking operations\<close>

section \<open>Unsigned arithmetic\<close>

abbreviation wide :: "u256 \<Rightarrow> u512" where
  "wide x \<equiv> ucast x"

definition u_div :: "'a::len word \<Rightarrow> 'a word \<Rightarrow> 'a word exec" where
  "u_div a b = (if b = 0 then None else Some (a div b))"

definition narrow :: "'a::len word \<Rightarrow> 'b::len word exec" where
  "narrow x = (if unat x < 2 ^ LENGTH('b) then Some (ucast x) else None)"

definition sat_sub :: "'a::len word \<Rightarrow> 'a word \<Rightarrow> 'a word" where
  "sat_sub a b = (if a < b then 0 else a - b)"

definition sat_add :: "'a::len word \<Rightarrow> 'a word \<Rightarrow> 'a word" where
  "sat_add a b = (if unat a + unat b < 2 ^ LENGTH('a) then a + b else - 1)"

definition sat_mul :: "'a::len word \<Rightarrow> 'a word \<Rightarrow> 'a word" where
  "sat_mul a b = (if unat a * unat b < 2 ^ LENGTH('a) then a * b else - 1)"

lemma unat_bound [simp]: "unat (x :: 'a::len word) < 2 ^ LENGTH('a)"
  by (rule unsigned_less)

lemma unat_u256: "unat (x :: u256) < 2 ^ 256"
  using unsigned_less [where 'a = nat and w = x] by simp

lemma unat_u512: "unat (x :: u512) < 2 ^ 512"
  using unsigned_less [where 'a = nat and w = x] by simp

lemma unat_u128: "unat (x :: u128) < 2 ^ 128"
  using unsigned_less [where 'a = nat and w = x] by simp

text \<open>The simplifier evaluates the powers, so the bounds are also declared evaluated.\<close>

lemmas unat_bounds_eval [simp] = unat_u256 [simplified] unat_u512 [simplified] unat_u128 [simplified]

lemma unat_le_u256: "unat (x :: u256) \<le> 2 ^ 256 - 1"
  using unat_u256 [of x] by (simp del: unat_bounds_eval)

lemmas unat_le_eval [simp] = unat_le_u256 [simplified]

lemma unat_add_nowrap [nowrap]:
  "unat a + unat b < 2 ^ LENGTH('a) \<Longrightarrow> unat (a + b :: 'a::len word) = unat a + unat b"
  using unat_add_lem by blast

lemma unat_mult_nowrap [nowrap]:
  "unat a * unat b < 2 ^ LENGTH('a) \<Longrightarrow> unat (a * b :: 'a::len word) = unat a * unat b"
  using unat_mult_lem by blast

lemma unat_sub_nowrap [nowrap]:
  "unat b \<le> unat a \<Longrightarrow> unat (a - b :: 'a::len word) = unat a - unat b"
  by (simp add: unat_sub word_le_nat_alt)

lemma unat_ucast_le:
  "unat x < 2 ^ LENGTH('b) \<Longrightarrow> unat (ucast (x :: 'a::len word) :: 'b::len word) = unat x"
  by (simp add: unsigned_ucast_eq take_bit_nat_eq_self)

lemma unat_wide [nowrap, simp]: "unat (wide x) = unat x"
  by (rule unat_ucast_le) (rule less_trans [OF unat_u256], simp)

lemma unat_of_nat_nowrap [nowrap]:
  "n < 2 ^ LENGTH('a) \<Longrightarrow> unat (word_of_nat n :: 'a::len word) = n"
  by (simp add: unsigned_of_nat take_bit_nat_eq_self)

lemma unat_drop_bit_div [nowrap]: "unat (drop_bit n w :: 'a::len word) = unat w div 2 ^ n"
  unfolding unat_drop_bit_eq by (rule drop_bit_eq_div)

lemma unat_minus_one_word: "unat (- 1 :: 'a::len word) = 2 ^ LENGTH('a) - 1"
  by (simp add: unsigned_minus_1_eq_mask mask_eq_exp_minus_1)

lemma unat_sat_sub [nowrap]: "unat (sat_sub a b) = unat a - unat b"
  by (auto simp: sat_sub_def word_less_nat_alt unat_sub_nowrap)

lemma unat_sat_add [nowrap]:
  "unat (sat_add a b :: 'a::len word) = min (unat a + unat b) (2 ^ LENGTH('a) - 1)"
  by (auto simp: sat_add_def unat_add_nowrap unat_minus_one_word)

lemma unat_sat_mul [nowrap]:
  "unat (sat_mul a b :: 'a::len word) = min (unat a * unat b) (2 ^ LENGTH('a) - 1)"
  by (auto simp: sat_mul_def unat_mult_nowrap unat_minus_one_word)

lemma u_div_Some [exec_simps]: "b \<noteq> 0 \<Longrightarrow> u_div a b = Some (a div b)"
  by (simp add: u_div_def)

lemma u_div_eq_Some: "u_div a b = Some q \<longleftrightarrow> b \<noteq> 0 \<and> q = a div b"
  by (auto simp: u_div_def)

lemma narrow_Some [exec_simps]:
  "unat (x :: 'a::len word) < 2 ^ LENGTH('b) \<Longrightarrow> narrow x = Some (ucast x :: 'b::len word)"
  by (simp add: narrow_def)

lemma narrow_unat:
  "narrow (x :: 'a::len word) = Some (y :: 'b::len word) \<Longrightarrow> unat y = unat x"
  by (auto simp: narrow_def unat_ucast_le split: if_splits)

lemma unat_pos_iff [simp]: "0 < unat (x :: 'a::len word) \<longleftrightarrow> x \<noteq> 0"
  by (simp add: unat_gt_0)

section \<open>Signed arithmetic: integers kept in range by an explicit wrap\<close>

definition wrap_signed :: "nat \<Rightarrow> int \<Rightarrow> int" where
  "wrap_signed w n = (n + 2 ^ (w - 1)) mod 2 ^ w - 2 ^ (w - 1)"

definition wrap_i32 :: "int \<Rightarrow> i32" where
  "wrap_i32 = wrap_signed 32"

definition wrap_i256 :: "int \<Rightarrow> i256" where
  "wrap_i256 = wrap_signed 256"

definition in_i32 :: "int \<Rightarrow> bool" where
  "in_i32 n \<longleftrightarrow> - (2 ^ 31) \<le> n \<and> n < 2 ^ 31"

definition in_i256 :: "int \<Rightarrow> bool" where
  "in_i256 n \<longleftrightarrow> - (2 ^ 255) \<le> n \<and> n < 2 ^ 255"

lemma wrap_i32_id [nowrap]: "in_i32 n \<Longrightarrow> wrap_i32 n = n"
  by (simp add: in_i32_def wrap_i32_def wrap_signed_def)

lemma wrap_i256_id [nowrap]: "in_i256 n \<Longrightarrow> wrap_i256 n = n"
  by (simp add: in_i256_def wrap_i256_def wrap_signed_def)

lemma wrap_i256_range [simp]: "in_i256 (wrap_i256 n)"
  using pos_mod_bound [of "2 ^ 256" "n + 2 ^ 255"] pos_mod_sign [of "2 ^ 256" "n + 2 ^ 255"]
  by (simp add: in_i256_def wrap_i256_def wrap_signed_def)

text \<open>The bit patterns of \<open>I256\<close> and \<open>U256\<close> are exchanged by \<open>from_be_bytes\<close> of
  \<open>to_be_bytes\<close>.\<close>

definition i256_of_u256 :: "u256 \<Rightarrow> i256" where
  "i256_of_u256 x = wrap_i256 (uint x)"

definition u256_of_i256 :: "i256 \<Rightarrow> u256" where
  "u256_of_i256 n = word_of_int n"

lemma i256_of_u256_small [nowrap]:
  assumes "unat x < 2 ^ 255"
  shows "i256_of_u256 x = uint x"
proof -
  have "nat (uint x) < 2 ^ 255"
    using assms by (simp only: unat_eq_nat_uint)
  then have "uint x < int (2 ^ 255)"
    by (simp only: nat_less_iff uint_ge_0)
  then have "in_i256 (uint x)"
    by (simp add: in_i256_def order_trans [OF _ uint_ge_0])
  then show ?thesis
    by (simp add: i256_of_u256_def wrap_i256_id)
qed

lemma unat_u256_of_i256 [nowrap]:
  "0 \<le> n \<Longrightarrow> in_i256 n \<Longrightarrow> unat (u256_of_i256 n) = nat n"
proof -
  assume n: "0 \<le> n" "in_i256 n"
  then have "take_bit 256 n = n"
    by (intro take_bit_int_eq_self) (simp_all add: in_i256_def)
  with n show ?thesis
    by (simp add: u256_of_i256_def unsigned_of_int)
qed

section \<open>Indexing and slices\<close>

definition index :: "'a list \<Rightarrow> nat \<Rightarrow> 'a exec" where
  "index xs i = (if i < length xs then Some (xs ! i) else None)"

definition slice :: "'a list \<Rightarrow> nat \<Rightarrow> nat \<Rightarrow> 'a list exec" where
  "slice xs i j = (if i \<le> j \<and> j \<le> length xs then Some (take (j - i) (drop i xs)) else None)"

lemma index_Some [exec_simps]: "i < length xs \<Longrightarrow> index xs i = Some (xs ! i)"
  by (simp add: index_def)

lemma index_eq_Some: "index xs i = Some x \<longleftrightarrow> i < length xs \<and> x = xs ! i"
  by (auto simp: index_def)

lemma slice_Some [exec_simps]:
  "i \<le> j \<Longrightarrow> j \<le> length xs \<Longrightarrow> slice xs i j = Some (take (j - i) (drop i xs))"
  by (simp add: slice_def)

lemma slice_eq_Some:
  "slice xs i j = Some ys \<longleftrightarrow> i \<le> j \<and> j \<le> length xs \<and> ys = take (j - i) (drop i xs)"
  by (auto simp: slice_def)

lemma length_slice: "slice xs i j = Some ys \<Longrightarrow> length ys = j - i"
  by (auto simp: slice_eq_Some)

end
