(* ===== verification/Wide_Math.thy ===== *)
theory Wide_Math
  imports Shadow_Base
begin

text \<open>
  The 512-bit helpers of \<open>src/v3_math.rs\<close> and \<open>src/math_engine.rs\<close>:
  \<open>u512_to_u256_safe\<close>, \<open>mul_div\<close>, \<open>mul_div_round_up\<close>, \<open>mul_div_round_down\<close>,
  \<open>mul_shift_128\<close>. Each is translated on words and then characterised on the natural
  numbers: the exact quotient, rounded as named and saturated at \<open>U256::MAX\<close>.
\<close>

definition u256_max :: u256 where
  "u256_max = - 1"

text \<open>The four upper limbs decide whether the value fits.\<close>

definition u512_to_u256_safe :: "u512 \<Rightarrow> u256" where
  "u512_to_u256_safe v = (if drop_bit 256 v \<noteq> 0 then u256_max else ucast v)"

definition mul_div :: "u256 \<Rightarrow> u256 \<Rightarrow> u256 \<Rightarrow> u256 option" where
  "mul_div a b denominator =
     (if denominator = 0 then None
      else Some (u512_to_u256_safe ((wide a * wide b) div wide denominator)))"

definition mul_div_round_up :: "u256 \<Rightarrow> u256 \<Rightarrow> u256 \<Rightarrow> u256 option" where
  "mul_div_round_up a b denominator =
     (if denominator = 0 then None
      else let product = wide a * wide b
           in Some (u512_to_u256_safe ((product + wide denominator - 1) div wide denominator)))"

definition mul_div_round_down :: "u256 \<Rightarrow> u256 \<Rightarrow> u256 \<Rightarrow> u256 option" where
  "mul_div_round_down a b denominator = mul_div a b denominator"

definition mul_shift_128 :: "u256 \<Rightarrow> u128 \<Rightarrow> u256" where
  "mul_shift_128 a b = u512_to_u256_safe (drop_bit 128 (wide a * ucast b))"

section \<open>Characterisation on the natural numbers\<close>

definition ceil_div :: "nat \<Rightarrow> nat \<Rightarrow> nat" where
  "ceil_div n d = (n + d - 1) div d"

lemma unat_u256_max [simp]: "unat u256_max = 2 ^ 256 - 1"
  by (simp add: u256_max_def unat_minus_one_word)

lemma drop_bit_256_eq_0: "drop_bit 256 (v :: u512) = 0 \<longleftrightarrow> unat v < 2 ^ 256"
proof -
  have "unat (drop_bit 256 v) = unat v div 2 ^ 256"
    by (rule unat_drop_bit_div)
  then show ?thesis
    by (metis div_eq_0_iff unat_0_iff power_not_zero zero_neq_numeral)
qed

lemma unat_safe: "unat (u512_to_u256_safe v) = min (unat v) (2 ^ 256 - 1)"
proof (cases "unat v < 2 ^ 256")
  case True
  then have "unat (ucast v :: u256) = unat v"
    by (intro unat_ucast_le) simp
  with True show ?thesis
    by (simp add: u512_to_u256_safe_def drop_bit_256_eq_0)
next
  case False
  then show ?thesis
    by (simp add: u512_to_u256_safe_def drop_bit_256_eq_0)
qed

lemma u256_prod_bound:
  "unat (a :: u256) * unat (b :: u256) \<le> (2 ^ 256 - 1) * (2 ^ 256 - 1)"
  by (intro mult_le_mono unat_le_u256)

lemma unat_wide_prod: "unat (wide a * wide b) = unat a * unat b"
proof -
  have "unat a * unat b < 2 ^ 512"
    using u256_prod_bound [of a b] by (rule le_less_trans) simp
  then show ?thesis
    by (simp add: unat_mult_nowrap)
qed

lemma mul_div_nat:
  "d \<noteq> 0 \<Longrightarrow> \<exists>r. mul_div a b d = Some r \<and>
     unat r = min (unat a * unat b div unat d) (2 ^ 256 - 1)"
  by (simp add: mul_div_def unat_safe unat_div unat_wide_prod)

lemma unat_round_up:
  assumes "d \<noteq> 0"
  shows "unat ((wide a * wide b + wide d - 1) div wide d) = ceil_div (unat a * unat b) (unat d)"
proof -
  let ?p = "unat a * unat b"
  have d: "1 \<le> unat d"
    using assms by (simp add: Suc_le_eq)
  have "?p + unat d \<le> (2 ^ 256 - 1) * (2 ^ 256 - 1) + (2 ^ 256 - 1)"
    by (intro add_mono u256_prod_bound unat_le_u256)
  also have "\<dots> < 2 ^ 512"
    by simp
  finally have "?p + unat d < 2 ^ 512" .
  then have sum: "unat (wide a * wide b + wide d) = ?p + unat d"
    by (simp add: unat_add_nowrap unat_wide_prod)
  then have "unat (wide a * wide b + wide d - 1) = ?p + unat d - 1"
    using d by (subst unat_sub_nowrap) simp_all
  then show ?thesis
    by (simp add: unat_div ceil_div_def)
qed

lemma mul_div_round_up_nat:
  "d \<noteq> 0 \<Longrightarrow> \<exists>r. mul_div_round_up a b d = Some r \<and>
     unat r = min (ceil_div (unat a * unat b) (unat d)) (2 ^ 256 - 1)"
  by (simp add: mul_div_round_up_def unat_safe unat_round_up Let_def)

lemma unat_mul_shift_128:
  "unat (mul_shift_128 a b) = unat a * unat b div 2 ^ 128"
proof -
  have cb: "unat (ucast b :: u512) = unat b"
    by (intro unat_ucast_le less_trans [OF unat_u128]) simp
  have ab: "unat a * unat b < 2 ^ 256 * 2 ^ 128"
    by (intro mult_strict_mono unat_u256 unat_u128) simp_all
  then have "unat (wide a * ucast b) = unat a * unat b"
    using cb by (subst unat_mult_nowrap) (simp_all add: less_trans)
  then have "unat (drop_bit 128 (wide a * ucast b :: u512)) = unat a * unat b div 2 ^ 128"
    by (simp add: unat_drop_bit_div)
  moreover have "unat a * unat b div 2 ^ 128 < 2 ^ 256"
    using ab by (simp add: less_mult_imp_div_less)
  ultimately show ?thesis
    by (simp add: mul_shift_128_def unat_safe)
qed

section \<open>Ceiling division\<close>

lemma ceil_div_le_iff: "0 < d \<Longrightarrow> ceil_div n d \<le> m \<longleftrightarrow> n \<le> m * d"
proof
  assume d: "0 < d" and "ceil_div n d \<le> m"
  then have "n + d - 1 < (m + 1) * d"
    by (simp add: ceil_div_def div_less_iff_less_mult flip: less_Suc_eq_le)
  with d show "n \<le> m * d" by simp
next
  assume d: "0 < d" and "n \<le> m * d"
  then have "n + d - 1 < (m + 1) * d"
    by simp
  with d show "ceil_div n d \<le> m"
    by (simp add: ceil_div_def div_less_iff_less_mult flip: less_Suc_eq_le)
qed

lemma less_ceil_div_iff: "0 < d \<Longrightarrow> m < ceil_div n d \<longleftrightarrow> m * d < n"
  using ceil_div_le_iff [of d n m] by linarith

lemma ceil_div_upper: "0 < d \<Longrightarrow> n \<le> ceil_div n d * d"
  using ceil_div_le_iff [of d n "ceil_div n d"] by simp

lemma ceil_div_lower: "0 < d \<Longrightarrow> 0 < n \<Longrightarrow> (ceil_div n d - 1) * d < n"
  using less_ceil_div_iff [of d "ceil_div n d - 1" n]
  by (cases "ceil_div n d") (use ceil_div_le_iff [of d n 0] in simp_all)

lemma floor_le_ceil: "n div d \<le> ceil_div n d"
  by (cases "d = 0") (simp_all add: ceil_div_def div_le_mono)

lemma ceil_div_one [simp]: "ceil_div n (Suc 0) = n"
  by (simp add: ceil_div_def)

lemma ceil_div_0 [simp]: "0 < d \<Longrightarrow> ceil_div 0 d = 0"
  by (simp add: ceil_div_def)

section \<open>Properties\<close>

text \<open>C26 The 512-bit quotients are exact: for every divisor but zero, \<open>mul_div\<close> and
  \<open>mul_div_round_up\<close> return the floor and the ceiling of the full-width product divided by
  it, saturated at the largest 256-bit value, and neither wraps in between.\<close>

theorem mul_div_exact:
  "mul_div a b d =
     (if d = 0 then None
      else Some (word_of_nat (min (unat a * unat b div unat d) (2 ^ 256 - 1)))) \<and>
   mul_div_round_up a b d =
     (if d = 0 then None
      else Some (word_of_nat (min (ceil_div (unat a * unat b) (unat d)) (2 ^ 256 - 1))))"
proof (cases "d = 0")
  case True
  then show ?thesis by (simp only: mul_div_def mul_div_round_up_def if_True simp_thms)
next
  case False
  obtain r where r: "mul_div a b d = Some r"
    "unat r = min (unat a * unat b div unat d) (2 ^ 256 - 1)"
    using mul_div_nat [OF False] by blast
  obtain s where s: "mul_div_round_up a b d = Some s"
    "unat s = min (ceil_div (unat a * unat b) (unat d)) (2 ^ 256 - 1)"
    using mul_div_round_up_nat [OF False] by blast
  have "word_of_nat (unat r) = r" "word_of_nat (unat s) = s" by simp_all
  with r(1) s(1) False show ?thesis by (simp only: r(2) s(2) if_False simp_thms)
qed

end
