(* ===== verification/V3_Ticks.thy ===== *)
theory V3_Ticks
  imports Wide_Math
begin

text \<open>
  The tick table of \<open>src/v3_math.rs\<close>: the constants, \<open>get_sqrt_ratio_at_tick\<close> with its
  lookup table and its uncached computation, and the binary search
  \<open>get_tick_at_sqrt_ratio\<close>. Ticks are \<open>i32\<close> values, kept as integers; the only
  arithmetic on them is wrapped explicitly.
\<close>

section \<open>Constants\<close>

definition MIN_TICK :: i32 where "MIN_TICK = - 887272"
definition MAX_TICK :: i32 where "MAX_TICK = 887272"

definition u256_from_limbs :: "u64 \<Rightarrow> u64 \<Rightarrow> u64 \<Rightarrow> u64 \<Rightarrow> u256" where
  "u256_from_limbs l0 l1 l2 l3 =
     ucast l0 + push_bit 64 (ucast l1) + push_bit 128 (ucast l2) + push_bit 192 (ucast l3)"

definition q96 :: u256 where "q96 = push_bit 96 1"
definition q128 :: u256 where "q128 = push_bit 128 1"
definition min_sqrt_ratio :: u256 where "min_sqrt_ratio = 4295128739"

definition max_sqrt_ratio :: u256 where
  "max_sqrt_ratio = u256_from_limbs 0x5d951d5263988d25 0xefd1fc6a50648849 0xfffd8963 0"

definition fee_to_tick_spacing :: "u32 \<Rightarrow> i32" where
  "fee_to_tick_spacing fee =
     (if fee = 100 then 1 else if fee = 500 then 10 else if fee = 3000 then 60
      else if fee = 10000 then 200 else 1)"

section \<open>The square-root ratio of a tick\<close>

text \<open>The nineteen guarded multiplications of the source, in its order: the bit tested and
  the factor.\<close>

definition ratio_factors :: "(u32 \<times> u128) list" where
  "ratio_factors =
     [(0x2, 0xfff97272373d413259a46990580e213a),
      (0x4, 0xfff2e50f5f656932ef12357cf3c7fdcc),
      (0x8, 0xffe5caca7e10e4e61c3624eaa0941cd0),
      (0x10, 0xffcb9843d60f6159c9db58835c926644),
      (0x20, 0xff973b41fa98c081472e6896dfb254c0),
      (0x40, 0xff2ea16466c96a3843ec78b326b52861),
      (0x80, 0xfe5dee046a99a2a811c461f1969c3053),
      (0x100, 0xfcbe86c7900a88aedcffc83b479aa3a4),
      (0x200, 0xf987a7253ac413176f2b074cf7815e54),
      (0x400, 0xf3392b0822b70005940c7a398e4b70f3),
      (0x800, 0xe7159475a2c29b7443b29c7fa6e889d9),
      (0x1000, 0xd097f3bdfd2022b8845ad8f792aa5825),
      (0x2000, 0xa9f746462d870fdf8a65dc1f90e061e5),
      (0x4000, 0x70d869a156d2a1b890bb3df62baf32f7),
      (0x8000, 0x31be135f97d08fd981231505542fcfa6),
      (0x10000, 0x9aa508b5b7a84e1c677de54f3e99bc9),
      (0x20000, 0x5d6af8dedb81196699c329225ee604),
      (0x40000, 0x2216e584f5fa1ea926041bedfe98),
      (0x80000, 0x48a170391f7dc42444e8fa2)]"

definition ratio_step :: "u32 \<Rightarrow> u256 \<Rightarrow> u32 \<times> u128 \<Rightarrow> u256" where
  "ratio_step abs_tick ratio mf =
     (if abs_tick AND fst mf \<noteq> 0 then mul_shift_128 ratio (snd mf) else ratio)"

definition tick_ratio :: "u32 \<Rightarrow> u256" where
  "tick_ratio abs_tick =
     foldl (ratio_step abs_tick)
       (if abs_tick AND 1 \<noteq> 0
        then u256_from_limbs 0xaa2d162d1a594001 0xfffcb933bd6fad37 0 0
        else q128)
       ratio_factors"

text \<open>The division \<open>U256::MAX / ratio\<close> of the source cannot panic: lemma
  \<open>tick_ratio_nonzero\<close> of theory \<open>Tick_Table\<close>.\<close>

definition get_sqrt_ratio_at_tick_uncached :: "i32 \<Rightarrow> u256" where
  "get_sqrt_ratio_at_tick_uncached tick =
     (let abs_tick = (word_of_int \<bar>tick\<bar> :: u32) in
      if abs_tick > word_of_int MAX_TICK then 0
      else
        let ratio = tick_ratio abs_tick;
            ratio = (if tick > 0 then u256_max div ratio else ratio);
            low_bits_exist = (ratio AND 0xFFFFFFFF \<noteq> 0);
            shifted = drop_bit 32 ratio
        in shifted + (if low_bits_exist then 1 else 0))"

definition sqrt_ratio_lut :: "u256 list" where
  "sqrt_ratio_lut = map get_sqrt_ratio_at_tick_uncached [- 110000..110000]"

definition get_sqrt_ratio_at_tick :: "i32 \<Rightarrow> u256" where
  "get_sqrt_ratio_at_tick tick =
     (if - 110000 \<le> tick \<and> tick \<le> 110000
      then sqrt_ratio_lut ! nat (wrap_i32 (tick + 110000))
      else get_sqrt_ratio_at_tick_uncached tick)"

section \<open>The tick of a square-root ratio\<close>

text \<open>The \<open>while low <= high\<close> loop. Nothing bounds it by its form, so not returning is
  a value of the model (\<open>None\<close>); theory \<open>Tick_Table\<close> proves that it returns.\<close>

partial_function (option) tick_search :: "u256 \<Rightarrow> i32 \<Rightarrow> i32 \<Rightarrow> i32 option" where
  "tick_search p low high =
     (if low \<le> high then
        (let mid = wrap_i32 (low + high) sdiv 2;
             mid_price = get_sqrt_ratio_at_tick mid
         in if mid_price < p then tick_search p (wrap_i32 (mid + 1)) high
            else if mid_price > p then tick_search p low (wrap_i32 (mid - 1))
            else Some mid)
      else Some high)"

definition get_tick_at_sqrt_ratio :: "u256 \<Rightarrow> i32 option" where
  "get_tick_at_sqrt_ratio sqrt_price_x96 = tick_search sqrt_price_x96 MIN_TICK MAX_TICK"

text \<open>The lookup table agrees with the computation it caches, at every tick.\<close>

lemma nth_map_upto:
  fixes a b t :: int
  assumes "a \<le> t" and "t \<le> b"
  shows "map f [a..b] ! nat (t - a) = f t"
  using assms by (simp add: nth_upto)

lemma get_sqrt_ratio_lut_eq: "get_sqrt_ratio_at_tick tick = get_sqrt_ratio_at_tick_uncached tick"
proof (cases "- 110000 \<le> tick \<and> tick \<le> 110000")
  case True
  have "wrap_i32 (tick + 110000) = tick - - 110000"
    by (subst wrap_i32_id) (use True in \<open>simp_all add: in_i32_def\<close>)
  moreover have "sqrt_ratio_lut ! nat (tick - - 110000) = get_sqrt_ratio_at_tick_uncached tick"
    unfolding sqrt_ratio_lut_def by (rule nth_map_upto) (use True in simp_all)
  ultimately show ?thesis
    using True by (simp only: get_sqrt_ratio_at_tick_def simp_thms if_cancel)
next
  case False
  then show ?thesis by (simp only: get_sqrt_ratio_at_tick_def if_False)
qed

end
