(* ===== verification/V3_Bitmap.thy ===== *)
theory V3_Bitmap
  imports V3_Ticks
begin

text \<open>
  The tick bitmap of \<open>src/v3_math.rs\<close>: the position of a compressed tick, the first and
  last set bit of a word, and the search for the next initialised tick inside one word. The
  two searches are characterised against the set of initialised compressed ticks that the
  bitmap stands for.
\<close>

section \<open>Definitions\<close>

text \<open>The conversions of an \<open>i32\<close>: \<open>as u8\<close>, and an arithmetic shift followed by
  \<open>as i16\<close>.\<close>

definition tick_bitmap_position :: "i32 \<Rightarrow> i16 \<times> u8" where
  "tick_bitmap_position tick = (wrap_signed 16 (tick div 2 ^ 8), word_of_int tick)"

fun bit_length :: "nat \<Rightarrow> nat" where
  "bit_length n = (if n = 0 then 0 else Suc (bit_length (n div 2)))"

fun count_trailing :: "nat \<Rightarrow> nat" where
  "count_trailing n = (if n = 0 \<or> odd n then 0 else Suc (count_trailing (n div 2)))"

declare bit_length.simps [simp del] count_trailing.simps [simp del]

definition bit_len :: "'a::len word \<Rightarrow> nat" where
  "bit_len x = bit_length (unat x)"

definition trailing_zeros :: "'a::len word \<Rightarrow> nat" where
  "trailing_zeros x = (if x = 0 then LENGTH('a) else count_trailing (unat x))"

definition most_significant_bit :: "u256 \<Rightarrow> u8" where
  "most_significant_bit x = (if x = 0 then 0 else word_of_nat (bit_len x - 1))"

definition least_significant_bit :: "u256 \<Rightarrow> u8" where
  "least_significant_bit x = word_of_nat (trailing_zeros x)"

text \<open>Division and remainder of \<open>i32\<close>: a panic on a zero divisor and on
  \<open>i32::MIN / -1\<close>.\<close>

definition i32_div :: "i32 \<Rightarrow> i32 \<Rightarrow> i32 exec" where
  "i32_div a b = (if b = 0 \<or> (a = - (2 ^ 31) \<and> b = - 1) then None else Some (a sdiv b))"

definition i32_rem :: "i32 \<Rightarrow> i32 \<Rightarrow> i32 exec" where
  "i32_rem a b = (if b = 0 \<or> (a = - (2 ^ 31) \<and> b = - 1) then None else Some (a smod b))"

definition bitmap_word :: "(i16 \<rightharpoonup> u256) \<Rightarrow> i16 \<Rightarrow> u256" where
  "bitmap_word bm w = (case bm w of Some x \<Rightarrow> x | None \<Rightarrow> 0)"

definition search_left :: "(i16 \<rightharpoonup> u256) \<Rightarrow> i32 \<Rightarrow> i32 \<Rightarrow> i32 \<times> bool" where
  "search_left bm compressed spacing =
     (let (word_pos, bit_pos) = tick_bitmap_position compressed;
          mask = push_bit (unat bit_pos) 1 - 1 + push_bit (unat bit_pos) 1;
          masked = bitmap_word bm word_pos AND mask;
          initialized = (masked \<noteq> 0)
      in (if initialized
          then wrap_i32 (wrap_i32 (compressed - (uint bit_pos - uint (most_significant_bit masked))) * spacing)
          else wrap_i32 (wrap_i32 (compressed - uint bit_pos) * spacing),
          initialized))"

definition search_right :: "(i16 \<rightharpoonup> u256) \<Rightarrow> i32 \<Rightarrow> i32 \<Rightarrow> i32 \<times> bool" where
  "search_right bm compressed spacing =
     (let (word_pos, bit_pos) = tick_bitmap_position (wrap_i32 (compressed + 1));
          mask = NOT (push_bit (unat bit_pos) 1 - 1);
          masked = bitmap_word bm word_pos AND mask;
          initialized = (masked \<noteq> 0)
      in (if initialized
          then wrap_i32 (wrap_i32 (wrap_i32 (compressed + 1) +
                 (uint (least_significant_bit masked) - uint bit_pos)) * spacing)
          else wrap_i32 (wrap_i32 (wrap_i32 (compressed + 1) + (255 - uint bit_pos)) * spacing),
          initialized))"

definition compress_tick :: "i32 \<Rightarrow> i32 \<Rightarrow> i32 exec" where
  "compress_tick tick spacing = do {
     q \<leftarrow> i32_div tick spacing;
     if tick < 0 then do {
       r \<leftarrow> i32_rem tick spacing;
       Some (if r \<noteq> 0 then wrap_i32 (q - 1) else q)
     } else Some q
   }"

definition get_next_initialized_tick_precise ::
  "i32 \<Rightarrow> i32 \<Rightarrow> bool \<Rightarrow> (i16 \<rightharpoonup> u256) \<Rightarrow> (i32 \<times> bool) exec" where
  "get_next_initialized_tick_precise tick spacing lte bm = do {
     compressed \<leftarrow> compress_tick tick spacing;
     Some (if lte then search_left bm compressed spacing else search_right bm compressed spacing)
   }"

definition get_next_initialized_tick :: "i32 \<Rightarrow> bool \<Rightarrow> i32" where
  "get_next_initialized_tick tick lte = (if lte then wrap_i32 (tick - 1) else wrap_i32 (tick + 1))"

section \<open>First and last set bit\<close>

lemma bit_length_bounds: "0 < n \<Longrightarrow> 2 ^ (bit_length n - 1) \<le> n \<and> n < 2 ^ bit_length n"
proof (induction n rule: bit_length.induct)
  case (1 n)
  show ?case
  proof (cases "n div 2 = 0")
    case True
    with 1(2) have "n = 1" by auto
    then show ?thesis by (simp add: bit_length.simps)
  next
    case False
    then have IH: "2 ^ (bit_length (n div 2) - 1) \<le> n div 2" "n div 2 < 2 ^ bit_length (n div 2)"
      using 1 by auto
    from False have "bit_length (n div 2) \<noteq> 0" by (simp add: bit_length.simps)
    then obtain k where k: "bit_length (n div 2) = Suc k" by (cases "bit_length (n div 2)") auto
    have "bit_length n = Suc (Suc k)" using 1(2) k by (simp add: bit_length.simps [of n])
    with IH k show ?thesis by simp linarith
  qed
qed

lemma bit_length_unique: "2 ^ k \<le> n \<Longrightarrow> n < 2 ^ Suc k \<Longrightarrow> bit_length n = Suc k"
proof -
  assume n: "2 ^ k \<le> n" "n < 2 ^ Suc k"
  then have "0 < n" by (meson less_le_trans zero_less_numeral zero_less_power)
  note b = bit_length_bounds [OF this]
  have "(2::nat) ^ (bit_length n - 1) < 2 ^ Suc k" "(2::nat) ^ k < 2 ^ bit_length n"
    using le_less_trans [OF conjunct1 [OF b] n(2)] le_less_trans [OF n(1) conjunct2 [OF b]] .
  then have "bit_length n - 1 < Suc k" "k < bit_length n"
    by (auto intro: power_less_imp_less_exp [where a = "2 :: nat"] simp del: power_Suc)
  then show ?thesis by linarith
qed

lemma count_trailing_bit: "0 < n \<Longrightarrow> bit n (count_trailing n) \<and> (\<forall>i < count_trailing n. \<not> bit n i)"
proof (induction n rule: count_trailing.induct)
  case (1 n)
  show ?case
  proof (cases "odd n")
    case True
    then show ?thesis by (simp add: count_trailing.simps bit_0)
  next
    case False
    with 1(2) have "0 < n div 2" by auto
    with 1 False have IH: "bit (n div 2) (count_trailing (n div 2))"
      "\<forall>i < count_trailing (n div 2). \<not> bit (n div 2) i" by auto
    have ct: "count_trailing n = Suc (count_trailing (n div 2))"
      using False 1(2) by (simp add: count_trailing.simps [of n])
    have "\<not> bit n i" if "i < count_trailing n" for i
      using that IH(2) False ct by (cases i) (auto simp: bit_0 bit_Suc)
    with IH(1) ct show ?thesis by (simp add: bit_Suc)
  qed
qed

lemma bit_length_bit: "0 < n \<Longrightarrow> bit n (bit_length n - 1) \<and> (\<forall>i \<ge> bit_length n. \<not> bit n i)"
proof -
  assume n: "0 < n"
  note b = bit_length_bounds [OF n]
  then have "bit_length n \<noteq> 0" using n by (simp add: bit_length.simps)
  then have "n < 2 ^ (bit_length n - 1) * 2"
    using b by (metis Suc_pred' bot_nat_0.not_eq_extremum power_Suc2)
  then have "n div 2 ^ (bit_length n - 1) = 1"
    using b by (intro div_nat_eqI) simp_all
  moreover have "n div 2 ^ i = 0" if "bit_length n \<le> i" for i
    using b that by (meson div_less le_less_trans less_le_trans one_le_numeral power_increasing)
  ultimately show ?thesis by (simp add: bit_iff_odd)
qed

lemma bit_length_le: "n < 2 ^ k \<Longrightarrow> bit_length n \<le> k"
proof (cases "n = 0")
  case False
  assume n: "n < 2 ^ k"
  have "2 ^ (bit_length n - 1) \<le> n" using bit_length_bounds [of n] False by simp
  then have "(2::nat) ^ (bit_length n - 1) < 2 ^ k" using n by (rule le_less_trans)
  then have "bit_length n - 1 < k" by (rule power_less_imp_less_exp [rotated]) simp
  then show ?thesis by linarith
qed (simp add: bit_length.simps)

lemma msb_bit:
  assumes "x \<noteq> 0"
  shows "bit x (unat (most_significant_bit x))"
    and "unat (most_significant_bit x) < i \<Longrightarrow> \<not> bit x i"
proof -
  have n: "0 < unat x" using assms by simp
  have "bit_length (unat x) \<le> 256" by (rule bit_length_le [OF unat_u256])
  then have m: "unat (most_significant_bit x) = bit_length (unat x) - 1"
    using assms by (simp add: most_significant_bit_def bit_len_def unat_of_nat_nowrap)
  show "bit x (unat (most_significant_bit x))"
    using bit_length_bit [OF n] m by (simp add: bit_unsigned_iff)
  assume "unat (most_significant_bit x) < i"
  then have "\<not> bit (unat x) i"
    using bit_length_bit [OF n] m by simp
  then show "\<not> bit x i" by (simp add: bit_unsigned_iff)
qed

lemma lsb_bit:
  assumes "x \<noteq> 0"
  shows "bit x (unat (least_significant_bit x))"
    and "i < unat (least_significant_bit x) \<Longrightarrow> \<not> bit x i"
proof -
  have n: "0 < unat x" using assms by simp
  have b: "bit x (count_trailing (unat x))" "\<forall>i < count_trailing (unat x). \<not> bit x i"
    using count_trailing_bit [OF n] by (simp_all add: bit_unsigned_iff)
  have "count_trailing (unat x) < 256" using bit_imp_le_length [OF b(1)] by simp
  then have "unat (least_significant_bit x) = count_trailing (unat x)"
    using assms by (simp add: least_significant_bit_def trailing_zeros_def unat_of_nat_nowrap)
  with b show "bit x (unat (least_significant_bit x))"
    and "i < unat (least_significant_bit x) \<Longrightarrow> \<not> bit x i" by simp_all
qed

section \<open>The set of initialised ticks\<close>

definition tick_initialised :: "(i16 \<rightharpoonup> u256) \<Rightarrow> i32 \<Rightarrow> bool" where
  "tick_initialised bm c =
     (let (w, b) = tick_bitmap_position c in bit (bitmap_word bm w) (unat b))"

lemma position_eq: "tick_bitmap_position c = (wrap_signed 16 (c div 256), word_of_int c)"
  by (simp add: tick_bitmap_position_def)

lemma unat_bit_pos: "unat (word_of_int c :: u8) = nat (c mod 256)"
  by (simp add: unsigned_of_int take_bit_eq_mod)

lemma uint_bit_pos: "uint (word_of_int c :: u8) = c mod 256"
  by (simp add: uint_word_of_int)

lemma same_word:
  assumes "0 \<le> m" and "m < 256"
  shows "tick_bitmap_position (c - c mod 256 + m) = (wrap_signed 16 (c div 256), word_of_int m)"
proof -
  have e: "c - c mod 256 + m = m + 256 * (c div 256)"
    using mult_div_mod_eq [of 256 c] by linarith
  have "(c - c mod 256 + m) div 256 = c div 256"
    using assms unfolding e by simp
  moreover have "(word_of_int (c - c mod 256 + m) :: u8) = word_of_int m"
    unfolding e by (rule word_unat_eq_iff [THEN iffD2]) (simp only: unat_bit_pos mod_mult_self2)
  ultimately show ?thesis by (simp add: position_eq)
qed

lemma initialised_in_word:
  assumes "0 \<le> m" and "m < 256"
  shows "tick_initialised bm (c - c mod 256 + m) \<longleftrightarrow>
    bit (bitmap_word bm (wrap_signed 16 (c div 256))) (nat m)"
  using assms by (simp add: tick_initialised_def same_word unat_bit_pos)

lemma bit_left_mask:
  "bit (push_bit b 1 - 1 + push_bit b 1 :: u256) i \<longleftrightarrow> i < 256 \<and> i \<le> b" if "b < 256"
proof -
  have "push_bit b 1 - 1 + push_bit b 1 = (mask (Suc b) :: u256)"
    by (simp add: mask_eq_exp_minus_1 push_bit_eq_mult)
  then show ?thesis by (simp add: bit_mask_iff less_Suc_eq_le conj_commute)
qed

lemma bit_right_mask:
  "bit (NOT (push_bit b 1 - 1) :: u256) i \<longleftrightarrow> i < 256 \<and> b \<le> i"
proof -
  have "push_bit b 1 - 1 = (mask b :: u256)"
    by (simp add: mask_eq_exp_minus_1 push_bit_eq_mult)
  then show ?thesis by (auto simp: bit_not_iff bit_mask_iff)
qed

section \<open>The two searches inside one word\<close>

lemma sdiv_pos: "0 < s \<Longrightarrow> (t :: int) sdiv s = (if 0 \<le> t then t div s else - ((- t) div s))"
  by (auto simp: signed_divide_int_def sgn_if)

lemma compress_tick_floor:
  assumes "0 < s" and "in_i32 t"
  shows "compress_tick t s = Some (t div s)"
proof -
  have smod: "t smod s = t - t sdiv s * s" using minus_sdiv_mult_eq_smod [of t s] by simp
  show ?thesis
  proof (cases "t < 0")
    case False
    then show ?thesis using assms by (simp add: compress_tick_def i32_div_def sdiv_pos)
  next
    case True
    have fl: "t div s = (if (- t) mod s = 0 then - ((- t) div s) else - ((- t) div s) - 1)"
      using zdiv_zminus1_eq_if [of s "- t"] assms(1) by simp
    have "t smod s = - ((- t) mod s)"
      using True smod assms(1) by (simp add: sdiv_pos minus_div_mult_eq_mod [symmetric])
    moreover have "in_i32 (- ((- t) div s) - 1)" if "(- t) mod s \<noteq> 0"
    proof -
      have "t \<le> t div s" using zdiv_mono2_neg [of t 1 s] True assms(1) by simp
      moreover have "t div s < 0" using True assms(1) by (simp add: pos_imp_zdiv_neg_iff)
      ultimately show ?thesis using that fl assms(2) by (simp add: in_i32_def)
    qed
    ultimately show ?thesis
      using True assms fl by (simp add: compress_tick_def i32_div_def i32_rem_def sdiv_pos wrap_i32_id)
  qed
qed

definition word_start :: "int \<Rightarrow> int" where
  "word_start c = c - c mod 256"

lemma search_left_spec:
  assumes "\<bar>c\<bar> \<le> 1000000" and "0 < s" and "s \<le> 1000"
  shows "\<exists>n. search_left bm c s = (n * s, tick_initialised bm n) \<and> word_start c \<le> n \<and> n \<le> c \<and>
    (\<forall>k. n < k \<and> k \<le> c \<longrightarrow> \<not> tick_initialised bm k) \<and>
    (\<not> tick_initialised bm n \<longrightarrow> n = word_start c)"
proof -
  let ?b = "c mod 256"
  let ?w = "bitmap_word bm (wrap_signed 16 (c div 256))"
  define x where "x = ?w AND (push_bit (nat ?b) 1 - 1 + push_bit (nat ?b) 1)"
  have b: "0 \<le> ?b" "?b < 256" by simp_all
  have bits: "bit x i \<longleftrightarrow> bit ?w i \<and> i \<le> nat ?b" for i
  proof -
    have "nat ?b < 256" using b by simp
    then show ?thesis
      using bit_imp_le_length [of ?w i] by (simp only: x_def bit_and_iff bit_left_mask) auto
  qed
  have wrap: "wrap_i32 (wrap_i32 n * s) = n * s" if "c - 255 \<le> n" "n \<le> c" for n
  proof -
    have "\<bar>n\<bar> \<le> 1000255" using that assms(1) by linarith
    then have "\<bar>n * s\<bar> \<le> 1000255 * 1000"
      unfolding abs_mult using assms by (intro mult_mono) auto
    moreover have "wrap_i32 n = n"
      using \<open>\<bar>n\<bar> \<le> 1000255\<close> by (intro wrap_i32_id) (auto simp: in_i32_def)
    ultimately show ?thesis by (auto intro!: wrap_i32_id simp: in_i32_def)
  qed
  show ?thesis
  proof (cases "x = 0")
    case True
    have "\<not> tick_initialised bm k" if "word_start c \<le> k" "k \<le> c" for k
    proof -
      have "nat (k - word_start c) \<le> nat ?b" using that by (intro nat_mono) (simp add: word_start_def)
      then show ?thesis
        using initialised_in_word [of "k - word_start c" bm c] that b bits [of "nat (k - word_start c)"] True
        by (simp add: word_start_def)
    qed
    moreover have "search_left bm c s = (word_start c * s, False)"
      using True wrap [of "word_start c"] b
      by (simp only: search_left_def position_eq unat_bit_pos uint_bit_pos word_start_def Let_def
          prod.case simp_thms if_False flip: x_def)
    ultimately show ?thesis
      using b by (intro exI [of _ "word_start c"]) (auto simp: word_start_def)
  next
    case False
    let ?m = "uint (most_significant_bit x)"
    let ?n = "word_start c + ?m"
    have m: "bit ?w (nat ?m)" "nat ?m \<le> nat ?b"
      using msb_bit(1) [OF False] bits by simp_all
    have m': "0 \<le> ?m" "?m \<le> ?b"
      using m(2) b(1) nat_le_eq_zle [of ?m ?b] by (simp, blast)
    have init: "tick_initialised bm ?n"
      using initialised_in_word [of ?m bm c] m m' b by (simp add: word_start_def)
    have none: "\<not> tick_initialised bm k" if "?n < k" "k \<le> c" for k
    proof -
      have "nat (k - word_start c) \<le> nat ?b"
        using that by (intro nat_mono) (simp add: word_start_def)
      moreover have "unat (most_significant_bit x) < nat (k - word_start c)"
        using that m' by (simp only: zless_nat_eq_int_zless) simp
      moreover have "word_start c \<le> k" using that m' by linarith
      ultimately show ?thesis
        using initialised_in_word [of "k - word_start c" bm c] that b
          bits [of "nat (k - word_start c)"] msb_bit(2) [OF False]
        by (simp add: word_start_def)
    qed
    have "search_left bm c s = (?n * s, True)"
      using False wrap [of ?n] b m'
      by (simp only: search_left_def position_eq unat_bit_pos uint_bit_pos word_start_def Let_def
          prod.case simp_thms if_True flip: x_def) (simp add: algebra_simps)
    with init none m' b show ?thesis
      by (intro exI [of _ ?n]) (auto simp: word_start_def)
  qed
qed

lemma search_right_spec:
  assumes "\<bar>c\<bar> \<le> 1000000" and "0 < s" and "s \<le> 1000"
  shows "\<exists>n. search_right bm c s = (n * s, tick_initialised bm n) \<and> c < n \<and>
    n \<le> word_start (c + 1) + 255 \<and>
    (\<forall>k. c < k \<and> k < n \<longrightarrow> \<not> tick_initialised bm k) \<and>
    (\<not> tick_initialised bm n \<longrightarrow> n = word_start (c + 1) + 255)"
proof -
  define d where "d = c + 1"
  have d: "wrap_i32 (c + 1) = d"
    unfolding d_def using assms(1) by (intro wrap_i32_id) (auto simp: in_i32_def)
  let ?b = "d mod 256"
  let ?w = "bitmap_word bm (wrap_signed 16 (d div 256))"
  define x where "x = ?w AND NOT (push_bit (nat ?b) 1 - 1)"
  have b: "0 \<le> ?b" "?b < 256" by simp_all
  have bits: "bit x i \<longleftrightarrow> bit ?w i \<and> nat ?b \<le> i" for i
    using bit_imp_le_length [of ?w i] by (simp only: x_def bit_and_iff bit_right_mask) auto
  have wrap: "wrap_i32 (wrap_i32 n * s) = n * s" if "d \<le> n" "n \<le> d + 255" for n
  proof -
    have n: "\<bar>n\<bar> \<le> 1000256" using that assms(1) unfolding d_def by linarith
    then have "\<bar>n * s\<bar> \<le> 1000256 * 1000"
      unfolding abs_mult using assms by (intro mult_mono) auto
    moreover have "wrap_i32 n = n"
      using n by (intro wrap_i32_id) (auto simp: in_i32_def)
    ultimately show ?thesis by (auto intro!: wrap_i32_id simp: in_i32_def)
  qed
  have member: "tick_initialised bm k \<longleftrightarrow> bit ?w (nat (k - word_start d))"
    if "d \<le> k" "k \<le> word_start d + 255" for k
    using initialised_in_word [of "k - word_start d" bm d] that b by (simp add: word_start_def)
  have above: "nat ?b \<le> nat (k - word_start d)" if "d \<le> k" for k
    using that by (intro nat_mono) (simp add: word_start_def)
  have start: "word_start d + ?b = d" by (simp add: word_start_def)
  have "\<exists>n. search_right bm c s = (n * s, tick_initialised bm n) \<and> d \<le> n \<and>
      n \<le> word_start d + 255 \<and> (\<forall>k. d \<le> k \<and> k < n \<longrightarrow> \<not> tick_initialised bm k) \<and>
      (\<not> tick_initialised bm n \<longrightarrow> n = word_start d + 255)"
  proof (cases "x = 0")
    case True
    have none: "\<not> tick_initialised bm k" if "d \<le> k" "k \<le> word_start d + 255" for k
      using member [OF that] above [OF that(1)] bits [of "nat (k - word_start d)"] True by simp
    have "search_right bm c s = (wrap_i32 (wrap_i32 (d + (255 - ?b)) * s), False)"
      using True by (simp only: search_right_def d position_eq unat_bit_pos uint_bit_pos Let_def
          prod.case simp_thms if_False flip: x_def)
    moreover have "d + (255 - ?b) = word_start d + 255" using start by linarith
    ultimately have "search_right bm c s = ((word_start d + 255) * s, False)"
      using wrap [of "word_start d + 255"] b start by simp
    with none show ?thesis
      using b start by (intro exI [of _ "word_start d + 255"]) auto
  next
    case False
    let ?m = "uint (least_significant_bit x)"
    let ?n = "word_start d + ?m"
    have m: "bit ?w (nat ?m)" "nat ?b \<le> nat ?m"
      using lsb_bit(1) [OF False] bits by simp_all
    have m': "?b \<le> ?m"
      using m(2) nat_le_eq_zle [of ?b ?m] by (simp only: uint_ge_0 simp_thms)
    have m'': "?m < 256" using uint_bounded [of "least_significant_bit x"] by simp
    have n: "d \<le> ?n" "?n \<le> word_start d + 255" using m' m'' start by simp_all
    have init: "tick_initialised bm ?n" using member [OF n] m by simp
    have none: "\<not> tick_initialised bm k" if "d \<le> k" "k < ?n" for k
    proof -
      have "nat (k - word_start d) < unat (least_significant_bit x)"
        using that b start by (simp add: nat_less_iff)
      then show ?thesis
        using member [of k] that n above [of k] bits [of "nat (k - word_start d)"]
          lsb_bit(2) [OF False] by simp
    qed
    have "search_right bm c s = (wrap_i32 (wrap_i32 (d + (?m - ?b)) * s), True)"
      using False by (simp only: search_right_def d position_eq unat_bit_pos uint_bit_pos Let_def
          prod.case simp_thms if_True flip: x_def)
    moreover have "d + (?m - ?b) = ?n" using start by linarith
    ultimately have "search_right bm c s = (?n * s, True)"
      using wrap [of ?n] n b start by simp
    with init none n show ?thesis by (intro exI [of _ ?n]) simp
  qed
  then show ?thesis by (simp only: d_def add1_zle_eq)
qed

lemma le_div_iff:
  fixes k t s :: int
  assumes "0 < s"
  shows "k * s \<le> t \<longleftrightarrow> k \<le> t div s"
proof
  assume "k * s \<le> t"
  with zdiv_mono1 [OF this assms] assms show "k \<le> t div s" by simp
next
  assume "k \<le> t div s"
  then have "k * s \<le> t div s * s" using assms by (intro mult_right_mono) simp_all
  also have "\<dots> \<le> t" using assms by (simp add: minus_mod_eq_div_mult [symmetric])
  finally show "k * s \<le> t" .
qed

lemma div_less_mult_iff: "0 < s \<Longrightarrow> (t :: int) < k * s \<longleftrightarrow> t div s < k"
  using le_div_iff [of s k t] by linarith

lemma compressed_bound:
  assumes "MIN_TICK \<le> t" and "t \<le> MAX_TICK" and s: "0 < s"
  shows "\<bar>t div s\<bar> \<le> 1000000"
proof -
  have "- 887272 * s \<le> - 887272" and "887273 \<le> 887273 * s" using s by linarith+
  then have "- 887272 * s \<le> t" and "t < 887273 * s"
    using assms by (simp_all add: MIN_TICK_def MAX_TICK_def)
  then show ?thesis
    using le_div_iff [OF s, of "- 887272" t] div_less_mult_iff [OF s, of t 887273] by linarith
qed

section \<open>Properties\<close>

text \<open>C30 The bitmap search returns, to the left, the nearest initialised tick at or below the
  current one within its bitmap word, or the first tick of the word when there is none, and
  the flag says which of the two it is.\<close>

theorem next_tick_left_exact:
  assumes "MIN_TICK \<le> t" and "t \<le> MAX_TICK" and "0 < s" and "s \<le> 1000"
  shows "\<exists>n. get_next_initialized_tick_precise t s True bm = Some (n * s, tick_initialised bm n) \<and>
    word_start (t div s) \<le> n \<and> n * s \<le> t \<and>
    (\<forall>k. n < k \<and> k * s \<le> t \<longrightarrow> \<not> tick_initialised bm k) \<and>
    (\<not> tick_initialised bm n \<longrightarrow> n = word_start (t div s))"
proof -
  have t: "in_i32 t" using assms by (simp add: in_i32_def MIN_TICK_def MAX_TICK_def)
  have "\<bar>t div s\<bar> \<le> 1000000"
    using compressed_bound [OF assms(1-3)] .
  from search_left_spec [OF this assms(3,4), of bm] show ?thesis
    by (simp add: get_next_initialized_tick_precise_def compress_tick_floor [OF assms(3) t]
        le_div_iff [OF assms(3)])
qed

theorem next_tick_left_exact_witness:
  "\<exists>n. get_next_initialized_tick_precise (- 7) 60 True [- 1 \<mapsto> 0x80] = Some (n * 60, tick_initialised [- 1 \<mapsto> 0x80] n) \<and> n \<le> - 1"
  using next_tick_left_exact [of "- 7" 60 "[- 1 \<mapsto> 0x80]"]
  by (auto simp: MIN_TICK_def MAX_TICK_def)

text \<open>To the right it returns the nearest initialised tick strictly above the current one
  within the word of the next compressed tick, or the last tick of that word.\<close>

theorem next_tick_right_exact:
  assumes "MIN_TICK \<le> t" and "t \<le> MAX_TICK" and "0 < s" and "s \<le> 1000"
  shows "\<exists>n. get_next_initialized_tick_precise t s False bm = Some (n * s, tick_initialised bm n) \<and>
    t < n * s \<and> n \<le> word_start (t div s + 1) + 255 \<and>
    (\<forall>k. t < k * s \<and> k < n \<longrightarrow> \<not> tick_initialised bm k) \<and>
    (\<not> tick_initialised bm n \<longrightarrow> n = word_start (t div s + 1) + 255)"
proof -
  have t: "in_i32 t" using assms by (simp add: in_i32_def MIN_TICK_def MAX_TICK_def)
  have "\<bar>t div s\<bar> \<le> 1000000"
    using compressed_bound [OF assms(1-3)] .
  from search_right_spec [OF this assms(3,4), of bm] show ?thesis
    by (simp add: get_next_initialized_tick_precise_def compress_tick_floor [OF assms(3) t]
        div_less_mult_iff [OF assms(3)])
qed

theorem next_tick_right_exact_witness:
  "\<exists>n. get_next_initialized_tick_precise (- 7) 60 False [0 \<mapsto> 0x80] = Some (n * 60, tick_initialised [0 \<mapsto> 0x80] n) \<and> - 7 < n * 60"
  using next_tick_right_exact [of "- 7" 60 "[0 \<mapsto> 0x80]"]
  by (auto simp: MIN_TICK_def MAX_TICK_def)

end
