(* ===== verification/Swap_Curve.thy ===== *)
theory Swap_Curve
  imports Wide_Math
begin

text \<open>
  The arithmetic contract of one exact-input swap step, on the natural numbers. A curve says
  what it costs to move the price and where an input leads; the locale \<open>swap_curve\<close> states
  the law both directions of a pool promise, and the fee accounting of a step is proved from it
  once. The two interpretations are the curves of \<open>src/v3_math.rs\<close>: token 0 in (price
  falls, \<open>get_amount0_delta\<close> and the rounding-up next price with its overflow fallback) and
  token 1 in (price rises, \<open>get_amount1_delta\<close> and the rounding-down next price).
\<close>

locale swap_curve =
  fixes toward :: "nat \<Rightarrow> nat \<Rightarrow> bool"
    and cost :: "nat \<Rightarrow> nat \<Rightarrow> nat \<Rightarrow> nat"
    and next_price :: "nat \<Rightarrow> nat \<Rightarrow> nat \<Rightarrow> nat"
  assumes partial: "toward p t \<Longrightarrow> 0 < a \<Longrightarrow> a < cost l p t \<Longrightarrow>
      toward p (next_price l p a) \<and> toward (next_price l p a) t \<and>
      next_price l p a \<noteq> t \<and> cost l p (next_price l p a) \<le> a"
    and toward_refl: "toward p t \<Longrightarrow> toward t t"
begin

definition settle :: "nat \<Rightarrow> nat \<Rightarrow> nat \<Rightarrow> nat \<Rightarrow> nat \<Rightarrow> nat \<times> nat \<times> nat" where
  "settle l p t r f =
     (let a = r * (1000000 - f) div 1000000 in
      if cost l p t \<le> a then (t, cost l p t, ceil_div (cost l p t * f) (1000000 - f))
      else (let n = next_price l p a in (n, cost l p n, r - cost l p n)))"

lemma fee_fits:
  assumes "f < 1000000" and "c \<le> r * (1000000 - f) div 1000000"
  shows "c + ceil_div (c * f) (1000000 - f) \<le> r"
proof -
  let ?g = "1000000 - f"
  have g: "0 < ?g" "f + ?g = 1000000" using assms(1) by simp_all
  have "c * 1000000 \<le> r * ?g"
    using assms(2) by (simp add: less_eq_div_iff_mult_less_eq)
  then have eq: "c * f + c * ?g \<le> r * ?g"
    by (simp only: g(2) flip: distrib_left)
  then have "c * ?g \<le> r * ?g" by linarith
  then have cr: "c \<le> r" using g(1) by (simp only: mult_le_cancel2)
  from eq have "c * f \<le> (r - c) * ?g"
    by (simp only: diff_mult_distrib)
  then have "ceil_div (c * f) ?g \<le> r - c"
    using ceil_div_le_iff [OF g(1)] by blast
  with cr show ?thesis by linarith
qed

lemma settle_sound:
  assumes "toward p t" and "f < 1000000"
    and enough: "cost l p t = 0 \<or> 0 < r * (1000000 - f) div 1000000"
    and s: "settle l p t r f = (n, c, e)"
  shows "toward p n" and "toward n t" and "c = cost l p n" and "c + e \<le> r"
    and "n \<noteq> t \<Longrightarrow> c + e = r"
proof -
  let ?a = "r * (1000000 - f) div 1000000"
  have ar: "?a \<le> r" using div_le_mono [of "r * (1000000 - f)" "r * 1000000" 1000000] by simp
  have all: "toward p n \<and> toward n t \<and> c = cost l p n \<and> c + e \<le> r \<and> (n \<noteq> t \<longrightarrow> c + e = r)"
  proof (cases "cost l p t \<le> ?a")
    case True
    with s have "n = t" "c = cost l p t" "e = ceil_div (cost l p t * f) (1000000 - f)"
      by (auto simp: settle_def)
    with assms(1) toward_refl fee_fits [OF assms(2) True] show ?thesis by simp
  next
    case False
    with s have nce: "n = next_price l p ?a" "c = cost l p n" "e = r - c"
      by (auto simp: settle_def Let_def)
    have "0 < ?a" using enough False by auto
    from partial [OF assms(1) this, of l] False have
      "toward p n" "toward n t" "n \<noteq> t" "c \<le> ?a" by (simp_all add: nce)
    with ar nce show ?thesis by simp
  qed
  then show "toward p n" and "toward n t" and "c = cost l p n" and "c + e \<le> r"
    and "n \<noteq> t \<Longrightarrow> c + e = r" by simp_all
qed

end

section \<open>Token 0 in: the price falls\<close>

definition down_toward :: "nat \<Rightarrow> nat \<Rightarrow> bool" where
  "down_toward p t \<longleftrightarrow> 0 < t \<and> t \<le> p"

definition amount0_nat :: "nat \<Rightarrow> nat \<Rightarrow> nat \<Rightarrow> nat" where
  "amount0_nat l p t = ceil_div (ceil_div (l * 2 ^ 96 * (p - t)) p) t"

definition next0_nat :: "nat \<Rightarrow> nat \<Rightarrow> nat \<Rightarrow> nat" where
  "next0_nat l p a =
     (let n = l * 2 ^ 96 in
      if a * p < 2 ^ 256 \<and> n + a * p < 2 ^ 256 then ceil_div (n * p) (n + a * p)
      else ceil_div n (n div p + a))"

lemma amount0_le_iff:
  "0 < t \<Longrightarrow> t \<le> p \<Longrightarrow> amount0_nat l p t \<le> a \<longleftrightarrow> l * 2 ^ 96 * (p - t) \<le> a * t * p"
  by (simp add: amount0_nat_def ceil_div_le_iff)

lemma next0_bounds:
  assumes "0 < a" and "0 < p"
  shows "next0_nat l p a \<le> p" and "l * 2 ^ 96 * p \<le> next0_nat l p a * (l * 2 ^ 96 + a * p)"
proof -
  let ?n = "l * 2 ^ 96"
  have "next0_nat l p a \<le> p \<and> ?n * p \<le> next0_nat l p a * (?n + a * p)"
  proof (cases "a * p < 2 ^ 256 \<and> ?n + a * p < 2 ^ 256")
    case True
    then have nx: "next0_nat l p a = ceil_div (?n * p) (?n + a * p)"
      by (simp only: next0_nat_def Let_def if_True simp_thms)
    have d: "0 < ?n + a * p" using assms by simp
    have "?n * p \<le> p * (?n + a * p)" by (simp only: distrib_left mult.commute)
    then show ?thesis
      unfolding nx using ceil_div_le_iff [OF d] ceil_div_upper [OF d] by blast
  next
    case False
    then have nx: "next0_nat l p a = ceil_div ?n (?n div p + a)"
      by (simp only: next0_nat_def Let_def if_False)
    have d: "0 < ?n div p + a" using assms by simp
    have dm: "p * (?n div p) + ?n mod p = ?n" by (rule mult_div_mod_eq)
    have "?n mod p < p" using assms(2) by simp
    moreover have "p \<le> p * a" using assms(1) by simp
    ultimately have "?n \<le> p * (?n div p) + p * a" using dm by linarith
    then have "?n \<le> p * (?n div p + a)" by (simp only: distrib_left)
    then have le: "next0_nat l p a \<le> p" unfolding nx using ceil_div_le_iff [OF d] by blast
    let ?x = "next0_nat l p a"
    have "?n \<le> ?x * (?n div p + a)" unfolding nx by (rule ceil_div_upper [OF d])
    then have "?n * p \<le> ?x * (?n div p + a) * p" by (rule mult_le_mono1)
    also have "\<dots> = ?x * (p * (?n div p) + a * p)" by (simp only: mult.assoc distrib_right mult.commute [of p])
    also have "\<dots> \<le> ?x * (?n + a * p)" using dm by (intro mult_le_mono2 add_le_mono1) linarith
    finally show ?thesis using le by blast
  qed
  then show "next0_nat l p a \<le> p" and "?n * p \<le> next0_nat l p a * (?n + a * p)" by blast+
qed

interpretation down: swap_curve down_toward amount0_nat next0_nat
proof unfold_locales
  fix p t a l :: nat
  assume tow: "down_toward p t" and a: "0 < a" "a < amount0_nat l p t"
  let ?x = "next0_nat l p a" and ?n = "l * 2 ^ 96"
  have t: "0 < t" "t \<le> p" "0 < p" using tow by (simp_all add: down_toward_def)
  note b = next0_bounds [OF a(1) t(3), of l]
  have far: "a * t * p < ?n * (p - t)"
    using a(2) amount0_le_iff [OF t(1,2), of l a] by (simp only: not_le [symmetric]) simp
  have "t < ?x"
  proof (rule ccontr)
    assume "\<not> t < ?x"
    then have "?n * p \<le> t * (?n + a * p)"
      using b(2) by (meson le_trans mult_le_mono1 not_le)
    then have "?n * p - ?n * t \<le> a * t * p" by (simp add: algebra_simps)
    with far show False by (simp only: diff_mult_distrib2)
  qed
  moreover have "?n * (p - ?x) \<le> a * ?x * p"
    using b(2) by (simp add: algebra_simps)
  then have "amount0_nat l p ?x \<le> a"
    using amount0_le_iff [of ?x p l a] b(1) \<open>t < ?x\<close> by simp
  ultimately show "down_toward p ?x \<and> down_toward ?x t \<and> ?x \<noteq> t \<and> amount0_nat l p ?x \<le> a"
    using b(1) t by (simp add: down_toward_def)
qed (simp add: down_toward_def)

section \<open>Token 1 in: the price rises\<close>

definition up_toward :: "nat \<Rightarrow> nat \<Rightarrow> bool" where
  "up_toward p t \<longleftrightarrow> p \<le> t"

definition amount1_nat :: "nat \<Rightarrow> nat \<Rightarrow> nat \<Rightarrow> nat" where
  "amount1_nat l p t = ceil_div (l * (t - p)) (2 ^ 96)"

definition next1_nat :: "nat \<Rightarrow> nat \<Rightarrow> nat \<Rightarrow> nat" where
  "next1_nat l p a = p + a * 2 ^ 96 mod 2 ^ 256 div l"

interpretation up: swap_curve up_toward amount1_nat next1_nat
proof unfold_locales
  fix p t a l :: nat
  assume tow: "up_toward p t" and a: "0 < a" "a < amount1_nat l p t"
  let ?q = "a * 2 ^ 96 mod 2 ^ 256 div l"
  have "a * 2 ^ 96 < l * (t - p)"
    using a(2) by (simp only: amount1_nat_def less_ceil_div_iff zero_less_power zero_less_numeral)
  moreover have lq: "l * ?q \<le> a * 2 ^ 96"
    by (meson le_trans mod_less_eq_dividend times_div_less_eq_dividend)
  ultimately have "l * ?q < l * (t - p)" by linarith
  then have "?q < t - p" by simp
  moreover have "amount1_nat l p (p + ?q) \<le> a"
    using lq by (simp only: amount1_nat_def add_diff_cancel_left' ceil_div_le_iff zero_less_power zero_less_numeral)
  ultimately show "up_toward p (next1_nat l p a) \<and> up_toward (next1_nat l p a) t \<and>
      next1_nat l p a \<noteq> t \<and> amount1_nat l p (next1_nat l p a) \<le> a"
    unfolding up_toward_def next1_nat_def by (intro conjI) linarith+
qed (simp add: up_toward_def)

end
