(* ===== verification/V3_Swap.thy ===== *)
theory V3_Swap
  imports V3_Bitmap Swap_Curve
begin

text \<open>
  One swap step of a concentrated-liquidity pool and the loop over its ticks
  (\<open>src/v3_math.rs\<close>): the amount deltas, the next price from an input or output amount,
  \<open>compute_swap_step\<close>, the liquidity helpers, \<open>simulate_swap_with_limit\<close>.
  A division the source does not guard makes the operation an \<open>exec\<close>.
\<close>

section \<open>Amounts between two prices\<close>

abbreviation unwrap_or :: "'a option \<Rightarrow> 'a \<Rightarrow> 'a" where
  "unwrap_or x d \<equiv> (case x of Some y \<Rightarrow> y | None \<Rightarrow> d)"

definition ordered :: "u256 \<Rightarrow> u256 \<Rightarrow> u256 \<times> u256" where
  "ordered a b = (if a > b then (b, a) else (a, b))"

definition get_amount0_delta :: "u256 \<Rightarrow> u256 \<Rightarrow> u256 \<Rightarrow> bool \<Rightarrow> u256" where
  "get_amount0_delta sqrt_ratio_a_x96 sqrt_ratio_b_x96 liquidity round_up =
     (let (sqrt_ratio_a, sqrt_ratio_b) = ordered sqrt_ratio_a_x96 sqrt_ratio_b_x96;
          numerator1 = push_bit 96 liquidity;
          numerator2 = sqrt_ratio_b - sqrt_ratio_a
      in if round_up
         then unwrap_or (mul_div_round_up (unwrap_or (mul_div_round_up numerator1 numerator2 sqrt_ratio_b) 0) 1 sqrt_ratio_a) 0
         else unwrap_or (mul_div (unwrap_or (mul_div numerator1 numerator2 sqrt_ratio_b) 0) 1 sqrt_ratio_a) 0)"

definition get_amount1_delta :: "u256 \<Rightarrow> u256 \<Rightarrow> u256 \<Rightarrow> bool \<Rightarrow> u256" where
  "get_amount1_delta sqrt_ratio_a_x96 sqrt_ratio_b_x96 liquidity round_up =
     (let (sqrt_ratio_a, sqrt_ratio_b) = ordered sqrt_ratio_a_x96 sqrt_ratio_b_x96
      in if round_up
         then unwrap_or (mul_div_round_up liquidity (sqrt_ratio_b - sqrt_ratio_a) q96) 0
         else unwrap_or (mul_div liquidity (sqrt_ratio_b - sqrt_ratio_a) q96) 0)"

section \<open>The next price\<close>

definition get_next_sqrt_price_from_input :: "u256 \<Rightarrow> u256 \<Rightarrow> u256 \<Rightarrow> bool \<Rightarrow> u256 exec" where
  "get_next_sqrt_price_from_input sqrt_price_x96 liquidity amount_in zero_for_one =
     (if zero_for_one then do {
        let numerator = push_bit 96 liquidity;
        let product = amount_in * sqrt_price_x96;
        let denominator = numerator + product;
        back \<leftarrow> u_div product amount_in;
        if back = sqrt_price_x96 \<and> denominator \<ge> numerator
        then Some (unwrap_or (mul_div_round_up numerator sqrt_price_x96 denominator) 0)
        else do {
          base \<leftarrow> u_div numerator sqrt_price_x96;
          Some (unwrap_or (mul_div_round_up numerator 1 (base + amount_in)) 0)
        }
      } else do {
        quotient \<leftarrow> u_div (push_bit 96 amount_in) liquidity;
        Some (sqrt_price_x96 + quotient)
      })"

definition get_next_sqrt_price_from_output :: "u256 \<Rightarrow> u256 \<Rightarrow> u256 \<Rightarrow> bool \<Rightarrow> u256 exec" where
  "get_next_sqrt_price_from_output sqrt_price_x96 liquidity amount_out zero_for_one =
     (if zero_for_one then do {
        quotient \<leftarrow> u_div (push_bit 96 amount_out) liquidity;
        Some (sqrt_price_x96 - quotient)
      } else
        let numerator = push_bit 96 liquidity;
            product = amount_out * sqrt_price_x96;
            denominator = numerator - product
        in Some (unwrap_or (mul_div_round_up numerator sqrt_price_x96 denominator) 0))"

section \<open>Liquidity helpers\<close>

definition get_amount_0_for_liquidity :: "u256 \<Rightarrow> u256 \<Rightarrow> u256 \<Rightarrow> u256" where
  "get_amount_0_for_liquidity lower upper liquidity =
     (let (lo, hi) = (if lower \<le> upper then (lower, upper) else (upper, lower));
          delta = hi - lo;
          num = unwrap_or (mul_div liquidity delta 1) 0;
          den = unwrap_or (mul_div hi lo q96) u256_max
      in if den = 0 then 0 else unwrap_or (mul_div num 1 den) 0)"

definition get_amount_1_for_liquidity :: "u256 \<Rightarrow> u256 \<Rightarrow> u256 \<Rightarrow> u256" where
  "get_amount_1_for_liquidity lower upper liquidity =
     unwrap_or (mul_div liquidity (sat_sub upper lower) q96) 0"

definition get_liquidity_for_amount_0 :: "u256 \<Rightarrow> u256 \<Rightarrow> u256 \<Rightarrow> u256" where
  "get_liquidity_for_amount_0 lower upper amount0 =
     (let delta = sat_sub upper lower in
      if delta = 0 then 0
      else unwrap_or (mul_div amount0 (unwrap_or (mul_div upper lower q96) 0) delta) 0)"

definition get_liquidity_for_amount_1 :: "u256 \<Rightarrow> u256 \<Rightarrow> u256 \<Rightarrow> u256 exec" where
  "get_liquidity_for_amount_1 lower upper amount1 =
     (let delta = sat_sub upper lower in
      if delta = 0 then Some 0 else u_div (amount1 * q96) delta)"

section \<open>One step\<close>

record swap_step_result =
  sqrt_price_next_x96 :: u256
  step_amount_in :: u256
  step_amount_out :: u256
  step_fee_amount :: u256

definition i256_abs :: "i256 \<Rightarrow> i256" where
  "i256_abs n = wrap_i256 \<bar>n\<bar>"

definition million :: u256 where "million = 1000000"

text \<open>The subtraction \<open>1_000_000 - fee_pips\<close> is on \<open>u32\<close> and wraps.\<close>

definition fee_complement :: "u32 \<Rightarrow> u256" where
  "fee_complement fee_pips = ucast (1000000 - fee_pips)"

definition step_target :: "u256 \<Rightarrow> u256 \<Rightarrow> u256 \<Rightarrow> i256 \<Rightarrow> u32 \<Rightarrow> bool \<Rightarrow> (u256 \<times> u256 \<times> u256) exec" where
  "step_target sqrt_price_current sqrt_price_target liquidity amount_remaining fee_pips zero_for_one =
     (if amount_remaining > 0 then do {
        let amount_remaining_less_fee =
          unwrap_or (mul_div (u256_of_i256 (i256_abs amount_remaining)) (fee_complement fee_pips) million) 0;
        let amount_in =
          (if zero_for_one
           then get_amount0_delta sqrt_price_target sqrt_price_current liquidity True
           else get_amount1_delta sqrt_price_current sqrt_price_target liquidity True);
        next_price \<leftarrow>
          (if amount_remaining_less_fee \<ge> amount_in then Some sqrt_price_target
           else get_next_sqrt_price_from_input sqrt_price_current liquidity amount_remaining_less_fee zero_for_one);
        Some (next_price, amount_in, 0)
      } else do {
        let amount_out =
          (if zero_for_one
           then get_amount1_delta sqrt_price_target sqrt_price_current liquidity False
           else get_amount0_delta sqrt_price_current sqrt_price_target liquidity False);
        let amount_out_abs = u256_of_i256 (i256_abs amount_remaining);
        next_price \<leftarrow>
          (if amount_out_abs \<ge> amount_out then Some sqrt_price_target
           else get_next_sqrt_price_from_output sqrt_price_current liquidity amount_out_abs zero_for_one);
        Some (next_price, 0, amount_out)
      })"

definition compute_swap_step ::
  "u256 \<Rightarrow> u256 \<Rightarrow> u256 \<Rightarrow> i256 \<Rightarrow> u32 \<Rightarrow> bool \<Rightarrow> (swap_step_result \<times> i256) exec" where
  "compute_swap_step sqrt_price_current sqrt_price_target liquidity amount_remaining fee_pips zero_for_one = do {
     let exact_input = (amount_remaining > 0);
     (next_price, amount_in0, amount_out0) \<leftarrow>
       step_target sqrt_price_current sqrt_price_target liquidity amount_remaining fee_pips zero_for_one;
     let max = (next_price = sqrt_price_target);
     let amount_in =
       (if \<not> max \<or> \<not> exact_input
        then (if zero_for_one then get_amount0_delta next_price sqrt_price_current liquidity True
              else get_amount1_delta sqrt_price_current next_price liquidity True)
        else amount_in0);
     let amount_out =
       (if \<not> max \<or> exact_input
        then (if zero_for_one then get_amount1_delta next_price sqrt_price_current liquidity False
              else get_amount0_delta sqrt_price_current next_price liquidity False)
        else amount_out0);
     let fee_amount =
       (if exact_input \<and> next_price \<noteq> sqrt_price_target
        then u256_of_i256 (i256_abs amount_remaining) - amount_in
        else unwrap_or (mul_div_round_up amount_in (ucast fee_pips) (fee_complement fee_pips)) 0);
     let rem =
       (if exact_input
        then wrap_i256 (amount_remaining - i256_of_u256 (amount_in + fee_amount))
        else wrap_i256 (amount_remaining + i256_of_u256 amount_out));
     Some (\<lparr>sqrt_price_next_x96 = next_price, step_amount_in = amount_in,
            step_amount_out = amount_out, step_fee_amount = fee_amount\<rparr>, rem)
   }"

section \<open>The loop over the ticks\<close>

definition default_price_limit :: "bool \<Rightarrow> u256" where
  "default_price_limit zero_for_one =
     (if zero_for_one then min_sqrt_ratio + 1 else max_sqrt_ratio - 1)"

record swap_state =
  sw_remaining :: i256
  sw_calculated :: u256
  sw_price :: u256
  sw_tick :: i32
  sw_liquidity :: u256

type_synonym tick_table = "i32 \<rightharpoonup> i128 \<times> u128"

definition cross_tick :: "tick_table \<Rightarrow> bool \<Rightarrow> i32 \<Rightarrow> u256 \<Rightarrow> u256" where
  "cross_tick ticks zero_for_one next_tick liquidity =
     (case ticks next_tick of
        Some (liquidity_net, _) \<Rightarrow>
          if zero_for_one then sat_sub liquidity (word_of_int \<bar>liquidity_net\<bar>)
          else sat_add liquidity (word_of_int \<bar>liquidity_net\<bar>)
      | None \<Rightarrow> liquidity)"

definition clamp_target :: "bool \<Rightarrow> u256 \<Rightarrow> u256 \<Rightarrow> u256" where
  "clamp_target zero_for_one limit next_sqrt_price =
     (if zero_for_one then (if next_sqrt_price < limit then limit else next_sqrt_price)
      else (if next_sqrt_price > limit then limit else next_sqrt_price))"

definition swap_iteration ::
  "tick_table \<Rightarrow> (i16 \<rightharpoonup> u256) \<Rightarrow> bool \<Rightarrow> u32 \<Rightarrow> u256 \<Rightarrow> i32 \<Rightarrow> swap_state \<Rightarrow> swap_state exec" where
  "swap_iteration ticks bm zero_for_one fee limit spacing s = do {
     (next_tick, _) \<leftarrow> get_next_initialized_tick_precise (sw_tick s) spacing zero_for_one bm;
     let next_sqrt_price = get_sqrt_ratio_at_tick next_tick;
     let target_price = clamp_target zero_for_one limit next_sqrt_price;
     (step, rem) \<leftarrow> compute_swap_step (sw_price s) target_price (sw_liquidity s) (sw_remaining s) fee zero_for_one;
     let price = sqrt_price_next_x96 step;
     let s' = s\<lparr>sw_remaining := rem, sw_calculated := sw_calculated s + step_amount_out step, sw_price := price\<rparr>;
     if price = next_sqrt_price
     then Some (s'\<lparr>sw_liquidity := cross_tick ticks zero_for_one next_tick (sw_liquidity s),
                   sw_tick := (if zero_for_one then wrap_i32 (next_tick - 1) else next_tick)\<rparr>)
     else do {
       tick \<leftarrow> get_tick_at_sqrt_ratio price;
       Some (s'\<lparr>sw_tick := tick\<rparr>)
     }
   }"

partial_function (option) swap_loop ::
  "tick_table \<Rightarrow> (i16 \<rightharpoonup> u256) \<Rightarrow> bool \<Rightarrow> u32 \<Rightarrow> u256 \<Rightarrow> i32 \<Rightarrow> swap_state \<Rightarrow> swap_state option" where
  "swap_loop ticks bm zero_for_one fee limit spacing s =
     (if sw_remaining s \<noteq> 0 \<and> sw_price s \<noteq> limit
      then Option.bind (swap_iteration ticks bm zero_for_one fee limit spacing s)
             (swap_loop ticks bm zero_for_one fee limit spacing)
      else Some s)"

definition simulate_swap_with_limit ::
  "u256 \<Rightarrow> i32 \<Rightarrow> u256 \<Rightarrow> tick_table \<Rightarrow> (i16 \<rightharpoonup> u256) \<Rightarrow> u256 \<Rightarrow> bool \<Rightarrow> u32 \<Rightarrow> u256 option \<Rightarrow> i32
     \<Rightarrow> (u256 \<times> u256 \<times> i32 \<times> u256) option" where
  "simulate_swap_with_limit sqrt_price tick liquidity ticks bm amount_in zero_for_one fee limit spacing = do {
     s \<leftarrow> swap_loop ticks bm zero_for_one fee (unwrap_or limit (default_price_limit zero_for_one)) spacing
            \<lparr>sw_remaining = i256_of_u256 amount_in, sw_calculated = 0, sw_price = sqrt_price,
             sw_tick = tick, sw_liquidity = liquidity\<rparr>;
     Some (sw_calculated s, sw_price s, sw_tick s, sw_liquidity s)
   }"

end
