(* ===== verification/Swap_Step.thy ===== *)
theory Swap_Step
  imports V3_Swap
begin

text \<open>
  The word-level swap step of \<open>V3_Swap\<close> refines the arithmetic curves of
  \<open>Swap_Curve\<close>: for liquidity below \<open>2 ^ 128\<close> and prices below \<open>2 ^ 160\<close>, the ranges
  of the pool contracts, no saturation, wrap or panic happens and \<open>compute_swap_step\<close>
  is the \<open>settle\<close> of the interpretation of its direction.
\<close>

section \<open>Amount deltas\<close>

lemma unat_shift_96:
  assumes "unat (l :: u256) < 2 ^ 160"
  shows "unat (push_bit 96 l) = unat l * 2 ^ 96"
proof -
  have "unat l * 2 ^ 96 < 2 ^ 160 * 2 ^ 96" using assms by (intro mult_strict_right_mono) simp_all
  then have "unat l * 2 ^ 96 < 2 ^ 256" by simp
  then have "unat (l * 2 ^ 96) = unat l * 2 ^ 96"
    by (subst unat_mult_nowrap) simp_all
  then show ?thesis by (simp only: push_bit_eq_mult)
qed

lemma unat_q96 [simp]: "unat q96 = 2 ^ 96"
  by (simp add: q96_def)

lemma round_up_exact:
  assumes "d \<noteq> 0" and "unat a * unat b \<le> m * unat d" and "m < 2 ^ 256"
  shows "unat (unwrap_or (mul_div_round_up a b d) z) = ceil_div (unat a * unat b) (unat d)"
proof -
  obtain r where r: "mul_div_round_up a b d = Some r"
    "unat r = min (ceil_div (unat a * unat b) (unat d)) (2 ^ 256 - 1)"
    using mul_div_round_up_nat [OF assms(1)] by blast
  have "ceil_div (unat a * unat b) (unat d) \<le> m"
    using assms(1,2) by (subst ceil_div_le_iff) simp_all
  with assms(3) have "ceil_div (unat a * unat b) (unat d) \<le> 2 ^ 256 - 1" by linarith
  with r show ?thesis by (simp only: option.case min_absorb1)
qed

lemma round_down_exact:
  assumes "d \<noteq> 0" and "unat a * unat b \<le> m * unat d" and "m < 2 ^ 256"
  shows "unat (unwrap_or (mul_div a b d) z) = unat a * unat b div unat d"
proof -
  obtain r where r: "mul_div a b d = Some r"
    "unat r = min (unat a * unat b div unat d) (2 ^ 256 - 1)"
    using mul_div_nat [OF assms(1)] by blast
  have "unat a * unat b div unat d \<le> m"
    using div_le_mono [OF assms(2), of "unat d"] assms(1) by simp
  with assms(3) have "unat a * unat b div unat d \<le> 2 ^ 256 - 1" by linarith
  with r show ?thesis by (simp only: option.case min_absorb1)
qed

lemma ordered_le: "a \<le> b \<Longrightarrow> ordered a b = (a, b)"
  by (simp add: ordered_def leD)

lemma liq_bound: "n < 2 ^ 128 \<Longrightarrow> n * 2 ^ 96 < (2 ^ 256 :: nat)"
  by simp

lemma amount0_up:
  assumes "unat l < 2 ^ 128" and "a \<le> b" and "a \<noteq> 0"
  shows "unat (get_amount0_delta a b l True) = amount0_nat (unat l) (unat b) (unat a)"
proof -
  have ab: "unat a \<le> unat b" using assms(2) by (simp add: word_le_nat_alt)
  have b0: "b \<noteq> 0" using assms(2,3) by (metis word_le_0_iff)
  have sh: "unat (push_bit 96 l) = unat l * 2 ^ 96" using assms(1) by (intro unat_shift_96) simp
  have df: "unat (b - a) = unat b - unat a" using ab by (rule unat_sub_nowrap)
  have inner: "unat (unwrap_or (mul_div_round_up (push_bit 96 l) (b - a) b) 0) =
      ceil_div (unat l * 2 ^ 96 * (unat b - unat a)) (unat b)"
    using round_up_exact [OF b0, of "push_bit 96 l" "b - a" "unat l * 2 ^ 96" 0] liq_bound [OF assms(1)]
    unfolding sh df by simp
  let ?i = "unwrap_or (mul_div_round_up (push_bit 96 l) (b - a) b) 0"
  have "unat ?i * unat (1 :: u256) \<le> unat ?i * unat a"
    using assms(3) by (intro mult_le_mono2) (simp add: Suc_le_eq)
  from round_up_exact [OF assms(3) this unat_u256, of 0]
  have "unat (unwrap_or (mul_div_round_up ?i 1 a) 0) = ceil_div (unat ?i) (unat a)"
    by (simp only: unat_1 mult_1_right)
  then show ?thesis
    by (simp only: get_amount0_delta_def ordered_le [OF assms(2)] Let_def prod.case if_True
        amount0_nat_def inner)
qed

lemma amount0_down:
  assumes "unat l < 2 ^ 128" and "a \<le> b" and "a \<noteq> 0"
  shows "unat (get_amount0_delta a b l False) =
    unat l * 2 ^ 96 * (unat b - unat a) div unat b div unat a"
proof -
  have ab: "unat a \<le> unat b" using assms(2) by (simp add: word_le_nat_alt)
  have b0: "b \<noteq> 0" using assms(2,3) by (metis word_le_0_iff)
  have sh: "unat (push_bit 96 l) = unat l * 2 ^ 96" using assms(1) by (intro unat_shift_96) simp
  have df: "unat (b - a) = unat b - unat a" using ab by (rule unat_sub_nowrap)
  have inner: "unat (unwrap_or (mul_div (push_bit 96 l) (b - a) b) 0) =
      unat l * 2 ^ 96 * (unat b - unat a) div unat b"
    using round_down_exact [OF b0, of "push_bit 96 l" "b - a" "unat l * 2 ^ 96" 0] liq_bound [OF assms(1)]
    unfolding sh df by simp
  let ?i = "unwrap_or (mul_div (push_bit 96 l) (b - a) b) 0"
  have "unat ?i * unat (1 :: u256) \<le> unat ?i * unat a"
    using assms(3) by (intro mult_le_mono2) (simp add: Suc_le_eq)
  from round_down_exact [OF assms(3) this unat_u256, of 0]
  have "unat (unwrap_or (mul_div ?i 1 a) 0) = unat ?i div unat a"
    by (simp only: unat_1 mult_1_right)
  then show ?thesis
    by (simp only: get_amount0_delta_def ordered_le [OF assms(2)] Let_def prod.case if_False inner)
qed

lemma amount1_bound:
  assumes "unat (l :: u256) < 2 ^ 128" and "unat (b :: u256) < 2 ^ 160"
  shows "unat l * (unat b - unat a) \<le> 2 ^ 192 * unat q96"
proof -
  have "unat l * (unat b - unat a) \<le> 2 ^ 128 * 2 ^ 160"
    using assms by (intro mult_le_mono) simp_all
  then show ?thesis by simp
qed

lemma amount1_up:
  assumes "unat l < 2 ^ 128" and "unat b < 2 ^ 160" and "a \<le> b"
  shows "unat (get_amount1_delta a b l True) = amount1_nat (unat l) (unat a) (unat b)"
proof -
  have df: "unat (b - a) = unat b - unat a"
    using assms(3) by (intro unat_sub_nowrap) (simp add: word_le_nat_alt)
  have q: "q96 \<noteq> 0" by (simp add: q96_def)
  show ?thesis
    using round_up_exact [OF q, of l "b - a" "2 ^ 192" 0] amount1_bound [OF assms(1,2), of a]
    unfolding df by (simp add: get_amount1_delta_def ordered_le [OF assms(3)] amount1_nat_def)
qed

lemma amount1_down:
  assumes "unat l < 2 ^ 128" and "unat b < 2 ^ 160" and "a \<le> b"
  shows "unat (get_amount1_delta a b l False) = unat l * (unat b - unat a) div 2 ^ 96"
proof -
  have df: "unat (b - a) = unat b - unat a"
    using assms(3) by (intro unat_sub_nowrap) (simp add: word_le_nat_alt)
  have q: "q96 \<noteq> 0" by (simp add: q96_def)
  show ?thesis
    using round_down_exact [OF q, of l "b - a" "2 ^ 192" 0] amount1_bound [OF assms(1,2), of a]
    unfolding df by (simp add: get_amount1_delta_def ordered_le [OF assms(3)])
qed

section \<open>The next price from an input\<close>

lemma unat_mult_mod: "unat (a * b :: u256) = unat a * unat b mod 2 ^ 256"
  by (simp add: unat_word_ariths)

lemma unat_add_mod: "unat (a + b :: u256) = (unat a + unat b) mod 2 ^ 256"
  by (simp add: unat_word_ariths)

lemma product_exact_iff:
  fixes a p :: u256
  assumes "a \<noteq> 0"
  shows "a * p div a = p \<longleftrightarrow> unat a * unat p < 2 ^ 256"
proof
  assume "a * p div a = p"
  then have "unat (a * p) div unat a = unat p" by (metis unat_div)
  then have "unat a * unat p \<le> unat (a * p)" by (metis times_div_less_eq_dividend)
  then show "unat a * unat p < 2 ^ 256" using unat_u256 [of "a * p"] by (rule le_less_trans)
next
  assume "unat a * unat p < 2 ^ 256"
  then have "unat (a * p) = unat a * unat p" by (simp only: unat_mult_mod mod_less)
  then have "unat (a * p div a) = unat p" using assms by (simp add: unat_div)
  then show "a * p div a = p" by (simp only: word_unat_eq_iff)
qed

lemma sum_exact_iff: "a \<le> a + b \<longleftrightarrow> unat a + unat b < 2 ^ 256" for a b :: u256
proof
  assume le: "a \<le> a + b"
  show "unat a + unat b < 2 ^ 256"
  proof (rule ccontr)
    assume n: "\<not> unat a + unat b < 2 ^ 256"
    have "unat a + unat b < 2 ^ 256 + 2 ^ 256"
      by (rule add_strict_mono [OF unat_u256 unat_u256])
    then have "unat (a + b) = unat a + unat b - 2 ^ 256"
      using n by (subst unat_add_mod, subst le_mod_geq) simp_all
    with le n show False using unat_u256 [of b] by (simp only: word_le_nat_alt)
  qed
next
  assume "unat a + unat b < 2 ^ 256"
  then show "a \<le> a + b" by (simp add: word_le_nat_alt unat_add_mod)
qed

lemma next_down:
  assumes l: "unat l < 2 ^ 128" and a: "a \<noteq> 0" "unat a < 2 ^ 255" and p: "p \<noteq> 0"
  shows "\<exists>x. get_next_sqrt_price_from_input p l a True = Some x \<and>
    unat x = next0_nat (unat l) (unat p) (unat a)"
proof -
  let ?n = "push_bit 96 l" and ?N = "unat l * 2 ^ 96"
  have sh: "unat ?n = ?N" using l by (intro unat_shift_96) simp
  have N: "?N < 2 ^ 224" using l by simp
  show ?thesis
  proof (cases "unat a * unat p < 2 ^ 256 \<and> ?N + unat a * unat p < 2 ^ 256")
    case True
    then have prod: "unat (a * p) = unat a * unat p" by (simp only: unat_mult_mod mod_less)
    have sum: "unat (?n + a * p) = ?N + unat a * unat p"
      using True by (simp only: unat_add_mod sh prod mod_less)
    have guard: "a * p div a = p \<and> ?n + a * p \<ge> ?n"
      using True by (simp only: product_exact_iff [OF a(1)] sum_exact_iff sh prod)
    have "unat a * unat p \<noteq> 0" using a(1) p by simp
    then have d: "?n + a * p \<noteq> 0" using sum by (metis add_is_0 unat_0)
    have fit: "unat ?n * unat p \<le> unat p * unat (?n + a * p)"
      unfolding sum sh by (simp only: distrib_left mult.commute)
    have "unat (unwrap_or (mul_div_round_up ?n p (?n + a * p)) 0) = next0_nat (unat l) (unat p) (unat a)"
      using round_up_exact [OF d fit unat_u256, of 0] True
      by (simp only: sum sh next0_nat_def Let_def if_True simp_thms)
    with guard a(1) show ?thesis
      by (simp add: get_next_sqrt_price_from_input_def u_div_Some Let_def)
  next
    case False
    have guard: "\<not> (a * p div a = p \<and> ?n + a * p \<ge> ?n)"
    proof (cases "unat a * unat p < 2 ^ 256")
      case True
      then have "unat (a * p) = unat a * unat p" by (simp only: unat_mult_mod mod_less)
      with True False show ?thesis by (simp only: product_exact_iff [OF a(1)] sum_exact_iff sh) blast
    next
      case False
      then show ?thesis by (simp only: product_exact_iff [OF a(1)]) blast
    qed
    have base: "unat (?n div p) = ?N div unat p" by (simp only: unat_div sh)
    have "?N div unat p < 2 ^ 224" using N div_le_dividend [of ?N "unat p"] by linarith
    then have "?N div unat p + unat a < 2 ^ 256" using a(2) by simp
    then have sum: "unat (?n div p + a) = ?N div unat p + unat a"
      by (simp only: unat_add_mod base mod_less)
    then have d: "?n div p + a \<noteq> 0" using a(1) by (metis add_is_0 unat_0 unat_0_iff)
    have "unat ?n * unat (1 :: u256) \<le> unat ?n * unat (?n div p + a)"
      using d by (intro mult_le_mono2) (simp add: Suc_le_eq del: unat_pos_iff add: unat_gt_0)
    from round_up_exact [OF d this unat_u256, of 0] False
    have "unat (unwrap_or (mul_div_round_up ?n 1 (?n div p + a)) 0) = next0_nat (unat l) (unat p) (unat a)"
      by (simp only: sum sh next0_nat_def Let_def if_False simp_thms unat_1 mult_1_right)
    with guard a(1) p show ?thesis
      by (auto simp: get_next_sqrt_price_from_input_def u_div_Some Let_def)
  qed
qed

lemma next_up:
  assumes l: "l \<noteq> 0" and fit: "next1_nat (unat l) (unat p) (unat a) < 2 ^ 256"
  shows "\<exists>x. get_next_sqrt_price_from_input p l a False = Some x \<and>
    unat x = next1_nat (unat l) (unat p) (unat a)"
proof -
  have "unat (push_bit 96 a) = unat a * 2 ^ 96 mod 2 ^ 256"
    by (simp add: push_bit_eq_mult unat_mult_mod)
  then have "unat (p + push_bit 96 a div l) = next1_nat (unat l) (unat p) (unat a)"
    using fit by (simp only: unat_add_mod unat_div next1_nat_def mod_less)
  with l show ?thesis
    by (simp add: get_next_sqrt_price_from_input_def u_div_Some Let_def)
qed

section \<open>The step refines the settled curve\<close>

definition input_words :: "i256 \<Rightarrow> u32 \<Rightarrow> bool" where
  "input_words r fee \<longleftrightarrow> 0 < r \<and> in_i256 r \<and> unat fee < 1000000"

definition amount_in_after_fee :: "i256 \<Rightarrow> u32 \<Rightarrow> u256" where
  "amount_in_after_fee r fee =
     unwrap_or (mul_div (u256_of_i256 (i256_abs r)) (fee_complement fee) million) 0"

definition step_input :: "bool \<Rightarrow> u256 \<Rightarrow> u256 \<Rightarrow> u256 \<Rightarrow> u256" where
  "step_input z p x l = (if z then get_amount0_delta x p l True else get_amount1_delta p x l True)"

definition step_output :: "bool \<Rightarrow> u256 \<Rightarrow> u256 \<Rightarrow> u256 \<Rightarrow> u256" where
  "step_output z p x l = (if z then get_amount1_delta x p l False else get_amount0_delta p x l False)"

lemma unat_remaining: "input_words r fee \<Longrightarrow> unat (u256_of_i256 (i256_abs r)) = nat r"
  by (simp add: input_words_def i256_abs_def wrap_i256_id unat_u256_of_i256)

lemma unat_fee_complement: "input_words r fee \<Longrightarrow> unat (fee_complement fee) = 1000000 - unat fee"
proof -
  assume "input_words r fee"
  then have "unat (1000000 - fee) = 1000000 - unat fee"
    by (subst unat_sub_nowrap) (simp_all add: input_words_def)
  then show ?thesis
    unfolding fee_complement_def by (subst unat_ucast_le) simp_all
qed

lemma nat_remaining_bound: "input_words r fee \<Longrightarrow> nat r < 2 ^ 255"
  by (simp add: input_words_def in_i256_def nat_less_iff)

lemma unat_after_fee:
  assumes "input_words r fee"
  shows "unat (amount_in_after_fee r fee) = nat r * (1000000 - unat fee) div 1000000"
proof -
  have m: "million \<noteq> 0" "unat million = 1000000" by (simp_all add: million_def)
  have "nat r * (1000000 - unat fee) \<le> nat r * 1000000" by (intro mult_le_mono2) simp
  moreover have "nat r < 2 ^ 256" using nat_remaining_bound [OF assms] by simp
  ultimately show ?thesis
    using round_down_exact [OF m(1), of "u256_of_i256 (i256_abs r)" "fee_complement fee" "nat r" 0]
    by (simp only: amount_in_after_fee_def unat_remaining [OF assms] unat_fee_complement [OF assms] m(2))
qed

lemma compute_swap_step_input:
  "0 < r \<Longrightarrow> compute_swap_step p t l r fee z = do {
     let a0 = step_input z p t l;
     x \<leftarrow> (if amount_in_after_fee r fee \<ge> a0 then Some t
           else get_next_sqrt_price_from_input p l (amount_in_after_fee r fee) z);
     let amount_in = (if x \<noteq> t then step_input z p x l else a0);
     let fee_amount = (if x \<noteq> t then u256_of_i256 (i256_abs r) - amount_in
        else unwrap_or (mul_div_round_up amount_in (ucast fee) (fee_complement fee)) 0);
     Some (\<lparr>sqrt_price_next_x96 = x, step_amount_in = amount_in,
            step_amount_out = step_output z p x l, step_fee_amount = fee_amount\<rparr>,
           wrap_i256 (r - i256_of_u256 (amount_in + fee_amount)))
   }"
  by (cases z) (simp_all add: compute_swap_step_def step_target_def step_input_def step_output_def
      amount_in_after_fee_def Let_def split: Option.bind_split)

text \<open>A step whose chosen price and input are known settles the fee as the curve does.\<close>

lemma step_settles:
  assumes w: "input_words r fee"
    and x: "(if amount_in_after_fee r fee \<ge> step_input z p t l then Some t
             else get_next_sqrt_price_from_input p l (amount_in_after_fee r fee) z) = Some x"
    and le: "unat (step_input z p x l) \<le> nat r * (1000000 - unat fee) div 1000000"
  shows "\<exists>e. compute_swap_step p t l r fee z =
      Some (\<lparr>sqrt_price_next_x96 = x, step_amount_in = step_input z p x l,
             step_amount_out = step_output z p x l, step_fee_amount = e\<rparr>,
            r - (uint (step_input z p x l) + uint e)) \<and>
    unat e = (if x = t then ceil_div (unat (step_input z p x l) * unat fee) (1000000 - unat fee)
              else nat r - unat (step_input z p x l))"
proof -
  let ?c = "step_input z p x l"
  let ?e = "if x \<noteq> t then u256_of_i256 (i256_abs r) - ?c
    else unwrap_or (mul_div_round_up ?c (ucast fee) (fee_complement fee)) 0"
  have r0: "0 < r" and f: "unat fee < 1000000" using w by (simp_all add: input_words_def)
  have cr: "unat ?c * 1000000 \<le> nat r * (1000000 - unat fee)"
    using le by (simp add: less_eq_div_iff_mult_less_eq)
  have fits: "unat ?c + ceil_div (unat ?c * unat fee) (1000000 - unat fee) \<le> nat r"
    using down.fee_fits [OF f le] .
  have uf: "unat (ucast fee :: u256) = unat fee"
    by (intro unat_ucast_le less_trans [OF unat_bound]) simp
  have fc: "fee_complement fee \<noteq> 0"
    using unat_fee_complement [OF w] f by (metis unat_0 zero_less_diff less_irrefl)
  have e: "unat ?e = (if x = t then ceil_div (unat ?c * unat fee) (1000000 - unat fee) else nat r - unat ?c)"
  proof (cases "x = t")
    case True
    have "unat ?c * unat fee \<le> unat ?c * 1000000" using f by (intro mult_le_mono2) simp
    then have "unat ?c * unat (ucast fee :: u256) \<le> nat r * unat (fee_complement fee)"
      using cr by (simp only: uf unat_fee_complement [OF w])
    moreover have "nat r < 2 ^ 256" using nat_remaining_bound [OF w] by simp
    ultimately show ?thesis
      using True round_up_exact [OF fc, of ?c "ucast fee" "nat r" 0]
      by (simp only: uf unat_fee_complement [OF w] if_True simp_thms if_False)
  next
    case False
    then show ?thesis
      using fits by (simp only: if_False if_True simp_thms) (subst unat_sub_nowrap, simp_all add: unat_remaining [OF w])
  qed
  have total: "unat ?c + unat ?e \<le> nat r" using e fits by (simp split: if_split_asm)
  then have sum: "unat (?c + ?e) = unat ?c + unat ?e"
    using nat_remaining_bound [OF w] by (intro unat_add_nowrap) simp
  then have "unat (?c + ?e) < 2 ^ 255" using total nat_remaining_bound [OF w] by linarith
  then have "i256_of_u256 (?c + ?e) = uint (?c + ?e)" by (rule i256_of_u256_small)
  also have "\<dots> = int (unat (?c + ?e))" by simp
  also have "\<dots> = uint ?c + uint ?e" unfolding sum by simp
  finally have paid: "i256_of_u256 (?c + ?e) = uint ?c + uint ?e" .
  have "uint ?c + uint ?e \<le> r"
  proof -
    have "int (unat ?c + unat ?e) \<le> r" using total r0 by (simp only: le_nat_iff less_imp_le)
    then show ?thesis by simp
  qed
  then have "in_i256 (r - (uint ?c + uint ?e))"
    using w by (simp add: input_words_def in_i256_def) (smt (verit) uint_ge_0)
  then have rem: "wrap_i256 (r - i256_of_u256 (?c + ?e)) = r - (uint ?c + uint ?e)"
    unfolding paid by (rule wrap_i256_id)
  have "(if x \<noteq> t then ?c else step_input z p t l) = ?c" by simp
  then have "compute_swap_step p t l r fee z =
      Some (\<lparr>sqrt_price_next_x96 = x, step_amount_in = ?c,
             step_amount_out = step_output z p x l, step_fee_amount = ?e\<rparr>, r - (uint ?c + uint ?e))"
    unfolding compute_swap_step_input [OF r0] Let_def x bind.bind_lunit
    by (simp only: rem)
  with e show ?thesis by blast
qed

text \<open>What a step promises, in either direction.\<close>

definition step_promise ::
  "u256 \<Rightarrow> u256 \<Rightarrow> u256 \<Rightarrow> i256 \<Rightarrow> u32 \<Rightarrow> bool \<Rightarrow> bool" where
  "step_promise p t l r fee z \<longleftrightarrow>
     (\<exists>step rem. compute_swap_step p t l r fee z = Some (step, rem) \<and>
        (if z then t \<le> sqrt_price_next_x96 step \<and> sqrt_price_next_x96 step \<le> p
         else p \<le> sqrt_price_next_x96 step \<and> sqrt_price_next_x96 step \<le> t) \<and>
        uint (step_amount_in step) + uint (step_fee_amount step) + rem = r \<and> 0 \<le> rem \<and>
        (sqrt_price_next_x96 step \<noteq> t \<longrightarrow> rem = 0) \<and>
        step_amount_in step = step_input z p (sqrt_price_next_x96 step) l \<and>
        step_amount_out step = step_output z p (sqrt_price_next_x96 step) l)"

lemma promiseI:
  assumes w: "input_words r fee"
    and x: "(if amount_in_after_fee r fee \<ge> step_input z p t l then Some t
             else get_next_sqrt_price_from_input p l (amount_in_after_fee r fee) z) = Some x"
    and between: "if z then t \<le> x \<and> x \<le> p else p \<le> x \<and> x \<le> t"
    and le: "unat (step_input z p x l) \<le> nat r * (1000000 - unat fee) div 1000000"
  shows "step_promise p t l r fee z"
proof -
  let ?c = "step_input z p x l"
  obtain e where e: "compute_swap_step p t l r fee z =
      Some (\<lparr>sqrt_price_next_x96 = x, step_amount_in = ?c,
             step_amount_out = step_output z p x l, step_fee_amount = e\<rparr>, r - (uint ?c + uint e))"
    "unat e = (if x = t then ceil_div (unat ?c * unat fee) (1000000 - unat fee) else nat r - unat ?c)"
    using step_settles [OF w x le] by blast
  have f: "unat fee < 1000000" and r: "0 < r" using w by (simp_all add: input_words_def)
  have fits: "unat ?c + ceil_div (unat ?c * unat fee) (1000000 - unat fee) \<le> nat r"
    using down.fee_fits [OF f le] .
  then have total: "unat ?c + unat e \<le> nat r" "x \<noteq> t \<Longrightarrow> unat ?c + unat e = nat r"
    using e(2) by (simp_all split: if_split_asm)
  have int: "uint ?c + uint e = int (unat ?c + unat e)" by simp
  have "uint ?c + uint e \<le> r"
    unfolding int using total(1) r by (simp only: le_nat_iff less_imp_le)
  moreover have "x \<noteq> t \<Longrightarrow> uint ?c + uint e = r"
    unfolding int using total(2) r by (metis int_nat_eq less_imp_le)
  ultimately show ?thesis
    unfolding step_promise_def e(1)
    by (intro exI [of _ "\<lparr>sqrt_price_next_x96 = x, step_amount_in = ?c,
             step_amount_out = step_output z p x l, step_fee_amount = e\<rparr>"]
         exI [of _ "r - (uint ?c + uint e)"]) (use between in auto)
qed

lemma step_down:
  assumes w: "input_words r fee" and l: "unat l < 2 ^ 128" and t: "t \<noteq> 0" "t \<le> p"
    and enough: "1000000 \<le> nat r * (1000000 - unat fee)"
  shows "step_promise p t l r fee True"
proof -
  let ?a = "amount_in_after_fee r fee" and ?an = "nat r * (1000000 - unat fee) div 1000000"
  have a: "unat ?a = ?an" by (rule unat_after_fee [OF w])
  have full: "unat (step_input True p t l) = amount0_nat (unat l) (unat p) (unat t)"
    unfolding step_input_def if_True by (rule amount0_up [OF l t(2,1)])
  show ?thesis
  proof (cases "step_input True p t l \<le> ?a")
    case True
    then show ?thesis
      using t(2) a by (intro promiseI [OF w, where x = t]) (simp_all add: word_le_nat_alt)
  next
    case False
    have an: "0 < ?an" using enough by (simp add: div_greater_zero_iff)
    then have a0: "?a \<noteq> 0" using a by auto
    have "?an \<le> nat r" using div_le_mono [of "nat r * (1000000 - unat fee)" "nat r * 1000000" 1000000] by simp
    then have ab: "unat ?a < 2 ^ 255" using a nat_remaining_bound [OF w] by linarith
    have p0: "p \<noteq> 0" using t by (metis word_le_0_iff)
    obtain x where x: "get_next_sqrt_price_from_input p l ?a True = Some x"
      "unat x = next0_nat (unat l) (unat p) (unat ?a)"
      using next_down [OF l a0 ab p0] by blast
    have far: "unat ?a < amount0_nat (unat l) (unat p) (unat t)"
      using False by (simp only: word_le_nat_alt full not_le)
    have tow: "down_toward (unat p) (unat t)"
      using t by (simp add: down_toward_def word_le_nat_alt)
    have "0 < unat ?a" using a0 by simp
    from down.partial [OF tow this far] have
      b: "unat x \<le> unat p" "unat t \<le> unat x" "0 < unat x"
      and c: "amount0_nat (unat l) (unat p) (unat x) \<le> unat ?a"
      by (simp_all only: x(2) [symmetric] down_toward_def)
    have xp: "x \<le> p" "t \<le> x" "x \<noteq> 0" using b by (simp_all add: word_le_nat_alt)
    have "unat (step_input True p x l) \<le> ?an"
      using c unfolding step_input_def if_True amount0_up [OF l xp(1,3)] a .
    then show ?thesis
      using xp x(1) False by (intro promiseI [OF w, where x = x]) simp_all
  qed
qed

lemma step_up:
  assumes w: "input_words r fee" and l: "unat l < 2 ^ 128" and t: "unat t < 2 ^ 160" "p \<le> t"
    and enough: "1000000 \<le> nat r * (1000000 - unat fee)"
  shows "step_promise p t l r fee False"
proof -
  let ?a = "amount_in_after_fee r fee" and ?an = "nat r * (1000000 - unat fee) div 1000000"
  have a: "unat ?a = ?an" by (rule unat_after_fee [OF w])
  have full: "unat (step_input False p t l) = amount1_nat (unat l) (unat p) (unat t)"
    unfolding step_input_def if_False by (rule amount1_up [OF l t])
  show ?thesis
  proof (cases "step_input False p t l \<le> ?a")
    case True
    then show ?thesis
      using t(2) a by (intro promiseI [OF w, where x = t]) (simp_all add: word_le_nat_alt)
  next
    case False
    have an: "0 < ?an" using enough by (simp add: div_greater_zero_iff)
    have far: "unat ?a < amount1_nat (unat l) (unat p) (unat t)"
      using False by (simp only: word_le_nat_alt full not_le)
    have l0: "l \<noteq> 0" using far by (auto simp: amount1_nat_def)
    have tow: "up_toward (unat p) (unat t)"
      using t by (simp add: up_toward_def word_le_nat_alt)
    have "0 < unat ?a" using an a by simp
    note part = up.partial [OF tow this far]
    then have "next1_nat (unat l) (unat p) (unat ?a) < 2 ^ 256"
      using unat_u256 [of t] by (simp only: up_toward_def) linarith
    from next_up [OF l0 this] obtain x where
      x: "get_next_sqrt_price_from_input p l ?a False = Some x"
      "unat x = next1_nat (unat l) (unat p) (unat ?a)" by blast
    have b: "unat p \<le> unat x" "unat x \<le> unat t"
      and c: "amount1_nat (unat l) (unat p) (unat x) \<le> unat ?a"
      using part by (simp_all only: x(2) [symmetric] up_toward_def)
    have xp: "p \<le> x" "x \<le> t" "unat x < 2 ^ 160" using b t(1) by (simp_all add: word_le_nat_alt)
    have "unat (step_input False p x l) \<le> ?an"
      using c unfolding step_input_def if_False amount1_up [OF l xp(3,1)] a .
    then show ?thesis
      using xp x(1) False by (intro promiseI [OF w, where x = x]) simp_all
  qed
qed

lemma step_any:
  assumes "0 < r" "in_i256 r" "unat fee < 1000000" "1000000 \<le> nat r * (1000000 - unat fee)"
    and "unat l < 2 ^ 128" "unat p < 2 ^ 160" "unat t < 2 ^ 160"
    and "if z then t \<noteq> 0 \<and> t \<le> p else p \<le> t"
  shows "step_promise p t l r fee z"
  using step_down [of r fee l t p] step_up [of r fee l t p] assms
  by (cases z) (simp_all add: input_words_def)

lemma output_value_down:
  assumes l: "unat l < 2 ^ 128" and p: "unat p < 2 ^ 160" and x: "x \<noteq> 0" "x \<le> p"
  shows "unat (step_output True p x l) * 2 ^ 192 \<le> unat (step_input True p x l) * unat x * unat p"
proof -
  have xp: "0 < unat x" "unat x \<le> unat p" using x by (simp_all add: word_le_nat_alt)
  have "unat (step_output True p x l) * 2 ^ 96 \<le> unat l * (unat p - unat x)"
    unfolding step_output_def if_True amount1_down [OF l p x(2)] by (rule div_times_less_eq_dividend)
  then have "unat (step_output True p x l) * 2 ^ 96 * 2 ^ 96 \<le> unat l * (unat p - unat x) * 2 ^ 96"
    by (rule mult_le_mono1)
  also have "\<dots> = unat l * 2 ^ 96 * (unat p - unat x)" by (simp only: ac_simps)
  also have "\<dots> \<le> unat (step_input True p x l) * unat x * unat p"
    unfolding step_input_def if_True amount0_up [OF l x(2,1)]
    using amount0_le_iff [OF xp, of "unat l"] by blast
  finally show ?thesis by simp
qed

lemma output_value_up:
  assumes l: "unat l < 2 ^ 128" and x: "unat x < 2 ^ 160" "p \<le> x" "p \<noteq> 0"
  shows "unat (step_output False p x l) * unat x * unat p \<le> unat (step_input False p x l) * 2 ^ 192"
proof -
  let ?o = "unat (step_output False p x l)" and ?i = "unat (step_input False p x l)"
  have "?o * unat p \<le> unat l * 2 ^ 96 * (unat x - unat p) div unat x"
    unfolding step_output_def if_False amount0_down [OF l x(2,3)] by (rule div_times_less_eq_dividend)
  then have "?o * unat p * unat x \<le> unat l * 2 ^ 96 * (unat x - unat p) div unat x * unat x"
    by (rule mult_le_mono1)
  also have "\<dots> \<le> unat l * 2 ^ 96 * (unat x - unat p)" by (rule div_times_less_eq_dividend)
  also have "\<dots> = unat l * (unat x - unat p) * 2 ^ 96" by (simp only: ac_simps)
  also have "\<dots> \<le> ?i * 2 ^ 96 * 2 ^ 96"
    unfolding step_input_def if_False amount1_up [OF l x(1,2)] amount1_nat_def
    by (intro mult_le_mono1 ceil_div_upper) simp
  finally show ?thesis by (simp add: ac_simps)
qed

section \<open>Properties\<close>

text \<open>C13 An exact-input step that is not dust returns: for a positive input of which at least one unit is
  left after the fee, a fee below 100 per cent, a target on the right side and contract-range liquidity
  and prices, the step does not panic, never moves the price past its target, and accounts for the input
  exactly: amount in, fee and remainder add up to the input, the remainder is not negative, and it is
  zero unless the target was reached. For a smaller input the division of the next price can be by zero.\<close>

theorem compute_swap_step_exact_input:
  assumes "0 < r" and "in_i256 r" and "unat fee < 1000000"
    and "1000000 \<le> nat r * (1000000 - unat fee)"
    and "unat l < 2 ^ 128" and "unat p < 2 ^ 160" and "unat t < 2 ^ 160"
    and "if z then t \<noteq> 0 \<and> t \<le> p else p \<le> t"
  shows "\<exists>step rem. compute_swap_step p t l r fee z = Some (step, rem) \<and>
    (if z then t \<le> sqrt_price_next_x96 step \<and> sqrt_price_next_x96 step \<le> p
     else p \<le> sqrt_price_next_x96 step \<and> sqrt_price_next_x96 step \<le> t) \<and>
    uint (step_amount_in step) + uint (step_fee_amount step) + rem = r \<and> 0 \<le> rem \<and>
    (sqrt_price_next_x96 step = t \<or> rem = 0)"
  using step_any [OF assms] unfolding step_promise_def by blast

theorem compute_swap_step_exact_input_witness:
  "\<exists>step rem. compute_swap_step q96 (q96 - 1000) (10 ^ 18) 1000000 3000 True = Some (step, rem) \<and>
     uint (step_amount_in step) + uint (step_fee_amount step) + rem = 1000000"
  using compute_swap_step_exact_input [of 1000000 3000 "10 ^ 18" q96 "q96 - 1000" True]
  by (auto simp: q96_def in_i256_def word_le_nat_alt)

text \<open>C22 The output of an exact-input step never beats the geometric mean of its two prices:
  no rounding of the four delta computations favours the trader. The input is positive and not dust, so at
  least one unit of it is left after the fee; the fee is below 100 per cent, the start price is not zero, the
  target is on the right side, and liquidity and prices are in the range of the contract.\<close>

theorem compute_swap_step_no_free_output:
  assumes "0 < r" and "in_i256 r" and "unat fee < 1000000"
    and "1000000 \<le> nat r * (1000000 - unat fee)"
    and "unat l < 2 ^ 128" and "unat p < 2 ^ 160" and "unat t < 2 ^ 160"
    and "p \<noteq> 0" and "if z then t \<noteq> 0 \<and> t \<le> p else p \<le> t"
    and "compute_swap_step p t l r fee z = Some (step, rem)"
  shows "if z
    then unat (step_amount_out step) * 2 ^ 192
           \<le> unat (step_amount_in step) * unat (sqrt_price_next_x96 step) * unat p
    else unat (step_amount_out step) * unat (sqrt_price_next_x96 step) * unat p
           \<le> unat (step_amount_in step) * 2 ^ 192"
proof -
  let ?x = "sqrt_price_next_x96 step"
  have "step_promise p t l r fee z" using assms(1-7,9) by (intro step_any)
  then have io: "step_amount_in step = step_input z p ?x l" "step_amount_out step = step_output z p ?x l"
    and between: "if z then t \<le> ?x \<and> ?x \<le> p else p \<le> ?x \<and> ?x \<le> t"
    using assms(10) by (auto simp: step_promise_def)
  show ?thesis
  proof (cases z)
    case True
    then have "?x \<noteq> 0" "?x \<le> p" using between assms(9) word_le_0_iff by auto
    with output_value_down [OF assms(5,6)] io True show ?thesis by simp
  next
    case False
    then have "p \<le> ?x" "unat ?x < 2 ^ 160"
      using between assms(7) by (auto simp: word_le_nat_alt intro: le_less_trans)
    with output_value_up [OF assms(5)] io assms(8) False show ?thesis by simp
  qed
qed

theorem compute_swap_step_no_free_output_witness:
  "\<exists>step rem. compute_swap_step q96 (q96 - 1000) (10 ^ 18) 1000000 3000 True = Some (step, rem) \<and>
     unat (step_amount_out step) * 2 ^ 192
       \<le> unat (step_amount_in step) * unat (sqrt_price_next_x96 step) * unat q96"
proof -
  have "step_promise q96 (q96 - 1000) (10 ^ 18) 1000000 3000 True"
    by (rule step_any) (simp_all add: q96_def in_i256_def word_le_nat_alt)
  then obtain step rem where
    s: "compute_swap_step q96 (q96 - 1000) (10 ^ 18) 1000000 3000 True = Some (step, rem)"
    unfolding step_promise_def by blast
  have "unat (step_amount_out step) * 2 ^ 192
       \<le> unat (step_amount_in step) * unat (sqrt_price_next_x96 step) * unat q96"
    using compute_swap_step_no_free_output [OF _ _ _ _ _ _ _ _ _ s]
    by (simp add: q96_def in_i256_def word_le_nat_alt)
  with s show ?thesis by blast
qed

text \<open>C40 Dust panics: selling token 0 with an input whose after-fee part rounds to zero divides
  by that zero, unless the way to the target takes no input, as when the price is already there.\<close>

theorem compute_swap_step_dust_panics:
  assumes "0 < r" and "in_i256 r" and "unat fee < 1000000"
    and "nat r * (1000000 - unat fee) < 1000000"
    and "get_amount0_delta t p l True \<noteq> 0"
  shows "compute_swap_step p t l r fee True = None"
proof -
  have w: "input_words r fee" using assms by (simp add: input_words_def)
  have "unat (amount_in_after_fee r fee) = 0"
    using unat_after_fee [OF w] assms(4) by simp
  then have "amount_in_after_fee r fee = 0" by (simp only: unat_0_iff)
  then show ?thesis
    using assms(5) by (simp add: compute_swap_step_input [OF assms(1)] Let_def step_input_def
        get_next_sqrt_price_from_input_def u_div_def)
qed

theorem compute_swap_step_dust_panics_witness:
  "compute_swap_step q96 (push_bit 95 1) (10 ^ 18) 1 3000 True = None"
  using compute_swap_step_dust_panics [of 1 3000 "push_bit 95 1" q96 "10 ^ 18"]
  by (simp add: q96_def in_i256_def get_amount0_delta_def ordered_def mul_div_round_up_def
      u512_to_u256_safe_def)

end
