(* ===== verification/Tick_Table.thy ===== *)
theory Tick_Table
  imports Complex_Main V3_Ticks
begin

text \<open>
  The tick table is strictly increasing, and the binary search over it is total and exact.
  The ratio of a tick is a product of at most twenty factors, each step truncated; the exact
  product is monotone with a relative gap of about \<open>5/100000\<close> per tick, far more than the
  truncations and the final shift can lose. The search is proved in the locale
  \<open>strict_table\<close>, whose only assumption is that gap; its interpretation on
  \<open>get_sqrt_ratio_at_tick\<close> discharges it.
\<close>

section \<open>Products of bit-selected factors\<close>

fun bprod :: "real list \<Rightarrow> nat \<Rightarrow> real" where
  "bprod [] a = 1"
| "bprod (c # cs) a = (if odd a then c else 1) * bprod cs (a div 2)"

fun trunc_prod :: "nat list \<Rightarrow> nat \<Rightarrow> nat \<Rightarrow> nat" where
  "trunc_prod [] a r = r"
| "trunc_prod (c # cs) a r = trunc_prod cs (a div 2) (if odd a then r * c div 2 ^ 128 else r)"

text \<open>The two numeric conditions on a factor list are checked on naturals scaled by
  \<open>2 ^ 128\<close>, rounding down. \<open>gap_ok p cs\<close>: adding one to the index multiplies the
  product by at most \<open>p / 2 ^ 128\<close>. \<open>floor_prod p cs\<close>: a lower bound of \<open>p\<close> times the
  product of all factors.\<close>

fun gap_ok :: "nat \<Rightarrow> nat list \<Rightarrow> bool" where
  "gap_ok p [] = True"
| "gap_ok p (c # cs) = (c \<le> p \<and> gap_ok (p * c div 2 ^ 128) cs)"

fun floor_prod :: "nat \<Rightarrow> nat list \<Rightarrow> nat" where
  "floor_prod p [] = p"
| "floor_prod p (c # cs) = floor_prod (p * c div 2 ^ 128) cs"

abbreviation scaled :: "nat list \<Rightarrow> real list" where
  "scaled cs \<equiv> map (\<lambda>c. real c / 2 ^ 128) cs"

lemma bprod_pos: "\<forall>c \<in> set cs. 0 < c \<Longrightarrow> 0 < bprod cs a"
  by (induction cs a rule: bprod.induct) auto

lemma bprod_le_1: "\<forall>c \<in> set cs. 0 < c \<and> c \<le> 1 \<Longrightarrow> bprod cs a \<le> 1"
proof (induction cs a rule: bprod.induct)
  case (2 c cs a)
  then have "(if odd a then c else 1) * bprod cs (a div 2) \<le> 1 * 1"
    by (intro mult_mono) (auto intro: less_imp_le bprod_pos)
  then show ?case by simp
qed simp

lemma real_div_le: "real (n div d) \<le> real n / real d"
  by (simp add: of_nat_div_le_of_nat)

lemma real_div_ge: "real n / real d - 1 \<le> real (n div d)"
  using floor_correct [of "real n / real d"]
  by (simp only: floor_divide_of_nat_eq of_int_of_nat_eq) linarith

lemma floor_prod_le:
  "\<forall>c \<in> set cs. 0 < c \<and> c \<le> 2 ^ 128 \<Longrightarrow>
    real (floor_prod p cs) \<le> real p * bprod (scaled cs) a"
proof (induction p cs arbitrary: a rule: floor_prod.induct)
  case (2 p c cs)
  let ?B = "bprod (scaled cs) (a div 2)"
  have B: "0 < ?B"
    using 2(2) by (intro bprod_pos) auto
  have c1: "real c / 2 ^ 128 \<le> 1"
    using 2(2) by simp
  have "real (floor_prod p (c # cs)) \<le> real (p * c div 2 ^ 128) * ?B"
    using 2 by (simp only: floor_prod.simps) simp
  also have "\<dots> \<le> (real p * (real c / 2 ^ 128)) * ?B"
    using real_div_le [of "p * c" "2 ^ 128"] B by (intro mult_right_mono) simp_all
  also have "\<dots> \<le> (real p * (if odd a then real c / 2 ^ 128 else 1)) * ?B"
    using B c1 by (intro mult_right_mono mult_left_mono) simp_all
  finally show ?case by (simp only: bprod.simps list.map mult.assoc)
qed simp

lemma bprod_gap:
  "gap_ok p cs \<Longrightarrow> \<forall>c \<in> set cs. 0 < c \<Longrightarrow> Suc a < 2 ^ length cs \<Longrightarrow>
    bprod (scaled cs) (Suc a) \<le> real p / 2 ^ 128 * bprod (scaled cs) a"
proof (induction p cs arbitrary: a rule: gap_ok.induct)
  case (2 p c cs)
  let ?B = "bprod (scaled cs) (a div 2)"
  have pos: "0 < ?B"
    using "2.prems" by (intro bprod_pos) simp
  show ?case
  proof (cases "odd a")
    case True
    then obtain k where k: "a = 2 * k + 1" by (rule oddE)
    with "2.prems"(3) have "Suc k < 2 ^ length cs" by simp
    then have "bprod (scaled cs) (Suc k) \<le> real (p * c div 2 ^ 128) / 2 ^ 128 * bprod (scaled cs) k"
      using 2 by simp
    also have "\<dots> \<le> (real p * real c / 2 ^ 128) / 2 ^ 128 * bprod (scaled cs) k"
      using real_div_le [of "p * c" "2 ^ 128"] pos k
      by (intro mult_right_mono divide_right_mono) simp_all
    finally show ?thesis by (simp add: k mult_ac)
  next
    case False
    then have "Suc a div 2 = a div 2" by auto
    with False 2(2) pos show ?thesis by (simp add: divide_right_mono)
  qed
qed simp

lemma trunc_prod_bounds:
  "\<forall>c \<in> set cs. 0 < c \<and> c \<le> 2 ^ 128 \<Longrightarrow>
    real (trunc_prod cs a r) \<le> bprod (scaled cs) a * real r \<and>
    bprod (scaled cs) a * real r - real (length cs) \<le> real (trunc_prod cs a r)"
proof (induction cs a r rule: trunc_prod.induct)
  case (2 c cs a r)
  let ?r = "if odd a then r * c div 2 ^ 128 else r"
  let ?s = "(if odd a then real c / 2 ^ 128 else 1) * real r"
  let ?B = "bprod (scaled cs) (a div 2)"
  have fit: "\<forall>x \<in> set (scaled cs). 0 < x \<and> x \<le> 1"
    using 2(2) by auto
  have IH: "real (trunc_prod cs (a div 2) ?r) \<le> ?B * real ?r"
    "?B * real ?r - real (length cs) \<le> real (trunc_prod cs (a div 2) ?r)"
    using 2 by auto
  have up: "real ?r \<le> ?s" and lo: "?s - 1 \<le> real ?r"
    using real_div_le [of "r * c" "2 ^ 128"] real_div_ge [of "r * c" "2 ^ 128"]
    by (simp_all add: mult.commute)
  have b0: "0 < ?B" and b1: "?B \<le> 1"
    using bprod_pos [of "scaled cs"] bprod_le_1 [of "scaled cs"] fit by blast+
  have "?B * real ?r \<le> ?B * ?s"
    using up b0 by (intro mult_left_mono) simp_all
  moreover have "?B * (?s - 1) \<le> ?B * real ?r"
    using lo b0 by (intro mult_left_mono) simp_all
  then have "?B * ?s - 1 \<le> ?B * real ?r"
    using b1 by (simp only: right_diff_distrib)
  moreover have "bprod (scaled (c # cs)) a * real r = ?B * ?s"
    by (simp only: bprod.simps list.map mult_ac)
  moreover have "trunc_prod (c # cs) a r = trunc_prod cs (a div 2) ?r"
    by (simp only: trunc_prod.simps)
  moreover have "real (length (c # cs)) = 1 + real (length cs)"
    by simp
  ultimately show ?case
    using IH by linarith
qed simp

section \<open>The factors of the source\<close>

definition ratio_factors_nat :: "nat list" where
  "ratio_factors_nat =
     0xfffcb933bd6fad37aa2d162d1a594001 # map (unat \<circ> snd) ratio_factors"

lemma factors_eval: "ratio_factors_nat =
  [0xfffcb933bd6fad37aa2d162d1a594001, 0xfff97272373d413259a46990580e213a,
   0xfff2e50f5f656932ef12357cf3c7fdcc, 0xffe5caca7e10e4e61c3624eaa0941cd0,
   0xffcb9843d60f6159c9db58835c926644, 0xff973b41fa98c081472e6896dfb254c0,
   0xff2ea16466c96a3843ec78b326b52861, 0xfe5dee046a99a2a811c461f1969c3053,
   0xfcbe86c7900a88aedcffc83b479aa3a4, 0xf987a7253ac413176f2b074cf7815e54,
   0xf3392b0822b70005940c7a398e4b70f3, 0xe7159475a2c29b7443b29c7fa6e889d9,
   0xd097f3bdfd2022b8845ad8f792aa5825, 0xa9f746462d870fdf8a65dc1f90e061e5,
   0x70d869a156d2a1b890bb3df62baf32f7, 0x31be135f97d08fd981231505542fcfa6,
   0x9aa508b5b7a84e1c677de54f3e99bc9, 0x5d6af8dedb81196699c329225ee604,
   0x2216e584f5fa1ea926041bedfe98, 0x48a170391f7dc42444e8fa2]"
  by (simp add: ratio_factors_nat_def ratio_factors_def)

lemma length_factors: "length ratio_factors_nat = 20"
  by (simp add: factors_eval)

lemma factors_range: "\<forall>c \<in> set ratio_factors_nat. 0 < c \<and> c \<le> 2 ^ 128"
  by (simp add: factors_eval)

text \<open>One tick multiplies the exact product by at most \<open>99996/100000\<close>; the product of all
  factors is at least \<open>2 ^ (-76)\<close>.\<close>

lemma factors_gap: "gap_ok (2 ^ 128 * 99996 div 100000) ratio_factors_nat"
  by (simp add: factors_eval)

lemma factors_prod: "2 ^ 52 \<le> floor_prod (2 ^ 128) ratio_factors_nat"
  by (simp add: factors_eval)

section \<open>The ratio of the source is the truncated product\<close>

fun masks_from :: "nat \<Rightarrow> (u32 \<times> u128) list \<Rightarrow> bool" where
  "masks_from k [] = True"
| "masks_from k (mf # mfs) = (k < 32 \<and> fst mf = 2 ^ k \<and> masks_from (Suc k) mfs)"

lemma masks_of_source: "masks_from 1 ratio_factors"
  by (simp add: ratio_factors_def)

lemma and_mask_iff: "k < 32 \<Longrightarrow> (w :: u32) AND 2 ^ k \<noteq> 0 \<longleftrightarrow> odd (unat w div 2 ^ k)"
  by (simp add: and_exp_eq_0_iff_not_bit bit_unsigned_iff flip: bit_iff_odd)

lemma foldl_ratio_step:
  "masks_from k mfs \<Longrightarrow> unat (foldl (ratio_step w) r mfs) =
     trunc_prod (map (unat \<circ> snd) mfs) (unat w div 2 ^ k) (unat r)"
proof (induction k mfs arbitrary: r rule: masks_from.induct)
  case (2 k mf mfs)
  have step: "unat (ratio_step w r mf) =
      (if odd (unat w div 2 ^ k) then unat r * unat (snd mf) div 2 ^ 128 else unat r)"
    using 2(2) and_mask_iff [of k w] unat_mul_shift_128 [of r "snd mf"]
    by (simp only: ratio_step_def masks_from.simps) presburger
  have "unat w div 2 ^ Suc k = unat w div 2 ^ k div 2"
    by (simp only: power_Suc2 div_mult2_eq)
  then show ?case
    using 2(1) [of "ratio_step w r mf"] 2(2)
    by (simp only: step foldl.simps list.map trunc_prod.simps comp_apply masks_from.simps)
qed simp

definition ratio_nat :: "nat \<Rightarrow> nat" where
  "ratio_nat a = trunc_prod ratio_factors_nat a (2 ^ 128)"

lemma unat_tick_ratio: "unat (tick_ratio w) = ratio_nat (unat w)"
proof -
  let ?r = "if w AND 1 \<noteq> 0 then u256_from_limbs 0xaa2d162d1a594001 0xfffcb933bd6fad37 0 0 else q128"
  have r: "unat ?r = (if odd (unat w) then 2 ^ 128 * 0xfffcb933bd6fad37aa2d162d1a594001 div 2 ^ 128 else 2 ^ 128)"
    using and_mask_iff [of 0 w] by (simp add: u256_from_limbs_def q128_def)
  have "unat (tick_ratio w) = trunc_prod (map (unat \<circ> snd) ratio_factors) (unat w div 2 ^ 1) (unat ?r)"
    unfolding tick_ratio_def by (rule foldl_ratio_step [OF masks_of_source])
  then show ?thesis
    by (simp only: r ratio_nat_def ratio_factors_nat_def trunc_prod.simps power_one_right)
qed

section \<open>Bounds and gaps\<close>

definition exact_ratio :: "nat \<Rightarrow> real" where
  "exact_ratio a = 2 ^ 128 * bprod (scaled ratio_factors_nat) a"

lemma ratio_nat_bounds:
  "real (ratio_nat a) \<le> exact_ratio a" "exact_ratio a - 20 \<le> real (ratio_nat a)"
  using trunc_prod_bounds [OF factors_range, of a "2 ^ 128"]
  by (simp_all add: ratio_nat_def exact_ratio_def length_factors mult.commute
      del: list.map)

lemma exact_ratio_lower: "2 ^ 52 \<le> exact_ratio a"
proof -
  have "2 ^ 52 \<le> real (floor_prod (2 ^ 128) ratio_factors_nat)"
    using factors_prod by (simp del: floor_prod.simps)
  also have "\<dots> \<le> exact_ratio a"
    using floor_prod_le [OF factors_range, of "2 ^ 128" a] by (simp add: exact_ratio_def)
  finally show ?thesis .
qed

lemma exact_ratio_gap:
  assumes "Suc a < 2 ^ 20"
  shows "exact_ratio (Suc a) \<le> 99996 / 100000 * exact_ratio a"
proof -
  let ?p = "2 ^ 128 * 99996 div 100000 :: nat"
  have pos: "0 < bprod (scaled ratio_factors_nat) a"
    using exact_ratio_lower [of a] by (simp add: exact_ratio_def)
  have "real ?p / 2 ^ 128 \<le> 99996 / 100000"
    by simp
  then have "real ?p / 2 ^ 128 * bprod (scaled ratio_factors_nat) a
      \<le> 99996 / 100000 * bprod (scaled ratio_factors_nat) a"
    using pos by (rule mult_right_mono [OF _ less_imp_le])
  moreover have "bprod (scaled ratio_factors_nat) (Suc a)
      \<le> real ?p / 2 ^ 128 * bprod (scaled ratio_factors_nat) a"
    using factors_range assms by (intro bprod_gap [OF factors_gap]) (auto simp: length_factors)
  ultimately have "bprod (scaled ratio_factors_nat) (Suc a)
      \<le> 99996 / 100000 * bprod (scaled ratio_factors_nat) a"
    by linarith
  then show ?thesis by (simp add: exact_ratio_def)
qed

lemma ratio_nat_gap:
  assumes "Suc a < 2 ^ 20"
  shows "ratio_nat (Suc a) + 2 ^ 34 \<le> ratio_nat a"
proof -
  have "real (ratio_nat (Suc a)) + 2 ^ 34 \<le> real (ratio_nat a)"
    using ratio_nat_bounds [of a] ratio_nat_bounds(1) [of "Suc a"]
      exact_ratio_gap [OF assms] exact_ratio_lower [of a]
    by simp
  then show ?thesis
    by (simp flip: of_nat_le_iff)
qed

lemma ratio_nat_pos: "0 < ratio_nat a"
  using ratio_nat_bounds(2) [of a] exact_ratio_lower [of a] by simp

lemma ratio_nat_0: "ratio_nat 0 = 2 ^ 128"
  by (simp add: ratio_nat_def factors_eval)

lemma ratio_nat_le: "ratio_nat a \<le> 2 ^ 128"
proof -
  have "bprod (scaled ratio_factors_nat) a \<le> 1"
    using factors_range by (intro bprod_le_1) simp
  then have "exact_ratio a \<le> 2 ^ 128"
    by (simp add: exact_ratio_def)
  then have "real (ratio_nat a) \<le> real (2 ^ 128)"
    using ratio_nat_bounds(1) [of a] by simp
  then show ?thesis by (simp only: of_nat_le_iff)
qed

lemma tick_ratio_nonzero: "tick_ratio w \<noteq> 0"
  using ratio_nat_pos [of "unat w"] by (metis unat_0 unat_tick_ratio less_irrefl)

text \<open>The reciprocals grow by at least half of what the ratios fall.\<close>

lemma reciprocal_gap:
  fixes r r' :: nat
  assumes "r' + 2 ^ 34 \<le> r" and "0 < r'" and "r \<le> 2 ^ 128"
  shows "(2 ^ 256 - 1) div r + 2 ^ 33 \<le> (2 ^ 256 - 1) div r'"
proof -
  let ?M = "2 ^ 256 - 1 :: nat"
  let ?q = "?M div r"
  have r: "0 < r" using assms by simp
  have "(2 ^ 128 - 1) * r \<le> (2 ^ 128 - 1) * 2 ^ 128"
    using assms(3) by (rule mult_le_mono2)
  also have "\<dots> \<le> ?M" by simp
  finally have "2 ^ 128 - 1 \<le> ?q"
    using r by (simp add: less_eq_div_iff_mult_less_eq)
  moreover have "(2 ^ 128 :: nat) \<le> 2 * (2 ^ 128 - 1)" by simp
  ultimately have rq: "r \<le> 2 * ?q" using assms(3) by linarith
  obtain k where k: "r = r' + 2 ^ 34 + k"
    using assms(1) le_Suc_ex by blast
  have "(?q + 2 ^ 33) * r' \<le> ?q * r"
  proof -
    have "2 ^ 33 * r' \<le> 2 ^ 33 * (2 * ?q)"
      using rq k by (intro mult_le_mono2) linarith
    then have "2 ^ 33 * r' \<le> ?q * 2 ^ 34" by simp
    then show ?thesis
      unfolding distrib_right k distrib_left by (simp add: trans_le_add1)
  qed
  also have "\<dots> \<le> ?M" by (simp only: div_times_less_eq_dividend)
  finally show ?thesis
    using assms(2) by (simp only: less_eq_div_iff_mult_less_eq)
qed

section \<open>The ratio of a tick on the naturals\<close>

definition tick_in_range :: "i32 \<Rightarrow> bool" where
  "tick_in_range t \<longleftrightarrow> MIN_TICK \<le> t \<and> t \<le> MAX_TICK"

definition ratio_128 :: "int \<Rightarrow> nat" where
  "ratio_128 t = (if 0 < t then (2 ^ 256 - 1) div ratio_nat (nat t) else ratio_nat (nat (- t)))"

lemma ratio_128_step:
  assumes "MIN_TICK \<le> t" and "t < MAX_TICK"
  shows "ratio_128 t + 2 ^ 32 \<le> ratio_128 (t + 1)"
proof -
  consider (neg) "t < 0" | (zero) "t = 0" | (pos) "0 < t" by linarith
  then show ?thesis
  proof cases
    case neg
    define n where "n = nat (- (t + 1))"
    have n: "ratio_128 t = ratio_nat (Suc n)" "ratio_128 (t + 1) = ratio_nat n"
      using neg by (simp_all add: ratio_128_def n_def Suc_nat_eq_nat_zadd1)
    have "Suc n < 2 ^ 20"
      using assms(1) by (simp add: MIN_TICK_def n_def)
    from ratio_nat_gap [OF this] show ?thesis
      by (simp add: n)
  next
    case zero
    have "ratio_nat 1 + 2 ^ 34 \<le> ratio_nat 0"
      using ratio_nat_gap [of 0] by simp
    from reciprocal_gap [OF this ratio_nat_pos ratio_nat_le] zero show ?thesis
      by (simp add: ratio_128_def ratio_nat_0)
  next
    case pos
    then have s: "nat (t + 1) = Suc (nat t)" by simp
    have "Suc (nat t) < 2 ^ 20"
      using assms(2) pos by (simp add: MAX_TICK_def)
    from reciprocal_gap [OF ratio_nat_gap [OF this] ratio_nat_pos ratio_nat_le] pos show ?thesis
      by (simp add: ratio_128_def s)
  qed
qed

lemma ratio_128_bound: "ratio_128 t < 2 ^ 256"
proof -
  have "(2 ^ 256 - 1) div ratio_nat (nat t) < 2 ^ 256"
    by (rule le_less_trans [OF div_le_dividend]) simp
  moreover have "ratio_nat (nat (- t)) < 2 ^ 256"
    by (rule le_less_trans [OF ratio_nat_le]) simp
  ultimately show ?thesis
    by (simp only: ratio_128_def split: if_split) simp
qed

lemma ceil_div_shift: "0 < d \<Longrightarrow> ceil_div n d = n div d + (if n mod d \<noteq> 0 then 1 else 0)"
proof -
  assume d: "0 < d"
  show ?thesis
  proof (cases "n mod d = 0")
    case True
    then obtain k where k: "n = d * k" by auto
    have "d * k + d - 1 = d * k + (d - 1)" using d by simp
    then have "ceil_div n d = (d * k + (d - 1)) div d" by (simp only: ceil_div_def k)
    also have "\<dots> = k" using d by (subst div_mult_self4) simp_all
    finally show ?thesis using d k by simp
  next
    case False
    have "n + d - 1 = d * (n div d + 1) + (n mod d - 1)"
      using False mult_div_mod_eq [of d n] by (simp only: distrib_left mult_1_right)
    moreover have "n mod d - 1 < d"
      using d by (meson diff_le_self le_less_trans mod_less_divisor)
    ultimately have "(n + d - 1) div d = n div d + 1"
      using d by (simp only: div_mult_self4) simp
    with False show ?thesis by (simp add: ceil_div_def)
  qed
qed

lemma low_bits_iff: "(r :: u256) AND 0xFFFFFFFF \<noteq> 0 \<longleftrightarrow> unat r mod 2 ^ 32 \<noteq> 0"
proof -
  have "r AND 0xFFFFFFFF = take_bit 32 r"
    by (simp add: take_bit_eq_mask mask_eq_exp_minus_1)
  moreover have "unat (take_bit 32 r) = unat r mod 2 ^ 32"
    unfolding unsigned_take_bit_eq by (rule take_bit_eq_mod)
  ultimately show ?thesis
    by (metis unat_0 unat_0_iff)
qed

lemma unat_round_32:
  "unat (drop_bit 32 r + (if r AND 0xFFFFFFFF \<noteq> 0 then 1 else 0 :: u256)) = ceil_div (unat r) (2 ^ 32)"
proof -
  have sh: "unat (drop_bit 32 r) = unat r div 2 ^ 32" by (rule unat_drop_bit_div)
  have "unat r div 2 ^ 32 < 2 ^ 224"
    using unat_u256 [of r] by (intro less_mult_imp_div_less) simp
  then have "unat (drop_bit 32 r + 1) = unat r div 2 ^ 32 + 1"
    using sh by (subst unat_add_nowrap) simp_all
  then show ?thesis
    using sh ceil_div_shift [of "2 ^ 32" "unat r"] by (simp only: low_bits_iff) simp
qed

lemma unat_abs_tick: "tick_in_range t \<Longrightarrow> unat (word_of_int \<bar>t\<bar> :: u32) = nat \<bar>t\<bar>"
  by (subst unsigned_of_int, subst take_bit_int_eq_self)
    (auto simp: tick_in_range_def MIN_TICK_def MAX_TICK_def)

lemma unat_sqrt_ratio:
  assumes "tick_in_range t"
  shows "unat (get_sqrt_ratio_at_tick t) = ceil_div (ratio_128 t) (2 ^ 32)"
proof -
  let ?a = "word_of_int \<bar>t\<bar> :: u32"
  let ?r = "if t > 0 then u256_max div tick_ratio ?a else tick_ratio ?a"
  have "nat \<bar>t\<bar> \<le> 887272"
    using assms by (auto simp: tick_in_range_def MIN_TICK_def MAX_TICK_def)
  then have "\<not> word_of_int MAX_TICK < ?a"
    using unat_abs_tick [OF assms] by (simp add: MAX_TICK_def word_less_nat_alt)
  then have "get_sqrt_ratio_at_tick t =
      drop_bit 32 ?r + (if ?r AND 0xFFFFFFFF \<noteq> 0 then 1 else 0)"
    by (simp only: get_sqrt_ratio_lut_eq get_sqrt_ratio_at_tick_uncached_def Let_def if_False)
  moreover have "unat ?r = ratio_128 t"
    using unat_abs_tick [OF assms] unat_u256_max
    by (cases "0 < t") (simp_all add: ratio_128_def unat_tick_ratio unat_div)
  ultimately show ?thesis
    by (simp only: unat_round_32)
qed

lemma sqrt_ratio_step:
  assumes "MIN_TICK \<le> t" and "t < MAX_TICK"
  shows "get_sqrt_ratio_at_tick t < get_sqrt_ratio_at_tick (t + 1)"
proof -
  have "ceil_div (ratio_128 t) (2 ^ 32) < ceil_div (ratio_128 t + 2 ^ 32) (2 ^ 32)"
    by (simp add: ceil_div_shift)
  also have "\<dots> \<le> ceil_div (ratio_128 (t + 1)) (2 ^ 32)"
    unfolding ceil_div_def by (intro div_le_mono diff_le_mono add_le_mono1 ratio_128_step assms)
  finally show ?thesis
    using assms by (simp add: word_less_nat_alt unat_sqrt_ratio tick_in_range_def)
qed

section \<open>Searching a strictly increasing table\<close>

text \<open>The interface the tick search relies on: a table of prices that increases at every
  index of its range.\<close>

locale strict_table =
  fixes ratio :: "int \<Rightarrow> u256" and lo hi :: int
  assumes rising: "lo \<le> t \<Longrightarrow> t < hi \<Longrightarrow> ratio t < ratio (t + 1)"
begin

lemma strict:
  assumes "s < t" and "lo \<le> s" and "t \<le> hi"
  shows "ratio s < ratio t"
  using assms
proof (induction t rule: int_gr_induct)
  case base
  then show ?case using rising by simp
next
  case (step i)
  then have "ratio s < ratio i" and "ratio i < ratio (i + 1)"
    using rising [of i] by simp_all
  then show ?case by (rule less_trans)
qed

lemma mono_iff: "lo \<le> s \<Longrightarrow> s \<le> hi \<Longrightarrow> lo \<le> t \<Longrightarrow> t \<le> hi \<Longrightarrow> ratio s \<le> ratio t \<longleftrightarrow> s \<le> t"
  using strict [of s t] strict [of t s] by (cases s t rule: linorder_cases) auto

definition located :: "u256 \<Rightarrow> int \<Rightarrow> bool" where
  "located p t \<longleftrightarrow> lo - 1 \<le> t \<and> t \<le> hi \<and> (\<forall>s. lo \<le> s \<longrightarrow> s \<le> hi \<longrightarrow> (ratio s \<le> p \<longleftrightarrow> s \<le> t))"

definition bracket :: "u256 \<Rightarrow> int \<Rightarrow> int \<Rightarrow> bool" where
  "bracket p l h \<longleftrightarrow> lo \<le> l \<and> h \<le> hi \<and> l \<le> h + 1 \<and>
     (\<forall>s. lo \<le> s \<longrightarrow> s < l \<longrightarrow> ratio s \<le> p) \<and> (\<forall>s. h < s \<longrightarrow> s \<le> hi \<longrightarrow> p < ratio s)"

lemma bracket_init: "lo \<le> hi + 1 \<Longrightarrow> bracket p lo hi"
  by (auto simp: bracket_def)

lemma bracket_hit:
  "bracket p l h \<Longrightarrow> l \<le> m \<Longrightarrow> m \<le> h \<Longrightarrow> ratio m = p \<Longrightarrow> located p m"
  using mono_iff [of _ m] by (auto simp: bracket_def located_def)

lemma bracket_right:
  assumes b: "bracket p l h" and m: "l \<le> m" "m \<le> h" and less: "ratio m < p"
  shows "bracket p (m + 1) h"
proof -
  have "ratio s \<le> p" if "lo \<le> s" "s < m + 1" for s
    using that mono_iff [of s m] b m less by (simp add: bracket_def)
  with b m show ?thesis by (simp add: bracket_def)
qed

lemma bracket_left:
  assumes b: "bracket p l h" and m: "l \<le> m" "m \<le> h" and less: "p < ratio m"
  shows "bracket p l (m - 1)"
proof -
  have "p < ratio s" if "m - 1 < s" "s \<le> hi" for s
    using that mono_iff [of m s] b m less by (simp add: bracket_def)
  with b m show ?thesis by (simp add: bracket_def)
qed

lemma bracket_empty:
  assumes b: "bracket p l h" and "h < l"
  shows "located p h"
proof -
  have l: "l = h + 1" using assms by (simp add: bracket_def)
  have "ratio s \<le> p \<longleftrightarrow> s \<le> h" if "lo \<le> s" "s \<le> hi" for s
  proof (cases "s \<le> h")
    case True
    with b that l show ?thesis by (simp add: bracket_def)
  next
    case False
    with b that have "p < ratio s" by (simp add: bracket_def)
    with False show ?thesis by (simp add: not_le)
  qed
  with b l show ?thesis by (simp add: located_def bracket_def)
qed

lemma located_self: "lo \<le> t \<Longrightarrow> t \<le> hi \<Longrightarrow> located (ratio t) t"
  by (auto simp: located_def mono_iff)

lemma located_unique: "located p s \<Longrightarrow> located p t \<Longrightarrow> s = t"
  unfolding located_def
  by (cases s t rule: linorder_cases) (fastforce dest: spec [of _ t] spec [of _ s])+

end

interpretation ticks: strict_table get_sqrt_ratio_at_tick MIN_TICK MAX_TICK
  by unfold_locales (rule sqrt_ratio_step)

section \<open>The tick search\<close>

lemma halfway:
  fixes l h :: int
  assumes "l \<le> h"
  shows "l \<le> (l + h) sdiv 2" and "(l + h) sdiv 2 \<le> h"
  using assms by (simp_all add: signed_divide_int_def sgn_if abs_if, presburger+)

lemma ticks_in_i32:
  "MIN_TICK - 1 \<le> t \<Longrightarrow> t \<le> MAX_TICK + 1 \<Longrightarrow> in_i32 t"
  by (simp add: MIN_TICK_def MAX_TICK_def in_i32_def)

lemma tick_search_step:
  assumes "MIN_TICK \<le> l" and "l \<le> h" and "h \<le> MAX_TICK"
  shows "tick_search p l h =
    (let m = (l + h) sdiv 2; r = get_sqrt_ratio_at_tick m in
     if r < p then tick_search p (m + 1) h
     else if p < r then tick_search p l (m - 1) else Some m)"
proof -
  have "wrap_i32 (l + h) = l + h"
    using assms by (simp add: wrap_i32_id in_i32_def MIN_TICK_def MAX_TICK_def)
  moreover have "wrap_i32 ((l + h) sdiv 2 + 1) = (l + h) sdiv 2 + 1"
    "wrap_i32 ((l + h) sdiv 2 - 1) = (l + h) sdiv 2 - 1"
    using halfway [OF assms(2)] assms by (simp_all add: wrap_i32_id ticks_in_i32)
  ultimately show ?thesis
    using assms(2) by (subst tick_search.simps) (simp only: Let_def if_True)
qed

lemma tick_search_done: "h < l \<Longrightarrow> tick_search p l h = Some h"
  by (subst tick_search.simps) simp

lemma tick_search_located:
  "ticks.bracket p l h \<Longrightarrow> \<exists>t. tick_search p l h = Some t \<and> ticks.located p t"
proof (induction "nat (h + 1 - l)" arbitrary: l h rule: less_induct)
  case less
  show ?case
  proof (cases "l \<le> h")
    case False
    then show ?thesis
      using ticks.bracket_empty [OF less.prems] by (simp add: tick_search_done)
  next
    case True
    let ?m = "(l + h) sdiv 2"
    have m: "l \<le> ?m" "?m \<le> h" by (rule halfway [OF True])+
    have range: "MIN_TICK \<le> l" "h \<le> MAX_TICK"
      using less.prems by (simp_all add: ticks.bracket_def)
    note unfold = tick_search_step [OF range(1) True range(2), of p, unfolded Let_def]
    consider (right) "get_sqrt_ratio_at_tick ?m < p" | (left) "p < get_sqrt_ratio_at_tick ?m"
      | (hit) "get_sqrt_ratio_at_tick ?m = p" by (rule linorder_cases)
    then show ?thesis
    proof cases
      case right
      have "nat (h + 1 - (?m + 1)) < nat (h + 1 - l)" using m by linarith
      from less.hyps [OF this ticks.bracket_right [OF less.prems m right]] right
      show ?thesis by (simp only: unfold if_True)
    next
      case left
      have "nat (?m - 1 + 1 - l) < nat (h + 1 - l)" using m by linarith
      from less.hyps [OF this ticks.bracket_left [OF less.prems m left]] left
      show ?thesis by (simp only: unfold if_True if_not_P [OF less_not_sym [OF left]])
    next
      case hit
      then show ?thesis
        using ticks.bracket_hit [OF less.prems m hit] by (simp only: unfold less_irrefl if_False) simp
    qed
  qed
qed

lemma tick_range_nonempty: "MIN_TICK \<le> MAX_TICK + 1"
  by (simp add: MIN_TICK_def MAX_TICK_def)

lemmas tick_at_located = tick_search_located [OF ticks.bracket_init [OF tick_range_nonempty]]

lemma sqrt_ratio_out_of_range:
  assumes "in_i32 t" and "\<not> tick_in_range t"
  shows "get_sqrt_ratio_at_tick t = 0"
proof -
  have "unat (word_of_int \<bar>t\<bar> :: u32) = nat \<bar>t\<bar>"
    using assms(1) by (subst unsigned_of_int, subst take_bit_int_eq_self) (auto simp: in_i32_def)
  moreover have "887272 < nat \<bar>t\<bar>"
    using assms(2) by (auto simp: tick_in_range_def MIN_TICK_def MAX_TICK_def abs_if)
  ultimately have "word_of_int MAX_TICK < (word_of_int \<bar>t\<bar> :: u32)"
    by (simp add: MAX_TICK_def word_less_nat_alt)
  then show ?thesis
    by (simp only: get_sqrt_ratio_lut_eq get_sqrt_ratio_at_tick_uncached_def Let_def if_True)
qed

lemmas ratio_eval = get_sqrt_ratio_at_tick_uncached_def tick_ratio_def ratio_factors_def
  ratio_step_def mul_shift_128_def u512_to_u256_safe_def u256_from_limbs_def q128_def
  MIN_TICK_def MAX_TICK_def u256_max_def

lemma ratio_at_min: "get_sqrt_ratio_at_tick MIN_TICK = min_sqrt_ratio"
  unfolding get_sqrt_ratio_lut_eq by (simp add: ratio_eval min_sqrt_ratio_def)

lemma ratio_at_max: "get_sqrt_ratio_at_tick MAX_TICK = max_sqrt_ratio + 1"
  unfolding get_sqrt_ratio_lut_eq by (simp add: ratio_eval max_sqrt_ratio_def)

lemma ratio_at_0: "get_sqrt_ratio_at_tick 0 = q96"
  unfolding get_sqrt_ratio_lut_eq by (simp add: ratio_eval q96_def)

section \<open>Properties\<close>

text \<open>C34 On the whole tick range the sqrt price of a tick is strictly increasing in the tick:
  the truncations of \<open>mul_shift_128\<close> and of the final shift never make two ticks collide.\<close>

theorem sqrt_ratio_strictly_increasing:
  assumes "MIN_TICK \<le> s" and "s < t" and "t \<le> MAX_TICK"
  shows "get_sqrt_ratio_at_tick s < get_sqrt_ratio_at_tick t"
  using assms by (intro ticks.strict)

theorem sqrt_ratio_strictly_increasing_witness:
  "get_sqrt_ratio_at_tick (- 887272) < get_sqrt_ratio_at_tick 887272"
  using sqrt_ratio_strictly_increasing [of "- 887272" 887272]
  by (simp add: MIN_TICK_def MAX_TICK_def)

text \<open>C14 The binary search of \<open>get_tick_at_sqrt_ratio\<close> returns for every price, and what it
  returns is the greatest tick whose sqrt price does not exceed the argument (one below
  \<open>MIN_TICK\<close> when there is none).\<close>

theorem get_tick_at_sqrt_ratio_exact:
  "\<exists>t. get_tick_at_sqrt_ratio p = Some t \<and> MIN_TICK - 1 \<le> t \<and> t \<le> MAX_TICK \<and>
     (\<forall>s. MIN_TICK \<le> s \<and> s \<le> MAX_TICK \<longrightarrow> (get_sqrt_ratio_at_tick s \<le> p \<longleftrightarrow> s \<le> t))"
  using tick_at_located [of p] by (auto simp: get_tick_at_sqrt_ratio_def ticks.located_def)

theorem get_tick_at_sqrt_ratio_exact_witness:
  "\<exists>t. get_tick_at_sqrt_ratio q96 = Some t \<and> 0 \<le> t"
  using get_tick_at_sqrt_ratio_exact [of q96] ratio_at_0
  by (auto simp: MIN_TICK_def MAX_TICK_def dest: spec [of _ 0])

text \<open>Converting a tick to its sqrt price and back gives the tick, on the whole range.\<close>

theorem tick_ratio_roundtrip:
  assumes "MIN_TICK \<le> t" and "t \<le> MAX_TICK"
  shows "get_tick_at_sqrt_ratio (get_sqrt_ratio_at_tick t) = Some t"
  using tick_at_located ticks.located_unique [OF ticks.located_self [OF assms]]
  by (auto simp: get_tick_at_sqrt_ratio_def)

theorem tick_ratio_roundtrip_witness:
  "get_tick_at_sqrt_ratio (get_sqrt_ratio_at_tick (- 202919)) = Some (- 202919)"
  using tick_ratio_roundtrip [of "- 202919"] by (simp add: MIN_TICK_def MAX_TICK_def)

text \<open>The range of the table: it starts at \<open>min_sqrt_ratio\<close> and ends one above
  \<open>max_sqrt_ratio\<close>, whose lowest limb is off by one; ticks in range have a sqrt price
  between these, and every other \<open>i32\<close> has sqrt price 0.\<close>

theorem sqrt_ratio_range:
  assumes "in_i32 t"
  shows "get_sqrt_ratio_at_tick MIN_TICK = min_sqrt_ratio \<and>
    get_sqrt_ratio_at_tick MAX_TICK = max_sqrt_ratio + 1 \<and>
    (if MIN_TICK \<le> t \<and> t \<le> MAX_TICK
     then min_sqrt_ratio \<le> get_sqrt_ratio_at_tick t \<and> get_sqrt_ratio_at_tick t \<le> max_sqrt_ratio + 1
     else get_sqrt_ratio_at_tick t = 0)"
proof -
  have "min_sqrt_ratio \<le> get_sqrt_ratio_at_tick t \<and> get_sqrt_ratio_at_tick t \<le> max_sqrt_ratio + 1"
    if "MIN_TICK \<le> t" "t \<le> MAX_TICK"
    using that ticks.mono_iff [of MIN_TICK t] ticks.mono_iff [of t MAX_TICK]
    by (simp only: ratio_at_min ratio_at_max)
  with sqrt_ratio_out_of_range [OF assms] show ?thesis
    unfolding ratio_at_min ratio_at_max by (auto simp: tick_in_range_def)
qed

theorem sqrt_ratio_range_witness: "get_sqrt_ratio_at_tick 887273 = 0"
  using sqrt_ratio_range [of 887273] by (simp add: in_i32_def MIN_TICK_def MAX_TICK_def)

end
