(* ===== verification/Swap_Loop.thy ===== *)
theory Swap_Loop
  imports Swap_Step Tick_Table
begin

text \<open>
  The loop over the ticks of \<open>simulate_swap_with_limit\<close>. A downward swap ends: every
  iteration that leaves the loop running has reached the next tick of the bitmap, which is below
  the current one. An upward swap whose search passes \<open>MAX_TICK\<close> meets the price 0 of the table.
\<close>

section \<open>Loops with a rank\<close>

text \<open>A loop of the source run for at most \<open>n\<close> iterations: \<open>None\<close> when it has not ended by then,
  otherwise its outcome, in which \<open>None\<close> is a panic.\<close>

fun run_fuel :: "('s \<Rightarrow> bool) \<Rightarrow> ('s \<Rightarrow> 's exec) \<Rightarrow> nat \<Rightarrow> 's \<Rightarrow> 's exec option" where
  "run_fuel active iter n s =
     (if active s then case n of 0 \<Rightarrow> None
        | Suc n \<Rightarrow> (case iter s of None \<Rightarrow> Some None | Some s' \<Rightarrow> run_fuel active iter n s')
      else Some (Some s))"

declare run_fuel.simps [simp del]

text \<open>The contract of such a loop: an invariant, and a rank that every iteration lowers.\<close>

locale ranked_loop =
  fixes active :: "'s \<Rightarrow> bool" and iter :: "'s \<Rightarrow> 's exec" and inv :: "'s \<Rightarrow> bool" and rank :: "'s \<Rightarrow> nat"
  assumes descends: "inv s \<Longrightarrow> active s \<Longrightarrow> iter s = Some s' \<Longrightarrow> inv s' \<and> (active s' \<longrightarrow> rank s' < rank s)"
begin

lemma ends:
  assumes "inv s" and "active s \<longrightarrow> rank s < n"
  shows "\<exists>r. run_fuel active iter n s = Some r \<and> (\<forall>s'. r = Some s' \<longrightarrow> inv s' \<and> \<not> active s')"
  using assms
proof (induction n arbitrary: s)
  case 0
  then show ?case by (subst run_fuel.simps) simp
next
  case (Suc n)
  show ?case
  proof (cases "active s")
    case False
    with Suc.prems show ?thesis by (subst run_fuel.simps) simp
  next
    case True
    show ?thesis
    proof (cases "iter s")
      case None
      with True show ?thesis by (subst run_fuel.simps) simp
    next
      case (Some s')
      from descends [OF Suc.prems(1) True Some] have "inv s'" and "active s' \<longrightarrow> rank s' < n"
        using Suc.prems(2) True by auto
      from Suc.IH [OF this] Some True show ?thesis by (subst run_fuel.simps) simp
    qed
  qed
qed

end

definition swap_active :: "u256 \<Rightarrow> swap_state \<Rightarrow> bool" where
  "swap_active limit s \<longleftrightarrow> sw_remaining s \<noteq> 0 \<and> sw_price s \<noteq> limit"

lemma fuel_is_loop:
  "run_fuel (swap_active limit) (swap_iteration ticks bm z fee limit spacing) n s = Some r \<Longrightarrow>
   swap_loop ticks bm z fee limit spacing s = r"
proof (induction n arbitrary: s)
  case 0
  then show ?case
    by (subst swap_loop.simps) (auto simp: swap_active_def run_fuel.simps split: if_splits)
next
  case (Suc n)
  then show ?case
    by (subst swap_loop.simps)
      (auto simp: swap_active_def run_fuel.simps [of _ _ "Suc n"] split: if_splits option.splits)
qed

section \<open>One downward iteration\<close>

text \<open>A downward step that returns keeps the promise, however small its input.\<close>

lemma step_down_returned:
  assumes w: "input_words r fee" and "unat l < 2 ^ 128" and t: "t \<noteq> 0" "t \<le> p"
    and run: "compute_swap_step p t l r fee True = Some (step, rem)"
  shows "t \<le> sqrt_price_next_x96 step \<and> sqrt_price_next_x96 step \<le> p \<and> 0 \<le> rem \<and> rem \<le> r \<and>
    (sqrt_price_next_x96 step \<noteq> t \<longrightarrow> rem = 0)"
proof -
  have "step_promise p t l r fee True"
  proof (cases "1000000 \<le> nat r * (1000000 - unat fee)")
    case True
    then show ?thesis by (intro step_down w assms(2) t)
  next
    case False
    let ?a = "amount_in_after_fee r fee"
    have a: "unat ?a = 0" using False unat_after_fee [OF w] by simp
    then have "?a = 0" by (simp only: unat_0_iff)
    then have "step_input True p t l = 0"
      using run w by (cases "step_input True p t l = 0")
        (simp_all add: compute_swap_step_input input_words_def Let_def get_next_sqrt_price_from_input_def u_div_def)
    then show ?thesis
      using t(2) by (intro promiseI [OF w, where x = t]) simp_all
  qed
  then show ?thesis
    unfolding step_promise_def run
    by clarsimp
qed

lemma ratio_mono:
  assumes "in_i32 s" and "s \<le> t" and "tick_in_range t"
  shows "get_sqrt_ratio_at_tick s \<le> get_sqrt_ratio_at_tick t"
proof (cases "tick_in_range s")
  case True
  then show ?thesis using assms(2,3) ticks.mono_iff [of s t] by (simp add: tick_in_range_def)
next
  case False
  then show ?thesis by (simp add: sqrt_ratio_out_of_range [OF assms(1)])
qed

definition down_inv :: "u256 \<Rightarrow> u32 \<Rightarrow> i32 \<Rightarrow> i256 \<Rightarrow> u256 \<Rightarrow> swap_state \<Rightarrow> bool" where
  "down_inv limit fee spacing amount price s \<longleftrightarrow>
     unat fee < 1000000 \<and> 0 < spacing \<and> spacing \<le> 1000 \<and> in_i256 amount \<and> unat price < 2 ^ 160 \<and>
     min_sqrt_ratio < limit \<and> limit \<le> sw_price s \<and> sw_price s \<le> price \<and>
     0 \<le> sw_remaining s \<and> sw_remaining s \<le> amount \<and>
     (swap_active limit s \<longrightarrow> unat (sw_liquidity s) < 2 ^ 128 \<and> tick_in_range (sw_tick s) \<and>
        get_sqrt_ratio_at_tick (sw_tick s) \<le> sw_price s)"

definition down_rank :: "swap_state \<Rightarrow> nat" where
  "down_rank s = nat (sw_tick s - MIN_TICK)"

lemma next_tick_down:
  assumes "tick_in_range t" and "0 < s" and "s \<le> 1000"
  obtains n i where "get_next_initialized_tick_precise t s True bm = Some (n, i)" and "n \<le> t" and "in_i32 n"
proof -
  obtain n where n: "get_next_initialized_tick_precise t s True bm = Some (n * s, tick_initialised bm n)"
      "word_start (t div s) \<le> n" "n * s \<le> t"
    using next_tick_left_exact [of t s bm] assms by (auto simp: tick_in_range_def)
  have "t div s - 255 \<le> n" using n(2) by (simp add: word_start_def)
  then have "(t div s - 255) * s \<le> n * s" using assms(2) by (intro mult_right_mono) simp_all
  moreover have "t - s < t div s * s" using assms(2) by (simp add: minus_mod_eq_div_mult [symmetric])
  ultimately have "- 2000000 \<le> n * s"
    using assms by (simp add: left_diff_distrib tick_in_range_def MIN_TICK_def)
  then have "in_i32 (n * s)" using n(3) assms(1) by (simp add: in_i32_def tick_in_range_def MAX_TICK_def)
  then show thesis using that n(1,3) by blast
qed

lemma cross_tick_down: "unat l < 2 ^ 128 \<Longrightarrow> unat (cross_tick ticks True n l) < 2 ^ 128"
  by (auto simp: cross_tick_def sat_sub_def word_less_nat_alt unat_sub_if' split: option.split)

lemma down_descends:
  assumes inv: "down_inv limit fee spacing amount price s" and on: "swap_active limit s"
    and run: "swap_iteration ticks bm True fee limit spacing s = Some s'"
  shows "down_inv limit fee spacing amount price s' \<and> (swap_active limit s' \<longrightarrow> down_rank s' < down_rank s)"
proof -
  let ?p = "sw_price s" and ?r = "sw_remaining s" and ?l = "sw_liquidity s"
  have s: "0 < ?r" "in_i256 ?r" "unat fee < 1000000" "unat ?l < 2 ^ 128" "tick_in_range (sw_tick s)"
      "get_sqrt_ratio_at_tick (sw_tick s) \<le> ?p" "min_sqrt_ratio < limit" "limit \<le> ?p" "0 < spacing" "spacing \<le> 1000"
      "in_i256 amount" "?r \<le> amount" "?p \<le> price" "unat price < 2 ^ 160"
    using inv on by (auto simp: down_inv_def swap_active_def in_i256_def)
  obtain n i where n: "get_next_initialized_tick_precise (sw_tick s) spacing True bm = Some (n, i)" "n \<le> sw_tick s" "in_i32 n"
    using next_tick_down [OF s(5,9,10)] .
  let ?next = "get_sqrt_ratio_at_tick n"
  let ?t = "clamp_target True limit ?next"
  have nxt: "?next \<le> ?p" using ratio_mono [OF n(3,2) s(5)] s(6) by (rule order_trans)
  have "0 < limit" using s(7) by (metis word_not_simps(1) word_neq_0_conv)
  then have t: "?t \<noteq> 0" "?t \<le> ?p" "limit \<le> ?t" using s(7,8) nxt by (auto simp: clamp_target_def)
  obtain step rem where st: "compute_swap_step ?p ?t ?l ?r fee True = Some (step, rem)"
    using run n(1) by (auto simp: swap_iteration_def bind_eq_Some_conv Let_def)
  let ?x = "sqrt_price_next_x96 step"
  have w: "input_words ?r fee" using s by (simp add: input_words_def)
  note promise = step_down_returned [OF w s(4) t(1,2) st]
  have s': "sw_remaining s' = rem" "sw_price s' = ?x"
    "if ?x = ?next then sw_liquidity s' = cross_tick ticks True n ?l \<and> sw_tick s' = wrap_i32 (n - 1) else True"
    using run n(1) st by (auto simp: swap_iteration_def bind_eq_Some_conv Let_def split: if_splits)
  have x: "limit \<le> ?x" "?x \<le> price" using promise t s by auto
  have crossed: "?x = ?next" if "swap_active limit s'"
  proof -
    have "?x = ?t" and "?x \<noteq> limit" using that promise by (auto simp: swap_active_def s')
    then show ?thesis by (auto simp: clamp_target_def split: if_splits)
  qed
  have range: "MIN_TICK < n" if "swap_active limit s'"
  proof (rule ccontr)
    assume "\<not> MIN_TICK < n"
    then have "?next \<le> min_sqrt_ratio"
      using ratio_mono [of n MIN_TICK] n(3) ratio_at_min by (simp add: tick_in_range_def MIN_TICK_def MAX_TICK_def)
    then show False using x(1) s(7) crossed [OF that] by auto
  qed
  have live: "sw_tick s' = n - 1 \<and> tick_in_range (n - 1) \<and> unat (sw_liquidity s') < 2 ^ 128 \<and>
      get_sqrt_ratio_at_tick (n - 1) \<le> ?x" if "swap_active limit s'"
  proof -
    have n1: "tick_in_range (n - 1)" "tick_in_range n" "in_i32 (n - 1)"
      using range [OF that] n(2) s(5) by (auto simp: tick_in_range_def in_i32_def MIN_TICK_def MAX_TICK_def)
    with s'(3) crossed [OF that] cross_tick_down [OF s(4)] ratio_mono [OF n1(3) _ n1(2)] show ?thesis
      by (simp add: wrap_i32_id)
  qed
  show ?thesis
    unfolding down_inv_def
  proof (intro conjI impI)
    assume "swap_active limit s'"
    with live range n(2) show "down_rank s' < down_rank s" by (simp add: down_rank_def)
  qed (use s x promise live in \<open>auto simp: s'(1,2)\<close>)
qed

interpretation down_loop: ranked_loop "swap_active limit" "swap_iteration ticks bm True fee limit spacing"
  "down_inv limit fee spacing amount price" down_rank
  for limit ticks bm fee spacing amount price
  by unfold_locales (rule down_descends)

section \<open>Properties\<close>

text \<open>C23 A downward swap always ends: whatever the ticks and the bitmap hold, its loop returns or
  panics within as many iterations as there are ticks from the current one down to \<open>MIN_TICK\<close>, plus
  one. When it returns, either the input is used up or the price limit is reached; the price lies between the
  limit and the start, and no more than the input has been taken.\<close>

theorem downward_swap_ends:
  assumes "MIN_TICK \<le> tick" and "tick \<le> MAX_TICK" and "get_sqrt_ratio_at_tick tick \<le> price" and "unat price < 2 ^ 160"
    and "unat liquidity < 2 ^ 128" and "unat amount_in < 2 ^ 255" and "unat fee < 1000000"
    and "0 < spacing" and "spacing \<le> 1000" and "min_sqrt_ratio < limit" and "limit \<le> price"
  shows "\<exists>r. run_fuel (swap_active limit) (swap_iteration ticks bm True fee limit spacing) (nat (tick - MIN_TICK) + 1)
        \<lparr>sw_remaining = i256_of_u256 amount_in, sw_calculated = 0, sw_price = price, sw_tick = tick, sw_liquidity = liquidity\<rparr> = Some r \<and>
      simulate_swap_with_limit price tick liquidity ticks bm amount_in True fee (Some limit) spacing =
        map_option (\<lambda>s. (sw_calculated s, sw_price s, sw_tick s, sw_liquidity s)) r \<and>
      (\<forall>s. r = Some s \<longrightarrow> (sw_remaining s = 0 \<or> sw_price s = limit) \<and> limit \<le> sw_price s \<and> sw_price s \<le> price \<and>
        0 \<le> sw_remaining s \<and> sw_remaining s \<le> uint amount_in)"
proof -
  let ?s = "\<lparr>sw_remaining = i256_of_u256 amount_in, sw_calculated = 0, sw_price = price, sw_tick = tick, sw_liquidity = liquidity\<rparr>"
  have a: "i256_of_u256 amount_in = uint amount_in" using assms(6) by (rule i256_of_u256_small)
  have "int (unat amount_in) < int (2 ^ 255)" using assms(6) by (simp only: of_nat_less_iff)
  then have "in_i256 (uint amount_in)" by (simp add: in_i256_def order_trans [OF _ uint_ge_0])
  with a have "down_inv limit fee spacing (uint amount_in) price ?s"
    using assms a by (simp add: down_inv_def tick_in_range_def)
  from down_loop.ends [OF this, of "nat (tick - MIN_TICK) + 1" ticks bm] obtain r where
    r: "run_fuel (swap_active limit) (swap_iteration ticks bm True fee limit spacing) (nat (tick - MIN_TICK) + 1) ?s = Some r"
      "\<forall>s'. r = Some s' \<longrightarrow> down_inv limit fee spacing (uint amount_in) price s' \<and> \<not> swap_active limit s'"
    by (auto simp: down_rank_def)
  from fuel_is_loop [OF r(1)] have
    "simulate_swap_with_limit price tick liquidity ticks bm amount_in True fee (Some limit) spacing =
        map_option (\<lambda>s. (sw_calculated s, sw_price s, sw_tick s, sw_liquidity s)) r"
    by (simp add: simulate_swap_with_limit_def map_option_bind split: Option.bind_split)
  with r show ?thesis by (auto simp: down_inv_def swap_active_def)
qed

theorem downward_swap_ends_witness:
  "\<exists>r. run_fuel (swap_active (q96 - 1)) (swap_iteration Map.empty Map.empty True 3000 (q96 - 1) 60) 887273
     \<lparr>sw_remaining = i256_of_u256 (10 ^ 15), sw_calculated = 0, sw_price = q96, sw_tick = 0, sw_liquidity = 10 ^ 18\<rparr> = Some r"
proof -
  have "MIN_TICK \<le> 0" "0 \<le> MAX_TICK" "nat (0 - MIN_TICK) + 1 = 887273" by (simp_all add: MIN_TICK_def MAX_TICK_def)
  moreover have "min_sqrt_ratio < q96 - 1" "q96 - 1 \<le> q96" "unat q96 < 2 ^ 160" "get_sqrt_ratio_at_tick 0 \<le> q96"
    by (simp_all add: ratio_at_0 q96_def min_sqrt_ratio_def)
  moreover have "unat (10 ^ 18 :: u256) < 2 ^ 128" "unat (10 ^ 15 :: u256) < 2 ^ 255" "unat (3000 :: u32) < 1000000" by simp_all
  ultimately show ?thesis
    using downward_swap_ends [of 0 q96 "10 ^ 18" "10 ^ 15" 3000 60 "q96 - 1" Map.empty Map.empty] by auto
qed

text \<open>An upward swap can end at price zero: when the search for the next tick passes
  \<open>MAX_TICK\<close>, the table gives the price 0, the clamp to the upper limit keeps it, and an input that
  covers the way down to 0 moves the price of the pool there.\<close>

theorem upward_swap_reaches_zero:
  assumes "get_next_initialized_tick_precise (sw_tick s) spacing False bm = Some (n, i)" and "MAX_TICK < n" and "in_i32 n"
    and "0 < sw_remaining s" and "step_input False (sw_price s) 0 (sw_liquidity s) \<le> amount_in_after_fee (sw_remaining s) fee"
  shows "\<exists>s'. swap_iteration ticks bm False fee limit spacing s = Some s' \<and> sw_price s' = 0 \<and> sw_tick s' = n"
proof -
  have "get_sqrt_ratio_at_tick n = 0"
    using sqrt_ratio_out_of_range [OF assms(3)] assms(2) by (simp add: tick_in_range_def)
  with assms show ?thesis
    by (simp add: swap_iteration_def clamp_target_def compute_swap_step_input Let_def)
qed

theorem upward_swap_reaches_zero_witness:
  "\<exists>s'. swap_iteration Map.empty Map.empty False 0 (max_sqrt_ratio - 1) 60
     \<lparr>sw_remaining = 10, sw_calculated = 0, sw_price = q96, sw_tick = 880000, sw_liquidity = 5\<rparr> = Some s' \<and> sw_price s' = 0"
proof -
  have "get_next_initialized_tick_precise 880000 60 False Map.empty = Some (890820, False)"
    by (simp add: get_next_initialized_tick_precise_def compress_tick_def i32_div_def search_right_def
        tick_bitmap_position_def bitmap_word_def wrap_i32_id in_i32_def)
  moreover have "step_input False q96 0 5 \<le> amount_in_after_fee 10 0"
  proof -
    have "input_words 10 0" by (simp add: input_words_def in_i256_def)
    from unat_after_fee [OF this] have "unat (amount_in_after_fee 10 0) = 10" by simp
    moreover have "step_input False q96 0 5 = 5"
      by (simp add: step_input_def get_amount1_delta_def ordered_def mul_div_round_up_def q96_def u512_to_u256_safe_def)
    ultimately show ?thesis by (simp add: word_le_nat_alt)
  qed
  ultimately show ?thesis
    using upward_swap_reaches_zero [of "\<lparr>sw_remaining = 10, sw_calculated = 0, sw_price = q96, sw_tick = 880000, sw_liquidity = 5\<rparr>"
        60 Map.empty 890820 False 0 Map.empty "max_sqrt_ratio - 1"]
    by (auto simp: MAX_TICK_def in_i32_def)
qed

end
