(* ===== verification/Byte_Codec.thy ===== *)
theory Byte_Codec
  imports Shadow_Base
begin

text \<open>
  Byte strings: the big-endian encodings behind \<open>to_be_bytes\<close>, \<open>as_slice\<close> of an
  address, \<open>from_be_slice\<close> and \<open>from_be_bytes\<close>, and their round trips.
\<close>

type_synonym bytes = "u8 list"

fun be_digits :: "nat \<Rightarrow> nat \<Rightarrow> bytes" where
  "be_digits 0 v = []"
| "be_digits (Suc n) v = be_digits n (v div 256) @ [word_of_nat v]"

definition be_value :: "bytes \<Rightarrow> nat" where
  "be_value bs = foldl (\<lambda>v b. v * 256 + unat b) 0 bs"

definition to_be_bytes :: "'a::len word \<Rightarrow> bytes" where
  "to_be_bytes w = be_digits (LENGTH('a) div 8) (unat w)"

definition from_be_bytes :: "bytes \<Rightarrow> 'a::len word" where
  "from_be_bytes bs = word_of_nat (be_value bs)"

lemma length_be_digits [simp]: "length (be_digits n v) = n"
  by (induction n arbitrary: v) simp_all

lemma be_value_Nil [simp]: "be_value [] = 0"
  by (simp add: be_value_def)

lemma be_value_snoc [simp]: "be_value (bs @ [b]) = be_value bs * 256 + unat b"
  by (simp add: be_value_def)

lemma unat_byte: "unat (word_of_nat v :: u8) = v mod 256"
  by (simp add: unsigned_of_nat take_bit_eq_mod)

lemma be_value_digits: "be_value (be_digits n v) = v mod 256 ^ n"
proof (induction n arbitrary: v)
  case (Suc n)
  have "v mod (256 * 256 ^ n) = 256 * (v div 256 mod 256 ^ n) + v mod 256"
    by (rule mod_mult2_eq)
  with Suc show ?case by (simp add: unat_byte mult.commute)
qed simp

lemma be_value_bound: "be_value bs < 256 ^ length bs"
proof (induction bs rule: rev_induct)
  case (snoc b bs)
  have "unat b < 256" using unat_bound [of b] by simp
  then have "be_value bs * 256 + unat b < (be_value bs + 1) * 256" by simp
  also have "\<dots> \<le> 256 ^ length bs * 256" using snoc by (intro mult_le_mono1) simp
  finally show ?case by simp
qed simp

lemma be_digits_value: "be_digits (length bs) (be_value bs) = bs"
proof (induction bs rule: rev_induct)
  case (snoc b bs)
  have b: "unat b < 256" using unat_bound [of b] by simp
  then have "(be_value bs * 256 + unat b) div 256 = be_value bs" by simp
  moreover have "(word_of_nat (be_value bs * 256 + unat b) :: u8) = b"
    by (rule word_unat_eq_iff [THEN iffD2]) (use b in \<open>simp only: unat_byte mod_mult_self3 mod_less\<close>)
  ultimately show ?case using snoc by simp
qed simp

lemma length_to_be_bytes [simp]: "length (to_be_bytes (w :: 'a::len word)) = LENGTH('a) div 8"
  by (simp add: to_be_bytes_def)

lemma from_to_be_bytes:
  assumes "8 dvd LENGTH('a)"
  shows "from_be_bytes (to_be_bytes (w :: 'a::len word)) = w"
proof -
  from assms obtain k where k: "LENGTH('a) = 8 * k" by blast
  have "(256 :: nat) ^ k = 2 ^ LENGTH('a)"
    unfolding k by (simp add: power_mult)
  then have "unat w < 256 ^ k" using unat_bound [of w] by simp
  then show ?thesis by (simp add: from_be_bytes_def to_be_bytes_def be_value_digits k)
qed

lemma u256_bytes [simp]: "from_be_bytes (to_be_bytes (w :: u256)) = w"
  by (rule from_to_be_bytes) simp

lemma address_bytes [simp]: "from_be_bytes (to_be_bytes (w :: address)) = w"
  by (rule from_to_be_bytes) simp

lemma to_from_be_bytes:
  assumes "length bs * 8 = LENGTH('a)"
  shows "to_be_bytes (from_be_bytes bs :: 'a::len word) = bs"
proof -
  have k: "(256 :: nat) ^ length bs = 2 ^ LENGTH('a)"
    unfolding assms [symmetric] by (simp add: power_mult mult.commute [of _ 8])
  have "unat (from_be_bytes bs :: 'a word) = be_value bs"
    unfolding from_be_bytes_def by (rule unat_of_nat_nowrap) (use be_value_bound [of bs] k in simp)
  moreover have "LENGTH('a) div 8 = length bs" using assms by linarith
  ultimately show ?thesis by (simp add: to_be_bytes_def be_digits_value)
qed

end
