(* ===== verification/Abi_Readers.thy ===== *)
theory Abi_Readers
  imports Byte_Codec
begin

text \<open>
  The zero-copy readers of \<open>src/utils.rs\<close>. An offset is a \<open>usize\<close> and offset
  arithmetic wraps, so a reader has three outcomes: a value, \<open>None\<close>, or a panic of the
  slice operation. A reader is an \<open>'a option exec\<close>: the outer \<open>None\<close> is the panic.
\<close>

type_synonym 'a reader = "'a option exec"

text \<open>The \<open>?\<close> operator on such a value, and \<open>unwrap_or\<close>.\<close>

definition try_read :: "'a reader \<Rightarrow> ('a \<Rightarrow> 'b reader) \<Rightarrow> 'b reader" where
  "try_read x f = (case x of None \<Rightarrow> None | Some None \<Rightarrow> Some None | Some (Some a) \<Rightarrow> f a)"

definition read_or :: "'a reader \<Rightarrow> 'a \<Rightarrow> 'a exec" where
  "read_or x d = (case x of None \<Rightarrow> None | Some None \<Rightarrow> Some d | Some (Some a) \<Rightarrow> Some a)"

text \<open>\<open>&data[i..j]\<close> on machine indices, and \<open>data.get(i..j)\<close>.\<close>

definition slice_at :: "bytes \<Rightarrow> usize \<Rightarrow> usize \<Rightarrow> bytes exec" where
  "slice_at data i j = slice data (unat i) (unat j)"

definition len_usize :: "bytes \<Rightarrow> usize" where
  "len_usize data = word_of_nat (length data)"

definition read_u256 :: "bytes \<Rightarrow> usize \<Rightarrow> u256 reader" where
  "read_u256 data offset =
     (let end_pos = offset + 32 in
      if end_pos > len_usize data then Some None
      else map_option (\<lambda>bs. Some (from_be_bytes bs)) (slice_at data offset end_pos))"

definition read_address :: "bytes \<Rightarrow> usize \<Rightarrow> address reader" where
  "read_address data offset =
     (let addr_start = offset + 12; end_pos = addr_start + 20 in
      if end_pos > len_usize data then Some None
      else map_option (\<lambda>bs. Some (from_be_bytes bs)) (slice_at data addr_start end_pos))"

definition read_usize :: "bytes \<Rightarrow> usize \<Rightarrow> usize reader" where
  "read_usize data offset =
     Some (map_option from_be_bytes (slice_at data (offset + 24) (offset + 32)))"

definition fee_bytes :: "bytes \<Rightarrow> u32" where
  "fee_bytes bs = from_be_bytes (0 # bs)"

definition slice_v3_path :: "bytes \<Rightarrow> (address \<times> u32 \<times> address) option" where
  "slice_v3_path data =
     (if length data < 43 then None
      else Some (from_be_bytes (take 20 data), fee_bytes (take 3 (drop 20 data)),
                 from_be_bytes (take 20 (drop 23 data))))"

function v3_path_from :: "bytes \<Rightarrow> (address \<times> u32 \<times> address) list" where
  "v3_path_from path =
     (if 43 \<le> length path
      then (from_be_bytes (take 20 path), fee_bytes (take 3 (drop 20 path)),
            from_be_bytes (take 20 (drop 23 path))) # v3_path_from (drop 23 path)
      else [])"
  by auto
termination by (relation "measure length") auto

declare v3_path_from.simps [simp del]

definition fast_decode_v3_path :: "bytes \<Rightarrow> (address \<times> u32 \<times> address) list" where
  "fast_decode_v3_path path = (if length path < 43 then [] else v3_path_from path)"

section \<open>Facts\<close>

lemma try_read_simps [exec_simps, simp]:
  "try_read None f = None" "try_read (Some None) f = Some None" "try_read (Some (Some a)) f = f a"
  by (simp_all add: try_read_def)

lemma read_or_simps [exec_simps, simp]:
  "read_or None d = None" "read_or (Some None) d = Some d" "read_or (Some (Some a)) d = Some a"
  by (simp_all add: read_or_def)

lemma unat_len_usize: "length data < 2 ^ 63 \<Longrightarrow> unat (len_usize data) = length data"
  unfolding len_usize_def by (rule unat_of_nat_nowrap) simp

lemma unat_u64: "unat (x :: u64) < 2 ^ 64"
  using unat_bound [of x] by simp

lemma unat_offset:
  "unat (offset + word_of_nat k :: usize) =
     (if unat offset + k < 2 ^ 64 then unat offset + k else unat offset + k - 2 ^ 64)"
  if "k < 2 ^ 63" for offset :: usize
proof -
  have "unat (offset + word_of_nat k :: usize) = (unat offset + k) mod 2 ^ 64"
    using that by (simp add: unat_word_ariths unat_of_nat_nowrap)
  moreover have "unat offset + k < 2 ^ 64 + 2 ^ 64"
    using that unat_u64 [of offset] by simp
  ultimately show ?thesis by (auto simp: mod_if)
qed

lemmas unat_offsets = unat_offset [of 12, simplified] unat_offset [of 20, simplified]
  unat_offset [of 24, simplified] unat_offset [of 32, simplified]

text \<open>Exactly what the 32-byte reader does, for data of any realistic length.\<close>

lemma read_u256_cases:
  assumes "length data < 2 ^ 63"
  shows "read_u256 data offset =
    (if unat offset + 32 \<le> length data
     then Some (Some (from_be_bytes (take 32 (drop (unat offset) data))))
     else if unat offset + 32 < 2 ^ 64 then Some None
     else if length data < unat offset + 32 - 2 ^ 64 then Some None
     else None)"
  using assms unat_u64 [of offset]
  by (auto simp: read_u256_def slice_at_def slice_def word_less_nat_alt unat_len_usize unat_offsets Let_def)

lemma read_usize_total: "\<exists>r. read_usize data offset = Some r"
  by (simp add: read_usize_def)

end
