(* ===== verification/Models.thy ===== *)
theory Models
  imports Byte_Codec
begin

text \<open>
  The shared data types of \<open>src/models.rs\<close>: enums as datatypes, structs as records, and
  the encoder \<open>encode_ghost_multi\<close> of the payload the contract reads. A 64-bit
  float is kept as its bit pattern where the code only stores it. The hash of a path is the
  standard library's \<open>DefaultHasher\<close>, whose algorithm is unspecified: a parameter.
\<close>

section \<open>Enums\<close>

datatype chain = Base

definition chain_id :: "chain \<Rightarrow> u64" where
  "chain_id c = (case c of Base \<Rightarrow> 8453)"

definition chain_try_from_id :: "u64 \<Rightarrow> chain option" where
  "chain_try_from_id i = (if i = 8453 then Some Base else None)"

datatype dex_name = NameUniswapV2 | NameUniswapV3 | SushiSwap | NameAerodrome | BaseSwap
  | PancakeSwap | Maverick | Permit2 | CowSwap | UniswapX

datatype dex_type = UniswapV2 | UniswapV3 | MaverickV2 | Aerodrome

definition dex_type_u8 :: "dex_type \<Rightarrow> u8" where
  "dex_type_u8 d = (case d of UniswapV2 \<Rightarrow> 0 | UniswapV3 \<Rightarrow> 1 | MaverickV2 \<Rightarrow> 2 | Aerodrome \<Rightarrow> 3)"

datatype lender = LBalancer | LAaveV3 | LUniswapV2 | LUniswapV3 | LAerodrome | LMakerDAO
  | LMorphoBlue | LCurve

definition lender_id :: "lender \<Rightarrow> u8" where
  "lender_id l = (case l of LBalancer \<Rightarrow> 0 | LAaveV3 \<Rightarrow> 1 | _ \<Rightarrow> 2)"

datatype mev_error = SimulationFailed string | HoneypotDetected string | CircuitBreakerOpen
  | NoRelayAccepted | ProviderError string | SerializationError string | Http string | Other string

definition is_revert :: "mev_error \<Rightarrow> bool" where
  "is_revert e = (case e of SimulationFailed _ \<Rightarrow> True | _ \<Rightarrow> False)"

section \<open>Structs\<close>

record hop =
  hop_pool :: address
  hop_pool_address :: address
  hop_pool_address_label :: "string option"
  hop_token_in :: address
  hop_token_out :: address
  hop_dex_type :: dex_type
  hop_dex_name :: dex_name
  hop_zero_for_one :: bool
  hop_is_stable :: bool
  hop_fee :: "u32 option"
  hop_static_calldata :: bytes
  hop_gas_cost :: u256
  hop_id :: bytes
  hop_success_prob :: u32

type_synonym pool_key = address

record swap_info =
  si_dex :: dex_name
  si_router :: address
  si_token_in :: address
  si_token_out :: address
  si_amount_in :: u256
  si_amount_out_min :: u256
  si_to :: address
  si_fee :: "u32 option"
  si_permit2_nonce :: "u256 option"

definition is_tracked :: "swap_info \<Rightarrow> pool_key set \<Rightarrow> bool" where
  "is_tracked s tracked \<longleftrightarrow> si_router s \<in> tracked"

record mempool_tx =
  tx_data :: bytes
  tx_hash :: b256
  tx_to :: "address option"

record path =
  path_hops :: "hop list"
  path_hash :: b256
  path_total_gas :: u64

definition path_new :: "((address \<times> address) list \<Rightarrow> u64) \<Rightarrow> hop list \<Rightarrow> u64 \<Rightarrow> path" where
  "path_new default_hasher hops total_gas =
     \<lparr>path_hops = hops,
      path_hash = ucast (default_hasher (map (\<lambda>h. (hop_pool_address h, hop_token_out h)) hops)),
      path_total_gas = total_gas\<rparr>"

record arbitrage_path =
  ap_hops :: "hop list"
  ap_loans :: "(address \<times> u256) list"
  ap_lender :: lender

record mev_bundle =
  bu_transactions :: "bytes list"
  bu_target_block :: u64
  bu_bribe :: u256

definition bundle_new :: mev_bundle where
  "bundle_new = \<lparr>bu_transactions = [], bu_target_block = 0, bu_bribe = 0\<rparr>"

definition set_bribe :: "u256 \<Rightarrow> mev_bundle \<Rightarrow> mev_bundle" where
  "set_bribe bribe b = b\<lparr>bu_bribe := bribe\<rparr>"

record profit_details =
  pd_net_profit :: u256
  pd_slippage :: u64
  pd_gas_savings :: u256

record opportunity =
  op_id :: string
  op_path :: path
  op_expected_profit :: u256
  op_gas_cost :: u256
  op_gas_estimate :: u256
  op_base_fee :: u256
  op_priority_fee :: u256
  op_input_token :: address
  op_input_amount :: u256
  op_profit_details :: "profit_details option"
  op_executor_address :: address
  op_is_whale_trigger :: bool
  op_chain :: chain
  op_trigger_gas_price :: "u256 option"
  op_trigger_sender :: "address option"
  op_pending_txs :: "mempool_tx list"
  op_success_prob :: u32
  op_static_calldata :: bytes

record pool_edge =
  pe_pool_address :: address
  pe_dex_name :: dex_name
  pe_token_b :: address
  pe_fee :: "u32 option"
  pe_liq_score :: u64
  pe_static_calldata :: bytes
  pe_gas_cost :: u256
  pe_id :: bytes
  pe_success_prob :: u32

definition TOKEN_WETH :: address where
  "TOKEN_WETH = 0x4200000000000000000000000000000000000006"

section \<open>The ghost payload\<close>

definition encode_loan :: "address \<times> u256 \<Rightarrow> bytes" where
  "encode_loan loan = to_be_bytes (fst loan) @ to_be_bytes (snd loan)"

definition encode_hop :: "hop \<Rightarrow> bytes" where
  "encode_hop h = to_be_bytes (hop_pool h) @ to_be_bytes (hop_token_out h) @
     [dex_type_u8 (hop_dex_type h), if hop_zero_for_one h then 1 else 0, if hop_is_stable h then 1 else 0]"

definition encode_ghost_multi :: "arbitrage_path \<Rightarrow> (address \<times> u256) list \<Rightarrow> u256 \<Rightarrow> bytes" where
  "encode_ghost_multi self loans min_profit =
     to_be_bytes min_profit @ [lender_id (ap_lender self), word_of_nat (length loans)] @
     concat (map encode_loan loans) @ [word_of_nat (length (ap_hops self))] @
     concat (map encode_hop (ap_hops self))"

end
