(* ===== verification/Shadow_Constants.thy ===== *)
theory Shadow_Constants
  imports Models
begin

text \<open>
  The constants of \<open>src/constants.rs\<close> that other modules read: tokens, pools, routers and
  factories on Base, selectors and event topics, limits and tiers. The hash sets are sets,
  the per-chain tables are maps. Constants no module reads are in \<open>Unread_Constants\<close>.
\<close>

section \<open>Single values\<close>

definition TOKEN_AERO :: address where "TOKEN_AERO = 0x940181a94a35a4569e4529a3cdfb74e38fd98631"
definition TOKEN_CBETH :: address where "TOKEN_CBETH = 0x2ae3f1ec7f1f5012cfeab0185bfc7aa3cf0dec22"
definition TOKEN_DAI :: address where "TOKEN_DAI = 0x50c5725949a6f0c72e6c4a641f24049a917db0cb"
definition TOKEN_DEGEN :: address where "TOKEN_DEGEN = 0x4ed4e862860bed51a9570b96d89af5e1b0efefed"
definition TOKEN_USDT :: address where "TOKEN_USDT = 0xfde4c96c8593536e31f229ea8f37b2ada2699bb2"
definition TOKEN_BRETT :: address where "TOKEN_BRETT = 0x532f27101965dd16442e59d40670fa5ad5f3fe91"
definition TOKEN_USDC :: address where "TOKEN_USDC = 0x833589fcd6edb6e08f4c7c32d4f71b54bda02913"
definition TOKEN_CBBTC :: address where "TOKEN_CBBTC = 0xcbb7c0000ab88b473b1f5afd9ef808440eed33bf"
definition TOKEN_LINK :: address where "TOKEN_LINK = 0xf891170fd2a3634f0e215578566473d580fc2f9d"
definition TOKEN_UNI :: address where "TOKEN_UNI = 0x38924e59761668b37510074929346d5f1370cc9c"
definition TOKEN_VIRTUAL :: address where "TOKEN_VIRTUAL = 0x0bfbcf9fa4f9c56b0f40a671ad40e0805a091865"
definition TOKEN_LUNA :: address where "TOKEN_LUNA = 0xd533a949740bb3306d119cc777fa900ba034cd52"
definition TOKEN_AI16Z :: address where "TOKEN_AI16Z = 0x30c90069678174577b0ac49969d7070f7915b597"
definition POOL_UNIV3_WETH_USDC_005 :: address where "POOL_UNIV3_WETH_USDC_005 = 0xd0b53d9277642d899df5c87a3966a349a798f224"
definition POOL_UNIV3_WETH_USDC_030 :: address where "POOL_UNIV3_WETH_USDC_030 = 0x4c36388be6f416a29c8d8eee819bb35ed3737a01"
definition POOL_BASESWAP_WETH_USDC :: address where "POOL_BASESWAP_WETH_USDC = 0x7e3411b04766089cfaa52db688855356a12f05d1"
definition POOL_SUSHI_WETH_USDC :: address where "POOL_SUSHI_WETH_USDC = 0x21943f679ed5f05329883584860d49c039237685"
definition POOL_PANCAKESWAP_WETH_USDC :: address where "POOL_PANCAKESWAP_WETH_USDC = 0xcdac0d6c6c59727a65f871236188350531885c43"
definition POOL_UNIV2_WETH_DEGEN :: address where "POOL_UNIV2_WETH_DEGEN = 0xc9034c3e7242654fd148e934814510d0e9436db4"
definition POOL_UNIV2_USDC_DEGEN :: address where "POOL_UNIV2_USDC_DEGEN = 0x4b0aaf3ebb163dd45f663b38b6d93f6093ebc2d3"
definition POOL_AERO_WETH_USDC :: address where "POOL_AERO_WETH_USDC = 0xcdac0d6c6c59727a65f871236188350531885c43"
definition POOL_AERO_WETH_AERO :: address where "POOL_AERO_WETH_AERO = 0x7f670f78b17dec44d5ef68a48740b6f8849cc2e6"
definition POOL_AERO_WETH_BRETT :: address where "POOL_AERO_WETH_BRETT = 0x532f27101965dd16442e59d40670fa5ad5f3fe91"
definition MOONWELL_COMPTROLLER :: address where "MOONWELL_COMPTROLLER = 0xbbbbbbbbbb9cc5e90e3b3af64bdaf62c37eeffcb"
definition MAX_ALPHA_LIQUIDITY_USD :: u128 where "MAX_ALPHA_LIQUIDITY_USD = 40000"
definition MAX_AI_TAX_BPS :: u64 where "MAX_AI_TAX_BPS = 100"
definition ESTIMATED_ETH_PRICE :: u128 where "ESTIMATED_ETH_PRICE = 2500"
definition POOL_HOTNESS_TTL_SEC :: u64 where "POOL_HOTNESS_TTL_SEC = 1800"
definition SELECTOR_UPGRADE_TO :: bytes where "SELECTOR_UPGRADE_TO = [0x36, 0x59, 0xcf, 0xe6]"
definition SELECTOR_UPGRADE_TO_AND_CALL :: bytes where "SELECTOR_UPGRADE_TO_AND_CALL = [0x4f, 0x1e, 0xf3, 0xd0]"
definition SELECTOR_SET_FEE :: bytes where "SELECTOR_SET_FEE = [0x1a, 0x6d, 0x05, 0x51]"
definition EVENT_V2_PAIR_CREATED :: b256 where "EVENT_V2_PAIR_CREATED = 0x0d3648bd0f6ba80134a33ba9275ac585d9d315f0ad835062d573067ad61d5733"
definition EVENT_V3_POOL_CREATED :: b256 where "EVENT_V3_POOL_CREATED = 0x783cca1c0412dd0d695e784568c96da2e9c22ffc959087dddeaf319803d01584"
definition SIMULATION_GAS_LIMIT :: u64 where "SIMULATION_GAS_LIMIT = 600000"
definition MAX_HOPS :: usize where "MAX_HOPS = 6"
definition MIN_BUILDER_TIP_WEI :: u128 where "MIN_BUILDER_TIP_WEI = 1000000000000"
definition MAX_BRIBE_PCT :: u32 where "MAX_BRIBE_PCT = 99"
definition DUST_THRESHOLD_WEI :: u128 where "DUST_THRESHOLD_WEI = 100000000000000"
definition MAX_SWEEP_GAS_PRICE_WEI :: u128 where "MAX_SWEEP_GAS_PRICE_WEI = 50000000"
definition MAX_BRANCH_LOSS_BPS :: u64 where "MAX_BRANCH_LOSS_BPS = 1000"
definition MAX_ALLOWED_TAX_BPS :: u64 where "MAX_ALLOWED_TAX_BPS = 300"
definition OPTIMISM_GAS_ORACLE :: address where "OPTIMISM_GAS_ORACLE = 0x420000000000000000000000000000000000000f"
definition GAS_VAULT_PERCENTAGE :: u64 where "GAS_VAULT_PERCENTAGE = 5"
definition MAX_BUILDER_LATENCY_MS :: u64 where "MAX_BUILDER_LATENCY_MS = 100"
definition MAX_NODE_LAG_SECONDS :: u64 where "MAX_NODE_LAG_SECONDS = 10"
definition MIN_UNIQUE_TRADERS :: usize where "MIN_UNIQUE_TRADERS = 5"
definition MICRO_PROFIT_THRESHOLD_WEI :: u128 where "MICRO_PROFIT_THRESHOLD_WEI = 10000000000000"
definition MIN_SEARCHER_BALANCE_WEI :: u128 where "MIN_SEARCHER_BALANCE_WEI = 500000000000000"
definition UNISWAP_V2_ROUTER :: address where "UNISWAP_V2_ROUTER = 0x7a250d5630b4cf539739df2c5dacb4c659f2488d"
definition BASE_UNISWAP_V3_ROUTER :: address where "BASE_UNISWAP_V3_ROUTER = 0x68b3465833fb72a70ecdf485e0e4c7bd8665fc45"
definition BASE_AERODROME_ROUTER :: address where "BASE_AERODROME_ROUTER = 0xcf77a3ba9a5da3999247b82c4b9d43c1a7fd7c8a"
definition BASE_AERODROME_FACTORY :: address where "BASE_AERODROME_FACTORY = 0x420dd381b31aef6683db6b902084c0bac2d1b5d5"
definition BASE_SUSHISWAP_FACTORY :: address where "BASE_SUSHISWAP_FACTORY = 0x71524b9573c8d199127e09e2108269128355eea0"
definition BASE_PANCAKESWAP_FACTORY :: address where "BASE_PANCAKESWAP_FACTORY = 0x0bfbcf9fa4f9c56b0f40a671ad40e0805a091865"
definition BASE_BASESWAP_FACTORY :: address where "BASE_BASESWAP_FACTORY = 0xfda619b6d20975be8074d3315450bbba58456b12"
definition BASE_MAVERICK_FACTORY :: address where "BASE_MAVERICK_FACTORY = 0x3708d64936496924f2b1853b0287515089304386"
definition BASE_UNISWAP_V3_ROUTER_SR2 :: address where "BASE_UNISWAP_V3_ROUTER_SR2 = 0x262136065839e9905e990867056e137f866a4839"
definition NETWORK_CONGESTION_GWEI :: u64 where "NETWORK_CONGESTION_GWEI = 300"

section \<open>Tables\<close>

definition TOP_100_POOLS :: "address set" where
  "TOP_100_POOLS = set [0xcdac0d6c6c59727a65f871236188350531885c43,
     0xd0b53d9277642d899df5c87a3966a349a798f224,
     0x4c36388be6f416a29c8d8eee819bb35ed3737a01,
     0x21943f679ed5f05329883584860d49c039237685,
     0x7e3411b04766089cfaa52db688855356a12f05d1,
     0xc9034c3e7242654fd148e934814510d0e9436db4,
     0x4b0aaf3ebb163dd45f663b38b6d93f6093ebc2d3,
     0x3062ad446da2cfdb10266e06bee30f33ba2a6b41,
     0xf0c57173e35181d061033a38166d5726c4a641f2,
     0x7f670f78b17dec44d5ef68a48740b6f8849cc2e6,
     0x532f27101965dd16442e59d40670fa5ad5f3fe91,
     0x2ae3f1ec7f1f5012cfeab0185bfc7aa3cf0dec22,
     0x420dd381b31aef6683db6b902084c0bac2d1b5d5,
     0x0bfbcf9fa4f9c56b0f40a671ad40e0805a091865,
     0x0bfbcf9fa4f9c56b0f40a671ad40e0805a091865,
     0x30c90069678174577b0ac49969d7070f7915b597,
     0x04c9f118a4864700721a163744021d21db27c11f,
     0x3d2d7681335a74be482d207137f814ba688849e8,
     0x532f27101965dd16442e59d40670fa5ad5f3fe91,
     0x4ed4e862860bed51a9570b96d89af5e1b0efefed]"

definition KNOWN_COMPETITORS :: "address set" where
  "KNOWN_COMPETITORS = set [0x000000000000084e0ad24b420f9bdb26b6fb0d0f]"

definition CORE_TOKENS :: "address set" where
  "CORE_TOKENS = set [TOKEN_WETH,
     TOKEN_USDC,
     TOKEN_DAI]"

definition CORE_POOLS :: "address set" where
  "CORE_POOLS = set [POOL_UNIV3_WETH_USDC_005,
     POOL_UNIV3_WETH_USDC_030,
     POOL_BASESWAP_WETH_USDC,
     POOL_SUSHI_WETH_USDC]"

definition SAFE_TOKENS :: "chain \<rightharpoonup> address list" where
  "SAFE_TOKENS = [Base \<mapsto> [0x4200000000000000000000000000000000000006,
     0x833589fcd6edb6e08f4c7c32d4f71b54bda02913,
     0x50c5725949a6f0c72e6c4a641f24049a917db0cb,
     0x940181a94a35a4569e4529a3cdfb74e38fd98631,
     0x4ed4e862860bed51a9570b96d89af5e1b0efefed]]"

definition BLACKLISTED_TOKENS :: "chain \<rightharpoonup> address set" where
  "BLACKLISTED_TOKENS = [Base \<mapsto> {}]"

definition BIDDING_TIERS :: "(u128 \<times> u64) list" where
  "BIDDING_TIERS =
     [(0, 5),
      (1000000000000000, 10),
      (10000000000000000, 20),
      (100000000000000000, 40),
      (1000000000000000000, 60)]"

definition TARGET_ROUTERS :: "address list" where
  "TARGET_ROUTERS =
     [BASE_AERODROME_ROUTER, BASE_UNISWAP_V3_ROUTER, BASE_UNISWAP_V3_ROUTER_SR2, MOONWELL_COMPTROLLER]"

definition GAS_VAULT_ADDRESS :: "address option" where
  "GAS_VAULT_ADDRESS = Some 0x54d444d3873fdffe7016ebb535388cef4983705b"

definition POOL_UNIV2_WETH_USDC :: address where "POOL_UNIV2_WETH_USDC = POOL_BASESWAP_WETH_USDC"

end
