(* ===== verification/Universal_Decoder.thy ===== *)
theory Universal_Decoder
  imports Abi_Readers Shadow_Constants
begin

text \<open>
  The calldata decoder of \<open>src/universal_decoder.rs\<close>: dispatch on the selector and one
  decoder per router family. Offsets come from the calldata and are added with wrap-around;
  every slice that can panic is an \<open>exec\<close>. A decoder that returns an \<open>Option\<close> is a
  \<open>reader\<close>, one that returns a vector a list \<open>exec\<close>.
\<close>

record decode_tx =
  dt_to :: "address option"
  dt_value :: u256
  dt_input :: bytes

datatype selector_method = V2 | AerodromeRoute | V2Eth | V3Single | UniversalRouter | UniswapXOrder

definition SELECTORS :: "u32 \<rightharpoonup> selector_method" where
  "SELECTORS =
     [0x38ed1739 \<mapsto> V2, 0x8803dbee \<mapsto> V2, 0x18cbafe5 \<mapsto> V2, 0x4a25d94a \<mapsto> V2,
      0xa1251d75 \<mapsto> AerodromeRoute, 0xcdf2de83 \<mapsto> AerodromeRoute, 0x15263a6a \<mapsto> AerodromeRoute,
      0x7ff36449 \<mapsto> V2Eth, 0xfb3bdb41 \<mapsto> V2Eth, 0x414bf389 \<mapsto> V3Single,
      0x3593564c \<mapsto> UniversalRouter, 0x8ae0693a \<mapsto> UniswapXOrder, 0x5b0d135a \<mapsto> UniswapXOrder]"

definition selector_of :: "bytes \<Rightarrow> u32" where
  "selector_of data = from_be_bytes (take 4 data)"

definition is_admin_call :: "bytes \<Rightarrow> bool exec" where
  "is_admin_call data =
     map_option (\<lambda>s. s = SELECTOR_UPGRADE_TO \<or> s = SELECTOR_UPGRADE_TO_AND_CALL \<or> s = SELECTOR_SET_FEE)
       (slice data 0 4)"

definition decoded_swap ::
  "dex_name \<Rightarrow> address \<Rightarrow> address \<Rightarrow> address \<Rightarrow> u256 \<Rightarrow> u256 \<Rightarrow> address \<Rightarrow> u32 option \<Rightarrow> swap_info" where
  "decoded_swap dex router token_in token_out amount_in amount_out_min recipient fee =
     \<lparr>si_dex = dex, si_router = router, si_token_in = token_in, si_token_out = token_out,
      si_amount_in = amount_in, si_amount_out_min = amount_out_min, si_to = recipient,
      si_fee = fee, si_permit2_nonce = None\<rparr>"

section \<open>V2 routers\<close>

definition path_len_ok :: "usize \<Rightarrow> bool" where
  "path_len_ok n \<longleftrightarrow> 2 \<le> n \<and> n \<le> 10"

definition decode_v2 :: "bytes \<Rightarrow> address \<Rightarrow> swap_info reader" where
  "decode_v2 data to =
     (if length data < 160 then Some None
      else try_read (read_u256 data 0) (\<lambda>amount_in.
           try_read (read_u256 data 32) (\<lambda>amount_out_min.
           try_read (read_usize data 64) (\<lambda>path_offset.
           try_read (read_usize data path_offset) (\<lambda>path_len.
             if \<not> path_len_ok path_len then Some None
             else let path_start = path_offset + 32 in
               if len_usize data < path_start + path_len * 32 then Some None
               else try_read (read_address data path_start) (\<lambda>token_in.
                    try_read (read_address data (path_start + (path_len - 1) * 32)) (\<lambda>token_out.
                    try_read (read_address data 96) (\<lambda>recipient.
                      Some (Some (decoded_swap NameUniswapV2 to token_in token_out amount_in
                        amount_out_min recipient None))))))))))"

definition decode_v2_eth :: "bytes \<Rightarrow> address \<Rightarrow> u256 \<Rightarrow> swap_info reader" where
  "decode_v2_eth data to value =
     (if length data < 128 then Some None
      else try_read (read_u256 data 0) (\<lambda>amount_out_min.
           try_read (read_usize data 32) (\<lambda>path_offset.
           try_read (read_address data 64) (\<lambda>recipient.
           try_read (read_usize data path_offset) (\<lambda>path_len.
             if \<not> path_len_ok path_len then Some None
             else let path_start = path_offset + 32 in
               try_read (read_address data path_start) (\<lambda>token_in.
               try_read (read_address data (path_start + (path_len - 1) * 32)) (\<lambda>token_out.
                 Some (Some (decoded_swap NameUniswapV2 to token_in token_out value amount_out_min
                   recipient None)))))))))"

section \<open>Aerodrome\<close>

definition aerodrome_head :: "u32 \<Rightarrow> bytes \<Rightarrow> u256 \<Rightarrow> (u256 \<times> u256 \<times> usize \<times> address) reader" where
  "aerodrome_head selector input value =
     (if selector = 0xcdf2de83 then
        (if length input < 96 then Some None
         else try_read (read_u256 input 0) (\<lambda>out_min.
              try_read (read_usize input 32) (\<lambda>off.
              try_read (read_address input 64) (\<lambda>rcp. Some (Some (value, out_min, off, rcp))))))
      else if selector = 0x15263a6a \<or> selector = 0xa1251d75 then
        (if length input < 128 then Some None
         else try_read (read_u256 input 0) (\<lambda>amt.
              try_read (read_u256 input 32) (\<lambda>out_min.
              try_read (read_usize input 64) (\<lambda>off.
              try_read (read_address input 96) (\<lambda>rcp. Some (Some (amt, out_min, off, rcp)))))))
      else Some None)"

definition decode_aerodrome :: "bytes \<Rightarrow> address \<Rightarrow> u256 \<Rightarrow> swap_info reader" where
  "decode_aerodrome data to value =
     (if length data < 4 then Some None
      else let input = drop 4 data in
        try_read (aerodrome_head (selector_of data) input value)
          (\<lambda>(amount_in, amount_out_min, routes_offset, recipient).
             try_read (read_usize input routes_offset) (\<lambda>routes_len.
               if routes_len = 0 then Some None
               else let route_start = routes_offset + 32 in
                 try_read (read_address input route_start) (\<lambda>token_in.
                   let final_route_idx = route_start + (routes_len - 1) * 96 in
                   try_read (read_address input (final_route_idx + 32)) (\<lambda>token_out.
                     Some (Some (decoded_swap NameAerodrome to token_in token_out amount_in
                       amount_out_min recipient None)))))))"

section \<open>V3\<close>

definition decode_v3_single :: "bytes \<Rightarrow> address \<Rightarrow> swap_info list exec" where
  "decode_v3_single data to =
     (if length data < 228 then Some []
      else do {
        let start = (if length data \<ge> 36 \<and> read_usize data 4 = Some (Some 32) then 36 else 4);
        token_in \<leftarrow> read_or (read_address data start) 0;
        token_out \<leftarrow> read_or (read_address data (start + 32)) 0;
        fee_word \<leftarrow> read_or (read_u256 data (start + 64)) 0;
        fee \<leftarrow> narrow fee_word;
        recipient \<leftarrow> read_or (read_address data (start + 96)) 0;
        amount_in \<leftarrow> read_or (read_u256 data (start + 160)) 0;
        amount_out_min \<leftarrow> read_or (read_u256 data (start + 192)) 0;
        Some [decoded_swap NameUniswapV3 to token_in token_out amount_in amount_out_min recipient (Some fee)]
      })"

section \<open>UniswapX\<close>

definition parse_uniswapx_order :: "bytes \<Rightarrow> usize \<Rightarrow> address \<Rightarrow> swap_info reader" where
  "parse_uniswapx_order data offset reactor =
     try_read (read_usize data offset) (\<lambda>order_ptr.
       let order_abs = offset + order_ptr in
       try_read (read_usize data order_abs) (\<lambda>order_len.
         case slice_at data (order_abs + 32) (min (order_abs + 32 + order_len) (len_usize data)) of
           None \<Rightarrow> None
         | Some p \<Rightarrow>
             if length p < 160 then Some None
             else try_read (read_address p 192) (\<lambda>token_in.
                  try_read (read_u256 p 204) (\<lambda>amount_in.
                  try_read (read_usize p 288) (\<lambda>outputs_abs.
                    if len_usize p < outputs_abs + 64 then Some None
                    else try_read (read_usize p outputs_abs) (\<lambda>outputs_len.
                      if outputs_len = 0 then Some None
                      else let first = outputs_abs + 32 in
                        try_read (read_address p first) (\<lambda>token_out.
                        try_read (read_u256 p (first + 12)) (\<lambda>amount_out_min.
                        try_read (read_address p (first + 76)) (\<lambda>recipient.
                          Some (Some (decoded_swap UniswapX reactor token_in token_out amount_in
                            amount_out_min recipient None)))))))))))"

fun batch_orders :: "bytes \<Rightarrow> usize \<Rightarrow> address \<Rightarrow> usize list \<Rightarrow> swap_info list exec" where
  "batch_orders data array_start reactor [] = Some []"
| "batch_orders data array_start reactor (i # is) = do {
     ptr \<leftarrow> read_usize data (array_start + 32 + i * 32);
     info \<leftarrow> (case ptr of None \<Rightarrow> Some None
              | Some rel \<Rightarrow> parse_uniswapx_order data (array_start + rel) reactor);
     rest \<leftarrow> batch_orders data array_start reactor is;
     Some ((case info of Some s \<Rightarrow> [s] | None \<Rightarrow> []) @ rest)
   }"

definition decode_uniswapx :: "bytes \<Rightarrow> address \<Rightarrow> swap_info list exec" where
  "decode_uniswapx data reactor =
     (if length data < 128 then Some []
      else let selector = selector_of data in
        if selector = 0x8ae0693a then
          map_option (\<lambda>r. case r of Some s \<Rightarrow> [s] | None \<Rightarrow> []) (parse_uniswapx_order data 4 reactor)
        else if selector = 0x5b0d135a then
          (case read_usize data 4 of
             Some (Some array_offset) \<Rightarrow>
               let array_start = array_offset + 4 in
               (case read_usize data array_start of
                  Some (Some len) \<Rightarrow>
                    batch_orders data array_start reactor (map word_of_nat [0..<unat (min len 5)])
                | Some None \<Rightarrow> Some []
                | None \<Rightarrow> None)
           | Some None \<Rightarrow> Some []
           | None \<Rightarrow> None)
        else Some [])"

section \<open>The universal router\<close>

definition router_command :: "bytes \<Rightarrow> address \<Rightarrow> u8 \<Rightarrow> swap_info list exec" where
  "router_command inp to cmd =
     (if length inp < 160 then Some []
      else do {
        recipient \<leftarrow> read_or (read_address inp 0) 0;
        amount_in \<leftarrow> read_or (read_u256 inp 32) 0;
        amount_out_min \<leftarrow> read_or (read_u256 inp 64) 0;
        path_off \<leftarrow> read_or (read_usize inp 96) 0;
        path_len \<leftarrow> read_or (read_usize inp path_off) 0;
        let path_ptr = path_off + 32;
        if cmd = 0x00 \<and> len_usize inp \<ge> path_ptr + path_len \<and> path_len \<ge> 43 then do {
          pb \<leftarrow> slice_at inp path_ptr (path_ptr + path_len);
          Some [decoded_swap NameUniswapV3 to (from_be_bytes (take 20 pb)) (from_be_bytes (take 20 (drop 23 pb)))
                  amount_in amount_out_min recipient (Some (fee_bytes (take 3 (drop 20 pb))))]
        } else if cmd = 0x08 \<and> path_len \<ge> 2 \<and> len_usize inp \<ge> path_ptr + path_len * 32 then do {
          token_in \<leftarrow> read_or (read_address inp path_ptr) 0;
          token_out \<leftarrow> read_or (read_address inp (path_ptr + (path_len - 1) * 32)) 0;
          Some [decoded_swap NameUniswapV2 to token_in token_out amount_in amount_out_min recipient None]
        } else Some []
      })"

fun router_commands :: "bytes \<Rightarrow> address \<Rightarrow> usize \<Rightarrow> usize \<Rightarrow> bytes \<Rightarrow> swap_info list exec" where
  "router_commands data to inputs_ptr idx [] = Some []"
| "router_commands data to inputs_ptr idx (cmd # cmds) = do {
     off \<leftarrow> read_or (read_usize data (inputs_ptr + 32 + idx * 32)) 0;
     let start = inputs_ptr + off;
     here \<leftarrow>
       (if start + 32 > len_usize data then Some []
        else do {
          len \<leftarrow> read_or (read_usize data start) 0;
          let slice_start = start + 32;
          if slice_start + len > len_usize data then Some []
          else do {
            inp \<leftarrow> slice_at data slice_start (slice_start + len);
            router_command inp to cmd
          }
        });
     rest \<leftarrow> router_commands data to inputs_ptr (idx + 1) cmds;
     Some (here @ rest)
   }"

definition decode_universal_router :: "bytes \<Rightarrow> address \<Rightarrow> swap_info list exec" where
  "decode_universal_router calldata to =
     (if length calldata < 4 then Some []
      else let data = drop 4 calldata in
        if length data < 96 then Some []
        else do {
          cmds_ptr \<leftarrow> read_or (read_usize data 0) 0;
          cmds_len \<leftarrow> read_or (read_usize data cmds_ptr) 0;
          let cmds_start = cmds_ptr + 32;
          if cmds_start + cmds_len > len_usize data then Some []
          else do {
            commands \<leftarrow> slice_at data cmds_start (cmds_start + cmds_len);
            inputs_ptr \<leftarrow> read_or (read_usize data 32) 0;
            router_commands data to inputs_ptr 0 commands
          }
        })"

section \<open>Dispatch\<close>

definition as_list :: "swap_info reader \<Rightarrow> swap_info list exec" where
  "as_list r = map_option (\<lambda>x. case x of Some s \<Rightarrow> [s] | None \<Rightarrow> []) r"

definition decode :: "decode_tx \<Rightarrow> swap_info list exec" where
  "decode tx =
     (let data = dt_input tx in
      if length data < 4 then Some []
      else let to = (case dt_to tx of Some a \<Rightarrow> a | None \<Rightarrow> 0) in
        case SELECTORS (selector_of data) of
          Some V2 \<Rightarrow> as_list (decode_v2 (drop 4 data) to)
        | Some AerodromeRoute \<Rightarrow> as_list (decode_aerodrome data to (dt_value tx))
        | Some V2Eth \<Rightarrow> as_list (decode_v2_eth (drop 4 data) to (dt_value tx))
        | Some V3Single \<Rightarrow> decode_v3_single data to
        | Some UniversalRouter \<Rightarrow> decode_universal_router data to
        | Some UniswapXOrder \<Rightarrow> decode_uniswapx data to
        | None \<Rightarrow> Some [])"

end
