(* ===== verification/Decoder_Facts.thy ===== *)
theory Decoder_Facts
  imports Universal_Decoder
begin

text \<open>
  What the decoder guarantees: the V2 decoder inverts the ABI encoding and never panics on any
  calldata, packed V3 paths round-trip, and the inputs on which other decoders panic.
\<close>

section \<open>Reading a slot back\<close>

lemma be_digits_split: "be_digits (m + k) v = be_digits m (v div 256 ^ k) @ be_digits k v"
proof (induction k arbitrary: v)
  case (Suc k)
  have "be_digits (m + Suc k) v = be_digits (m + k) (v div 256) @ [word_of_nat v]" by simp
  also have "be_digits (m + k) (v div 256) = be_digits m (v div 256 div 256 ^ k) @ be_digits k (v div 256)"
    by (rule Suc)
  also have "v div 256 div 256 ^ k = v div 256 ^ Suc k"
    by (simp only: power_Suc div_mult2_eq)
  finally show ?case by simp
qed simp

definition slot_address :: "address \<Rightarrow> bytes" where
  "slot_address a = replicate 12 0 @ to_be_bytes a"

definition slot_nat :: "nat \<Rightarrow> bytes" where
  "slot_nat n = to_be_bytes (word_of_nat n :: u256)"

lemma length_slots [simp]: "length (slot_address a) = 32" "length (slot_nat n) = 32"
  by (simp_all add: slot_address_def slot_nat_def)

lemma unat_usize: "n < 2 ^ 63 \<Longrightarrow> unat (word_of_nat n :: usize) = n"
  by (rule unat_of_nat_nowrap) simp

lemma read_u256_at:
  assumes "length (pre @ to_be_bytes (w :: u256) @ post) < 2 ^ 62" and "offset = word_of_nat (length pre)"
  shows "read_u256 (pre @ to_be_bytes w @ post) offset = Some (Some w)"
proof -
  have "unat offset = length pre" using assms by (simp add: unat_usize)
  then show ?thesis using assms(1) by (subst read_u256_cases) simp_all
qed

lemma read_address_at:
  assumes "length (pre @ slot_address a @ post) < 2 ^ 62" and "offset = word_of_nat (length pre)"
  shows "read_address (pre @ slot_address a @ post) offset = Some (Some a)"
proof -
  let ?data = "pre @ slot_address a @ post"
  have o: "unat offset = length pre" using assms by (simp add: unat_usize)
  have s: "unat (offset + 12) = length pre + 12"
    using assms(1) o by (simp add: unat_offsets)
  have "offset + 12 + 20 = offset + 32" by simp
  then have e: "unat (offset + 12 + 20) = length pre + 32"
    using assms(1) o unat_offset [of 32 offset] by (simp only:) simp
  have "slice_at ?data (offset + 12) (offset + 12 + 20) = Some (to_be_bytes a)"
    unfolding slice_at_def s e slice_def using assms(1) by (simp add: slot_address_def)
  moreover have "\<not> offset + 12 + 20 > len_usize ?data"
    using assms(1) e by (simp add: word_less_nat_alt unat_len_usize)
  ultimately show ?thesis by (simp add: read_address_def Let_def)
qed

lemma slot_nat_low: "n < 2 ^ 64 \<Longrightarrow> drop 24 (slot_nat n) = to_be_bytes (word_of_nat n :: usize)"
proof -
  assume n: "n < 2 ^ 64"
  then have "n < 2 ^ 256" by (rule less_trans) simp
  then have "unat (word_of_nat n :: u256) = n" by (intro unat_of_nat_nowrap) simp
  moreover have "unat (word_of_nat n :: usize) = n" using n by (intro unat_of_nat_nowrap) simp
  ultimately show ?thesis
    using be_digits_split [of 24 8 n] by (simp add: slot_nat_def to_be_bytes_def)
qed

lemma usize_bytes: "from_be_bytes (to_be_bytes (w :: usize)) = w"
  by (rule from_to_be_bytes) simp

lemma read_usize_at:
  assumes "length (pre @ slot_nat n @ post) < 2 ^ 62" and "offset = word_of_nat (length pre)" and "n < 2 ^ 63"
  shows "read_usize (pre @ slot_nat n @ post) offset = Some (Some (word_of_nat n))"
proof -
  let ?data = "pre @ slot_nat n @ post"
  have o: "unat offset = length pre" using assms by (simp add: unat_usize)
  have s: "unat (offset + 24) = length pre + 24" and e: "unat (offset + 32) = length pre + 32"
    using assms(1) o by (simp_all add: unat_offsets)
  have "n < 2 ^ 64" using assms(3) by simp
  then have "slice_at ?data (offset + 24) (offset + 32) = Some (to_be_bytes (word_of_nat n :: usize))"
    unfolding slice_at_def s e slice_def using assms(1) slot_nat_low by simp
  then show ?thesis by (simp add: read_usize_def usize_bytes)
qed

section \<open>The V2 calldata of the ABI\<close>

definition v2_calldata :: "u256 \<Rightarrow> u256 \<Rightarrow> address list \<Rightarrow> address \<Rightarrow> u256 \<Rightarrow> bytes" where
  "v2_calldata amount_in amount_out_min path recipient deadline =
     to_be_bytes amount_in @ to_be_bytes amount_out_min @ slot_nat 160 @ slot_address recipient @
     to_be_bytes deadline @ slot_nat (length path) @ concat (map slot_address path)"

lemma length_path_slots [simp]: "length (concat (map slot_address path)) = 32 * length path"
  by (induction path) simp_all

lemma nth_path_slot:
  "i < length path \<Longrightarrow> concat (map slot_address path) =
    concat (map slot_address (take i path)) @ slot_address (path ! i) @ concat (map slot_address (drop (Suc i) path))"
  by (metis id_take_nth_drop map_append list.map(2) concat_append concat.simps(2))

lemma read_path_slot:
  assumes "i < length path" and "length pre + 32 * length path < 2 ^ 60"
    and "offset = word_of_nat (length pre + 32 * i)"
  shows "read_address (pre @ concat (map slot_address path)) offset = Some (Some (path ! i))"
proof -
  let ?l = "pre @ concat (map slot_address (take i path))"
    and ?r = "concat (map slot_address (drop (Suc i) path))"
  have eq: "pre @ concat (map slot_address path) = ?l @ slot_address (path ! i) @ ?r"
    using nth_path_slot [OF assms(1)] by simp
  have "length (?l @ slot_address (path ! i) @ ?r) < 2 ^ 62"
    unfolding eq [symmetric] using assms(2) by simp
  then show ?thesis
    unfolding eq by (rule read_address_at) (use assms in simp)
qed

text \<open>The words of the calldata, for a path of any length there is memory for.\<close>

lemma v2_calldata_words:
  fixes amount_in amount_out_min deadline :: u256 and recipient :: address
  assumes "length path < 2 ^ 50"
  defines "data \<equiv> v2_calldata amount_in amount_out_min path recipient deadline"
  shows "length data = 192 + 32 * length path" and "read_u256 data 0 = Some (Some amount_in)"
    and "read_u256 data 32 = Some (Some amount_out_min)" and "read_usize data 64 = Some (Some 160)"
    and "read_address data 96 = Some (Some recipient)" and "read_usize data 160 = Some (Some (word_of_nat (length path)))"
proof -
  note d = data_def v2_calldata_def
  show "length data = 192 + 32 * length path" by (simp add: d)
  show "read_u256 data 0 = Some (Some amount_in)"
    using read_u256_at [of "[]" amount_in _ 0] assms(1) by (simp add: d)
  show "read_u256 data 32 = Some (Some amount_out_min)"
    using read_u256_at [of "to_be_bytes amount_in" amount_out_min _ 32] assms(1) by (simp add: d)
  show "read_usize data 64 = Some (Some 160)"
    using read_usize_at [of "to_be_bytes amount_in @ to_be_bytes amount_out_min" 160 _ 64] assms(1) by (simp add: d)
  show "read_address data 96 = Some (Some recipient)"
    using read_address_at [of "to_be_bytes amount_in @ to_be_bytes amount_out_min @ slot_nat 160" recipient _ 96] assms(1)
    by (simp add: d)
  show "read_usize data 160 = Some (Some (word_of_nat (length path)))"
    using read_usize_at [of "to_be_bytes amount_in @ to_be_bytes amount_out_min @ slot_nat 160 @
        slot_address recipient @ to_be_bytes deadline" "length path" _ 160] assms(1) by (simp add: d)
qed

lemma decode_v2_long:
  assumes "10 < length path" and "length path < 2 ^ 50"
  shows "decode_v2 (v2_calldata amount_in amount_out_min path recipient deadline) to = Some None"
proof -
  have "unat (word_of_nat (length path) :: usize) = length path" using assms(2) by (intro unat_usize) simp
  then have "\<not> path_len_ok (word_of_nat (length path))" using assms(1) by (simp add: path_len_ok_def word_le_nat_alt)
  then show ?thesis using v2_calldata_words [OF assms(2)] by (simp add: decode_v2_def)
qed

lemma decode_v2_calldata:
  assumes "2 \<le> length path" and "length path \<le> 10"
  shows "decode_v2 (v2_calldata amount_in amount_out_min path recipient deadline) to =
    Some (Some (decoded_swap NameUniswapV2 to (hd path) (last path) amount_in amount_out_min recipient None))"
proof -
  let ?n = "length path"
  let ?data = "v2_calldata amount_in amount_out_min path recipient deadline"
  have ne: "path \<noteq> []" using assms by auto
  have short: "length path < 2 ^ 50" using assms by simp
  note words = v2_calldata_words [OF short, of amount_in amount_out_min recipient deadline]
  let ?pre = "to_be_bytes amount_in @ to_be_bytes amount_out_min @ slot_nat 160 @
        slot_address recipient @ to_be_bytes deadline @ slot_nat ?n"
  have pre: "?data = ?pre @ concat (map slot_address path)" "length ?pre = 192"
    by (simp_all add: v2_calldata_def)
  have r5: "read_address ?data 192 = Some (Some (hd path))"
    unfolding pre(1) using read_path_slot [of 0 path ?pre 192] assms by (cases path) simp_all
  have n: "unat (word_of_nat ?n :: usize) = ?n" using assms by (intro unat_usize) simp
  have last_off: "(192 + (word_of_nat ?n - 1) * 32 :: usize) = word_of_nat (length ?pre + 32 * (?n - 1))"
    using assms by (simp add: pre(2) of_nat_diff algebra_simps)
  have r6: "read_address ?data (192 + (word_of_nat ?n - 1) * 32) = Some (Some (last path))"
    unfolding last_off pre(1) using assms
    by (subst read_path_slot [OF _ _ refl]) (auto simp: last_conv_nth [OF ne])
  have ok: "path_len_ok (word_of_nat ?n)"
    using assms n by (simp add: path_len_ok_def word_le_nat_alt)
  have "unat (192 + word_of_nat ?n * 32 :: usize) = 192 + 32 * ?n"
  proof -
    have "(192 + word_of_nat ?n * 32 :: usize) = word_of_nat (192 + 32 * ?n)" by (simp add: mult.commute)
    then show ?thesis using assms by (simp only:) (rule unat_usize, simp)
  qed
  then have fits: "\<not> len_usize ?data < 192 + word_of_nat ?n * 32"
    using words(1) assms by (simp add: word_less_nat_alt unat_len_usize)
  show ?thesis
    using words r5 r6 ok fits by (simp add: decode_v2_def Let_def)
qed

section \<open>Panic freedom of the V2 decoders\<close>

lemma read_u256_no_panic:
  "unat offset + 32 < 2 ^ 64 \<Longrightarrow> length data < 2 ^ 63 \<Longrightarrow> \<exists>r. read_u256 data offset = Some r"
  by (simp add: read_u256_cases)

lemma read_address_no_panic:
  assumes "unat offset + 32 < 2 ^ 64" and "length data < 2 ^ 63"
  shows "\<exists>r. read_address data offset = Some r"
proof -
  have s: "unat (offset + 12) = unat offset + 12" using assms(1) by (simp add: unat_offsets)
  have "offset + 12 + 20 = offset + 32" by simp
  then have e: "unat (offset + 12 + 20) = unat offset + 32"
    using assms(1) unat_offset [of 32 offset] by (simp only:) simp
  then show ?thesis
    using assms(2) s
    by (auto simp: read_address_def slice_at_def slice_def word_less_nat_alt unat_len_usize Let_def)
qed

text \<open>A length that was read at an offset bounds the offset: the reader's range did not wrap
  past the end of the data, or wrapped to its very start.\<close>

lemma read_usize_offset:
  assumes "read_usize data offset = Some (Some n)" and "length data < 2 ^ 63"
  shows "unat (offset + 32) \<le> length data"
  using assms by (auto simp: read_usize_def slice_at_def slice_def split: if_splits)

lemma unat_small_sum:
  "unat x + unat y < 2 ^ 64 \<Longrightarrow> unat (x + y :: usize) = unat x + unat y"
  by (rule unat_add_nowrap) simp

lemma last_slot:
  assumes "path_len_ok n" and "unat start < 2 ^ 63 + 1"
  shows "unat (start + (n - 1) * 32) = unat start + (unat n - 1) * 32"
proof -
  have n: "2 \<le> unat n" "unat n \<le> 10" using assms(1) by (simp_all add: path_len_ok_def word_le_nat_alt)
  then have m: "unat (n - 1) = unat n - 1" by (subst unat_sub_nowrap) simp_all
  then have "unat ((n - 1) * 32) = (unat n - 1) * 32"
    using n by (subst unat_mult_nowrap) simp_all
  then show ?thesis using n assms(2) by (subst unat_small_sum) simp_all
qed

lemma path_reads_no_panic:
  assumes "read_usize data path_offset = Some (Some n)" and "length data < 2 ^ 62" and "path_len_ok n"
  shows "\<exists>r. read_address data (path_offset + 32) = Some r"
    and "\<exists>r. read_address data (path_offset + 32 + (n - 1) * 32) = Some r"
proof -
  have start: "unat (path_offset + 32) < 2 ^ 62"
    using read_usize_offset [OF assms(1)] assms(2) by simp
  then show "\<exists>r. read_address data (path_offset + 32) = Some r"
    using assms(2) by (intro read_address_no_panic) simp_all
  have "unat n \<le> 10" using assms(3) by (simp add: path_len_ok_def word_le_nat_alt)
  moreover have "unat (path_offset + 32 + (n - 1) * 32) = unat (path_offset + 32) + (unat n - 1) * 32"
    using start by (intro last_slot assms(3)) simp
  ultimately show "\<exists>r. read_address data (path_offset + 32 + (n - 1) * 32) = Some r"
    using start assms(2) by (intro read_address_no_panic) simp_all
qed

lemma path_last_no_panic:
  assumes "read_usize data path_offset = Some (Some n)" and "length data < 2 ^ 62" and "path_len_ok n"
  shows "\<exists>r. read_address data (path_offset + n * 32) = Some r"
proof -
  have "path_offset + n * 32 = path_offset + 32 + (n - 1) * 32" by (simp add: algebra_simps)
  with path_reads_no_panic(2) [OF assms] show ?thesis by (simp only:)
qed

lemma try_read_total:
  "\<exists>r. x = Some r \<Longrightarrow> (\<And>a. x = Some (Some a) \<Longrightarrow> \<exists>r. f a = Some r) \<Longrightarrow> \<exists>r. try_read x f = Some r"
  by (auto simp: try_read_def split: option.splits)

lemma decode_v2_total:
  assumes "length data < 2 ^ 62"
  shows "\<exists>r. decode_v2 data to = Some r"
  using assms unfolding decode_v2_def Let_def
  by (auto intro!: try_read_total read_u256_no_panic read_usize_total path_reads_no_panic(1)
      path_last_no_panic read_address_no_panic [of 64] read_address_no_panic [of 96])

lemma decode_v2_eth_total:
  assumes "length data < 2 ^ 62"
  shows "\<exists>r. decode_v2_eth data to value = Some r"
  using assms unfolding decode_v2_eth_def Let_def
  by (auto intro!: try_read_total read_u256_no_panic read_usize_total path_reads_no_panic(1)
      path_last_no_panic read_address_no_panic [of 64] read_address_no_panic [of 96])

section \<open>Packed V3 paths\<close>

definition packed_hop :: "u32 \<times> address \<Rightarrow> bytes" where
  "packed_hop h = be_digits 3 (unat (fst h)) @ to_be_bytes (snd h)"

fun hop_triples :: "address \<Rightarrow> (u32 \<times> address) list \<Rightarrow> (address \<times> u32 \<times> address) list" where
  "hop_triples a [] = []"
| "hop_triples a ((f, b) # hs) = (a, f, b) # hop_triples b hs"

lemma fee_bytes_digits: "unat f < 2 ^ 24 \<Longrightarrow> fee_bytes (be_digits 3 (unat f)) = f"
proof -
  assume f: "unat f < 2 ^ 24"
  have "be_value (0 # bs) = be_value bs" for bs by (simp add: be_value_def)
  then have "be_value (0 # be_digits 3 (unat f)) = unat f"
    using f by (simp only: be_value_digits) simp
  then show ?thesis by (simp add: fee_bytes_def from_be_bytes_def)
qed

lemma v3_path_packed:
  assumes "\<forall>h \<in> set hs. unat (fst h) < 2 ^ 24"
  shows "v3_path_from (to_be_bytes a @ concat (map packed_hop hs)) = hop_triples a hs"
  using assms
proof (induction hs arbitrary: a)
  case Nil
  then show ?case by (simp add: v3_path_from.simps)
next
  case (Cons h hs)
  obtain f b where h: "h = (f, b)" by (cases h)
  have eq: "to_be_bytes a @ concat (map packed_hop (h # hs)) =
      to_be_bytes a @ be_digits 3 (unat f) @ to_be_bytes b @ concat (map packed_hop hs)"
    by (simp add: h packed_hop_def)
  have "fee_bytes (be_digits 3 (unat f)) = f" using Cons.prems h by (intro fee_bytes_digits) simp
  then show ?case
    unfolding eq using Cons h by (subst v3_path_from.simps) simp
qed

lemma be_value_to_be_bytes: "be_value (to_be_bytes (w :: u256)) = unat w"
  using unat_u256 [of w] by (simp add: to_be_bytes_def be_value_digits)

lemma be_value_zeros: "be_value (replicate n 0) = 0"
  by (induction n) (simp_all add: be_value_def)

section \<open>Properties\<close>

text \<open>C31 The decoder reads the ABI layout the four V2 selectors share (two amounts, the path, the recipient, the
  deadline): from a path of two to ten tokens it takes the first word as the amount in, the second as the least
  amount out, the recipient, the first token as input and the last as output; a longer path, up to \<open>2 ^ 50\<close> tokens, gives nothing. For
  0x38ed1739 and 0x18cbafe5 that is what the words mean; for 0x8803dbee and 0x4a25d94a the first word is the exact
  amount out and the second the most to be paid, so the two are mistaken for each other.\<close>

theorem v2_calldata_roundtrip:
  fixes selector :: u32
  assumes "selector \<in> {0x38ed1739, 0x18cbafe5, 0x8803dbee, 0x4a25d94a}" and "2 \<le> length path" and "length path < 2 ^ 50"
  shows "decode \<lparr>dt_to = Some router, dt_value = value,
      dt_input = to_be_bytes selector @ v2_calldata first second path recipient deadline\<rparr> =
    Some (if length path \<le> 10 then [decoded_swap NameUniswapV2 router (hd path) (last path) first second recipient None] else [])"
proof -
  have "selector_of (to_be_bytes selector @ xs) = selector" for xs
    by (simp add: selector_of_def from_to_be_bytes)
  moreover have "SELECTORS selector = Some V2" using assms(1) by (auto simp: SELECTORS_def)
  ultimately show ?thesis
    using decode_v2_calldata [OF assms(2)] decode_v2_long [OF _ assms(3)] by (simp add: decode_def as_list_def)
qed

theorem v2_calldata_roundtrip_witness:
  "decode \<lparr>dt_to = Some 9, dt_value = 0,
      dt_input = to_be_bytes (0x38ed1739 :: u32) @ v2_calldata 1000 900 [TOKEN_WETH, 5, TOKEN_USDC] 7 99\<rparr> =
    Some [decoded_swap NameUniswapV2 9 TOKEN_WETH TOKEN_USDC 1000 900 7 None] \<and>
   decode \<lparr>dt_to = Some 9, dt_value = 0,
      dt_input = to_be_bytes (0x8803dbee :: u32) @ v2_calldata 1000 1100 [TOKEN_WETH, TOKEN_USDC] 7 99\<rparr> =
    Some [decoded_swap NameUniswapV2 9 TOKEN_WETH TOKEN_USDC 1000 1100 7 None] \<and>
   decode \<lparr>dt_to = Some 9, dt_value = 0,
      dt_input = to_be_bytes (0x18cbafe5 :: u32) @ v2_calldata 1000 900 (replicate 11 TOKEN_WETH) 7 99\<rparr> = Some []"
  using v2_calldata_roundtrip [of "0x38ed1739" "[TOKEN_WETH, 5, TOKEN_USDC]" 9 0 1000 900 7 99]
    v2_calldata_roundtrip [of "0x8803dbee" "[TOKEN_WETH, TOKEN_USDC]" 9 0 1000 1100 7 99]
    v2_calldata_roundtrip [of "0x18cbafe5" "replicate 11 TOKEN_WETH" 9 0 1000 900 7 99]
  by simp

text \<open>The V2 decoders never panic: whatever the calldata says about offsets and lengths, the
  token and the ETH variant both return, for any data below \<open>2 ^ 62\<close> bytes.\<close>

theorem v2_decoders_never_panic:
  assumes "length data < 2 ^ 62"
  shows "decode_v2 data to \<noteq> None \<and> decode_v2_eth data to value \<noteq> None"
  using decode_v2_total [OF assms] decode_v2_eth_total [OF assms] by auto

theorem v2_decoders_never_panic_witness:
  "decode_v2 (replicate 160 0xff) 1 \<noteq> None \<and> decode_v2_eth (replicate 160 0xff) 1 2 \<noteq> None"
  using v2_decoders_never_panic [of "replicate 160 0xff"] by simp

text \<open>C32 Packed V3 paths round-trip: decoding an encoded path of at least one hop, with 24-bit
  fees, gives the token pairs and fees in order.\<close>

theorem v3_path_roundtrip:
  assumes "hs \<noteq> []" and "\<forall>h \<in> set hs. unat (fst h) < 2 ^ 24"
  shows "fast_decode_v3_path (to_be_bytes a @ concat (map packed_hop hs)) = hop_triples a hs"
proof -
  obtain h hs' where "hs = h # hs'" using assms(1) by (cases hs) auto
  then have "43 \<le> length (to_be_bytes a @ concat (map packed_hop hs))"
    by (simp add: packed_hop_def)
  with v3_path_packed [OF assms(2)] show ?thesis by (simp add: fast_decode_v3_path_def)
qed

theorem v3_path_roundtrip_witness:
  "fast_decode_v3_path (to_be_bytes TOKEN_WETH @ concat (map packed_hop [(500, TOKEN_USDC), (3000, 5)])) =
    [(TOKEN_WETH, 500, TOKEN_USDC), (TOKEN_USDC, 3000, 5)]"
  using v3_path_roundtrip [of "[(500, TOKEN_USDC), (3000, 5)]" TOKEN_WETH] by simp

text \<open>The V3 decoder panics on a fee field that does not fit in 32 bits: one malformed pending
  transaction of the \<open>exactInputSingle\<close> selector ends the process.\<close>

theorem decode_v3_fee_panics:
  assumes "length data < 2 ^ 62" and "228 \<le> length data" and "read_usize data 4 \<noteq> Some (Some 32)"
    and "2 ^ 32 \<le> be_value (take 32 (drop 68 data))"
  shows "decode_v3_single data to = None"
proof -
  have addr: "\<exists>r. read_address data k = Some r" if "k = 4 \<or> k = 36" for k
    using that assms(1) by (intro read_address_no_panic) auto
  have fee: "read_u256 data 68 = Some (Some (from_be_bytes (take 32 (drop 68 data))))"
    using assms(1,2) by (subst read_u256_cases) simp_all
  have "be_value (take 32 (drop 68 data)) < 256 ^ length (take 32 (drop 68 data))"
    by (rule be_value_bound)
  then have "be_value (take 32 (drop 68 data)) < 2 ^ 256" using assms(2) by simp
  then have "unat (from_be_bytes (take 32 (drop 68 data)) :: u256) = be_value (take 32 (drop 68 data))"
    unfolding from_be_bytes_def by (intro unat_of_nat_nowrap) simp
  then have "(narrow (from_be_bytes (take 32 (drop 68 data)) :: u256) :: u32 exec) = None"
    using assms(4) by (simp add: narrow_def)
  moreover obtain x y where "read_address data 4 = Some x" "read_address data 36 = Some y"
    using addr [of 4] addr [of 36] by auto
  ultimately show ?thesis
    using assms(2,3) fee by (cases x; cases y) (simp_all add: decode_v3_single_def)
qed

theorem decode_v3_fee_panics_witness:
  "decode_v3_single (replicate 68 0 @ to_be_bytes (2 ^ 40 :: u256) @ replicate 128 0) 0 = None"
  using decode_v3_fee_panics [of "replicate 68 0 @ to_be_bytes (2 ^ 40 :: u256) @ replicate 128 0" 0]
  by (simp add: be_value_to_be_bytes read_usize_def slice_at_def slice_def from_be_bytes_def be_value_zeros)

text \<open>The table has no entry for \<open>swapExactETHForTokens\<close>: calldata with that selector,
  \<open>0x7ff36ab5\<close> as the constants module also has it, is decoded to nothing.\<close>

theorem eth_swap_not_recognised:
  assumes "dt_input tx = [0x7f, 0xf3, 0x6a, 0xb5] @ args"
  shows "decode tx = Some []"
  using assms by (simp add: decode_def selector_of_def from_be_bytes_def be_value_def SELECTORS_def)

theorem eth_swap_not_recognised_witness:
  "decode \<lparr>dt_to = None, dt_value = 5, dt_input = [0x7f, 0xf3, 0x6a, 0xb5] @ replicate 128 0\<rparr> = Some []"
  using eth_swap_not_recognised [of "\<lparr>dt_to = None, dt_value = 5, dt_input = [0x7f, 0xf3, 0x6a, 0xb5] @ replicate 128 0\<rparr>"]
  by simp

end
