(* ===== verification/Keyed_Store.thy ===== *)
theory Keyed_Store
  imports "HOL-Library.DAList"
begin

text \<open>
  The concurrent hash maps of the engine (\<open>DashMap\<close>, \<open>FxHashMap\<close>). A map is an
  association list with distinct keys, so that iterating it has an order, but every theorem
  holds for whatever order the list has. The locale \<open>keyed_store\<close> is the interface the
  components use: what a lookup returns after each update. Its lemmas give the per-key view
  of the entry API and of whole batches.
\<close>

type_synonym ('k, 'v) dmap = "('k, 'v) alist"

definition dm_retain :: "('k \<Rightarrow> 'v \<Rightarrow> bool) \<Rightarrow> ('k, 'v) dmap \<Rightarrow> ('k, 'v) dmap" where
  "dm_retain P m = DAList.filter (\<lambda>(k, v). P k v) m"

definition dm_entries :: "('k, 'v) dmap \<Rightarrow> ('k \<times> 'v) list" where
  "dm_entries m = DAList.impl_of m"

definition dm_len :: "('k, 'v) dmap \<Rightarrow> nat" where
  "dm_len m = length (dm_entries m)"

definition dm_contains :: "('k, 'v) dmap \<Rightarrow> 'k \<Rightarrow> bool" where
  "dm_contains m k \<longleftrightarrow> DAList.lookup m k \<noteq> None"

locale keyed_store =
  fixes get :: "'m \<Rightarrow> 'k \<Rightarrow> 'v option"
    and ins :: "'k \<Rightarrow> 'v \<Rightarrow> 'm \<Rightarrow> 'm"
    and adjust :: "'k \<Rightarrow> ('v \<Rightarrow> 'v) \<Rightarrow> 'm \<Rightarrow> 'm"
    and remove :: "'k \<Rightarrow> 'm \<Rightarrow> 'm"
    and retain :: "('k \<Rightarrow> 'v \<Rightarrow> bool) \<Rightarrow> 'm \<Rightarrow> 'm"
  assumes get_ins: "get (ins k v m) j = (if j = k then Some v else get m j)"
    and get_adjust: "get (adjust k f m) j = (if j = k then map_option f (get m j) else get m j)"
    and get_remove: "get (remove k m) j = (if j = k then None else get m j)"
    and get_retain: "get (retain P m) j =
      (case get m j of Some v \<Rightarrow> if P j v then Some v else None | None \<Rightarrow> None)"
begin

text \<open>The entry API: \<open>entry(k).and_modify(f).or_insert(v)\<close>.\<close>

definition upsert :: "'k \<Rightarrow> ('v \<Rightarrow> 'v) \<Rightarrow> 'v \<Rightarrow> 'm \<Rightarrow> 'm" where
  "upsert k f v m = (case get m k of Some _ \<Rightarrow> adjust k f m | None \<Rightarrow> ins k v m)"

lemma get_upsert:
  "get (upsert k f v m) j =
     (if j = k then Some (case get m k of Some x \<Rightarrow> f x | None \<Rightarrow> v) else get m j)"
  by (auto simp: upsert_def get_ins get_adjust split: option.splits)

lemma get_upserts:
  "get (fold (\<lambda>(k, v). upsert k (g v) v) us m) j =
     fold (\<lambda>(k, v) x. if k = j then Some (case x of Some y \<Rightarrow> g v y | None \<Rightarrow> v) else x) us (get m j)"
  by (induction us arbitrary: m) (auto simp: get_upsert)

lemma get_upserts_other:
  "j \<notin> fst ` set us \<Longrightarrow> get (fold (\<lambda>(k, v). upsert k (g v) v) us m) j = get m j"
  by (induction us arbitrary: m) (auto simp: get_upsert)

lemma get_inserts:
  "get (fold (\<lambda>(k, v). ins k v) us m) j =
     (case map_of (rev us) j of Some v \<Rightarrow> Some v | None \<Rightarrow> get m j)"
  by (induction us arbitrary: m) (auto simp: get_ins map_add_def split: option.splits)

lemma get_removes: "get (fold remove ks m) j = (if j \<in> set ks then None else get m j)"
  by (induction ks arbitrary: m) (auto simp: get_remove)

end

lemma map_of_map_entry:
  "map_of (AList.map_entry k f xs) j = (if j = k then map_option f (map_of xs j) else map_of xs j)"
  by (induction xs) auto

lemma map_of_filter_distinct:
  "distinct (map fst xs) \<Longrightarrow> map_of (List.filter P xs) j =
    (case map_of xs j of Some v \<Rightarrow> if P (j, v) then Some v else None | None \<Rightarrow> None)"
  by (induction xs) (force simp: map_of_eq_None_iff split: option.splits)+

lemma lookup_map_entry:
  "DAList.lookup (DAList.map_entry k f m) j =
     (if j = k then map_option f (DAList.lookup m j) else DAList.lookup m j)"
  by transfer (rule map_of_map_entry)

lemma lookup_filter:
  "DAList.lookup (DAList.filter P m) j =
     (case DAList.lookup m j of Some v \<Rightarrow> if P (j, v) then Some v else None | None \<Rightarrow> None)"
  by transfer (simp add: map_of_filter_distinct)

interpretation dm: keyed_store DAList.lookup DAList.update DAList.map_entry DAList.delete dm_retain
  by unfold_locales
    (simp_all add: lookup_update lookup_map_entry dm_retain_def lookup_filter split: option.split)

text \<open>The entry API on this map, as the components call it.\<close>

definition dm_upsert :: "'k \<Rightarrow> ('v \<Rightarrow> 'v) \<Rightarrow> 'v \<Rightarrow> ('k, 'v) dmap \<Rightarrow> ('k, 'v) dmap" where
  "dm_upsert k f v m =
     (case DAList.lookup m k of
        Some _ \<Rightarrow> DAList.map_entry k f m
      | None \<Rightarrow> DAList.update k v m)"

lemma dm_upsert_eq: "dm_upsert = dm.upsert"
  by (simp add: fun_eq_iff dm_upsert_def dm.upsert_def)

lemmas dm_lookups = dm.get_ins dm.get_adjust dm.get_remove dm.get_retain dm.get_upsert

lemma lookup_entries: "DAList.lookup m k = Some v \<longleftrightarrow> (k, v) \<in> set (dm_entries m)"
  unfolding dm_entries_def
  by (metis (no_types, lifting) impl_of_distinct lookup.rep_eq map_of_eq_Some_iff)

lemma distinct_entries: "distinct (map fst (dm_entries m))"
  by (simp add: dm_entries_def)

end
