(* ===== verification/State_Mirror.thy ===== *)
theory State_Mirror
  imports Shadow_Constants Keyed_Store
begin

text \<open>
  The in-memory mirror of the chain (\<open>src/state_mirror.rs\<close>): pool states, bytecodes,
  poisoned accounts, the gas state and the dirty flag, with every operation as a function on
  the state. The clock, the provider's answers, the decoding of return data and the hash of a
  bytecode are arguments. Disk checkpoints enter as the decoded lists.
\<close>

section \<open>State\<close>

record pool_state =
  ps_reserves0 :: u256
  ps_reserves1 :: u256
  ps_liquidity :: u256
  ps_sqrt_price_x96 :: u256
  ps_tick :: i32
  ps_fee :: u32
  ps_dex_type :: dex_type
  ps_is_stable :: bool
  ps_last_updated_block :: u64
  ps_volatility_score :: u64
  ps_ticks :: "i32 \<rightharpoonup> i128 \<times> u128"
  ps_tick_bitmap :: "i16 \<rightharpoonup> u256"
  ps_last_swap_timestamp :: u64
  ps_last_http_update :: "u64 option"
  ps_last_access_ts :: u64

definition default_pool_state :: "u64 \<Rightarrow> pool_state" where
  "default_pool_state now =
     \<lparr>ps_reserves0 = 0, ps_reserves1 = 0, ps_liquidity = 0, ps_sqrt_price_x96 = 0, ps_tick = 0,
      ps_fee = 0, ps_dex_type = UniswapV2, ps_is_stable = False, ps_last_updated_block = 0,
      ps_volatility_score = 0, ps_ticks = Map.empty, ps_tick_bitmap = Map.empty,
      ps_last_swap_timestamp = 0, ps_last_http_update = None, ps_last_access_ts = now\<rparr>"

record gas_state =
  gs_base_fee :: u256
  gs_priority_fee :: u256
  gs_next_base_fee :: u256
  gs_max_priority_fee_per_gas :: u256

definition default_gas_state :: gas_state where
  "default_gas_state = \<lparr>gs_base_fee = 0, gs_priority_fee = 0, gs_next_base_fee = 0,
     gs_max_priority_fee_per_gas = 0\<rparr>"

definition current_fees :: "gas_state \<Rightarrow> u256 \<times> u256 \<times> u256" where
  "current_fees g = (gs_base_fee g, gs_priority_fee g, gs_max_priority_fee_per_gas g)"

record mirror =
  sm_pools :: "(address, pool_state) dmap"
  sm_bytecodes :: "(address, bytes) dmap"
  sm_gas_state :: gas_state
  sm_dirty_flag :: bool
  sm_current_block :: u64
  sm_last_block_timestamp :: u64
  sm_last_multicall_sync :: u64
  sm_storage_cache :: "(address \<times> u256, u256) dmap"
  sm_sync_filter :: "address set"
  sm_poisoned_accounts :: "(address, bool) dmap"
  sm_trader_registry :: "(address, address set) dmap"

section \<open>Construction and the two checkpoints\<close>

text \<open>The files are written and read by \<open>bincode\<close>: its encoder and its decoder are parameters. A file that
  is missing, cannot be read or is rejected by the decoder is no list; the loaders get what there is.
  The mirror keeps the raw bytes of a code, as \<open>Bytecode::new_raw\<close> does.\<close>

type_synonym code_list = "(address \<times> bytes) list"

definition read_file :: "('f \<Rightarrow> 'a option) \<Rightarrow> 'f option \<Rightarrow> 'a option" where
  "read_file decode contents = Option.bind contents decode"

definition load_bytecode_cache :: "(address \<times> bytes) list option \<Rightarrow> (address, bytes) dmap \<Rightarrow> (address, bytes) dmap" where
  "load_bytecode_cache decoded m =
     (case decoded of Some xs \<Rightarrow> fold (\<lambda>(a, c). DAList.update a c) xs m | None \<Rightarrow> m)"

definition load_state_checkpoint :: "(address \<times> pool_state) list option \<Rightarrow> mirror \<Rightarrow> mirror" where
  "load_state_checkpoint decoded s =
     (case decoded of
        Some xs \<Rightarrow> s\<lparr>sm_pools := fold (\<lambda>(a, p). DAList.update a p) xs (sm_pools s)\<rparr>
      | None \<Rightarrow> s)"

definition save_bytecode_cache :: "(code_list \<Rightarrow> bytes) \<Rightarrow> mirror \<Rightarrow> bytes" where
  "save_bytecode_cache encode s = encode (dm_entries (sm_bytecodes s))"

definition save_state_checkpoint :: "((address \<times> pool_state) list \<Rightarrow> bytes) \<Rightarrow> mirror \<Rightarrow> bytes" where
  "save_state_checkpoint encode s = encode (dm_entries (sm_pools s))"

definition mirror_new :: "(address \<times> bytes) list option \<Rightarrow> (address \<times> pool_state) list option \<Rightarrow> mirror" where
  "mirror_new bytecode_file checkpoint_file =
     load_state_checkpoint checkpoint_file
       \<lparr>sm_pools = DAList.empty, sm_bytecodes = load_bytecode_cache bytecode_file DAList.empty,
        sm_gas_state = default_gas_state, sm_dirty_flag = True, sm_current_block = 0,
        sm_last_block_timestamp = 0, sm_last_multicall_sync = 0, sm_storage_cache = DAList.empty,
        sm_sync_filter = {}, sm_poisoned_accounts = DAList.empty, sm_trader_registry = DAList.empty\<rparr>"

section \<open>Blocks, freshness, gas\<close>

definition mark_dirty :: "mirror \<Rightarrow> mirror" where
  "mark_dirty s = s\<lparr>sm_dirty_flag := True\<rparr>"

definition sync_block :: "u64 \<Rightarrow> u256 \<Rightarrow> u64 \<Rightarrow> mirror \<Rightarrow> mirror" where
  "sync_block block_number base_fee timestamp s =
     (let prev = sm_current_block s;
          s = (if prev \<noteq> 0 \<and> block_number > prev + 1 then mark_dirty s else s);
          next_base_fee = (base_fee * 1125) div 1000
      in s\<lparr>sm_current_block := block_number, sm_last_block_timestamp := timestamp,
           sm_gas_state := (sm_gas_state s)\<lparr>gs_base_fee := base_fee, gs_next_base_fee := next_base_fee\<rparr>\<rparr>)"

fun decimal :: "nat \<Rightarrow> string" where
  "decimal n = (if n < 10 then [char_of (n + 48)] else decimal (n div 10) @ [char_of (n mod 10 + 48)])"

declare decimal.simps [simp del]

definition verify_state_freshness :: "u64 \<Rightarrow> mirror \<Rightarrow> mev_error + unit" where
  "verify_state_freshness now s =
     (let block_ts = sm_last_block_timestamp s in
      if block_ts = 0 then Inr ()
      else let drift = sat_sub now block_ts; limit = MAX_NODE_LAG_SECONDS in
        if drift > limit
        then Inl (Other (''[PILLAR T] Block Lag: '' @ decimal (unat drift) @ ''s > '' @
               decimal (unat limit) @ ''s limit''))
        else Inr ())"

definition current_priority_fee :: "mirror \<Rightarrow> u256" where
  "current_priority_fee s = gs_priority_fee (sm_gas_state s)"

definition current_base_fee :: "mirror \<Rightarrow> u256" where
  "current_base_fee s = gs_base_fee (sm_gas_state s)"

definition current_block_number :: "mirror \<Rightarrow> u64" where
  "current_block_number s = sm_current_block s"

definition set_max_priority_fee :: "u256 \<Rightarrow> mirror \<Rightarrow> mirror" where
  "set_max_priority_fee mx s =
     s\<lparr>sm_gas_state := (sm_gas_state s)\<lparr>gs_max_priority_fee_per_gas := mx\<rparr>\<rparr>"

section \<open>Traders\<close>

definition record_trader :: "address \<Rightarrow> address \<Rightarrow> mirror \<Rightarrow> mirror" where
  "record_trader pool trader s =
     (if trader = 0 then s
      else let seen = (case DAList.lookup (sm_trader_registry s) pool of Some t \<Rightarrow> t | None \<Rightarrow> {});
               seen = insert trader seen
           in s\<lparr>sm_trader_registry :=
                  DAList.update pool (if card seen > 100 then {} else seen) (sm_trader_registry s)\<rparr>)"

definition get_competition_score :: "mirror \<Rightarrow> address \<Rightarrow> nat" where
  "get_competition_score s pool =
     (case DAList.lookup (sm_trader_registry s) pool of Some t \<Rightarrow> card t | None \<Rightarrow> 0)"

definition is_congested :: "mirror \<Rightarrow> address \<Rightarrow> nat \<Rightarrow> bool" where
  "is_congested s pool max_bots \<longleftrightarrow> get_competition_score s pool \<ge> max_bots"

definition update_sync_filter :: "address set \<Rightarrow> mirror \<Rightarrow> mirror" where
  "update_sync_filter fl s = s\<lparr>sm_sync_filter := fl\<rparr>"

section \<open>Bytecode\<close>

definition is_poisoned :: "mirror \<Rightarrow> address \<Rightarrow> bool" where
  "is_poisoned s a \<longleftrightarrow> dm_contains (sm_poisoned_accounts s) a"

definition get_bytecode :: "mirror \<Rightarrow> address \<Rightarrow> bytes option" where
  "get_bytecode s a = DAList.lookup (sm_bytecodes s) a"

definition is_malicious_bytecode :: "bytes \<Rightarrow> bool" where
  "is_malicious_bytecode code =
     (let code_len = length code in
      if code_len > 8000 then False
      else if 0xff \<in> set code then True
      else if 0xf4 \<in> set code \<and> code_len < 3000 then True
      else if code_len < 2000 \<and> 0x33 \<in> set code \<and> 0x54 \<in> set code \<and>
              (0xfd \<in> set code \<or> 0xfe \<in> set code) then True
      else False)"

text \<open>The provider answers with the code, or not at all.\<close>

definition fetch_and_cache_bytecode :: "bytes option \<Rightarrow> address \<Rightarrow> mirror \<Rightarrow> mirror" where
  "fetch_and_cache_bytecode reply a s =
     (if a \<in> CORE_TOKENS \<or> a \<in> CORE_POOLS \<or> a \<in> TOP_100_POOLS \<or> dm_contains (sm_pools s) a then s
      else if dm_contains (sm_bytecodes s) a \<or> is_poisoned s a then s
      else case reply of
        None \<Rightarrow> s
      | Some code \<Rightarrow>
          if code = [] then s
          else if is_malicious_bytecode code
          then s\<lparr>sm_poisoned_accounts := DAList.update a True (sm_poisoned_accounts s)\<rparr>
          else s\<lparr>sm_bytecodes := DAList.update a code (sm_bytecodes s)\<rparr>)"

section \<open>Pools\<close>

definition update_pool :: "address \<Rightarrow> pool_state \<Rightarrow> mirror \<Rightarrow> mirror" where
  "update_pool a p s = s\<lparr>sm_pools := DAList.update a p (sm_pools s)\<rparr>"

definition get_pool_data :: "u64 \<Rightarrow> address \<Rightarrow> mirror \<Rightarrow> pool_state option \<times> mirror" where
  "get_pool_data now a s =
     (let s' = s\<lparr>sm_pools := DAList.map_entry a (\<lambda>p. p\<lparr>ps_last_access_ts := now\<rparr>) (sm_pools s)\<rparr>
      in case DAList.lookup (sm_pools s') a of
           Some p \<Rightarrow> (Some p, s')
         | None \<Rightarrow> (None, s))"

definition merge_pool :: "pool_state \<Rightarrow> pool_state \<Rightarrow> pool_state" where
  "merge_pool new existing =
     (let e = existing\<lparr>ps_reserves0 := ps_reserves0 new, ps_reserves1 := ps_reserves1 new,
                       ps_last_updated_block := ps_last_updated_block new\<rparr>;
          e = (if ps_sqrt_price_x96 new \<noteq> 0
               then e\<lparr>ps_sqrt_price_x96 := ps_sqrt_price_x96 new, ps_tick := ps_tick new,
                      ps_liquidity := ps_liquidity new\<rparr>
               else e)
      in if ps_is_stable new then e\<lparr>ps_is_stable := True, ps_dex_type := Aerodrome\<rparr> else e)"

definition batch_update_reserves :: "(address \<times> pool_state) list \<Rightarrow> mirror \<Rightarrow> mirror" where
  "batch_update_reserves updates s =
     mark_dirty (s\<lparr>sm_pools := fold (\<lambda>(a, p). dm_upsert a (merge_pool p) p) updates (sm_pools s)\<rparr>)"

definition update_v2_reserves :: "address \<Rightarrow> u256 \<Rightarrow> u256 \<Rightarrow> mirror \<Rightarrow> mirror" where
  "update_v2_reserves a r0 r1 s =
     mark_dirty (s\<lparr>sm_pools := DAList.map_entry a
       (\<lambda>p. p\<lparr>ps_reserves0 := r0, ps_reserves1 := r1, ps_last_updated_block := sm_current_block s\<rparr>)
       (sm_pools s)\<rparr>)"

definition update_v3_state :: "address \<Rightarrow> u256 \<Rightarrow> i32 \<Rightarrow> u256 \<Rightarrow> mirror \<Rightarrow> mirror" where
  "update_v3_state a sqrt_price tick liquidity s =
     mark_dirty (s\<lparr>sm_pools := DAList.map_entry a
       (\<lambda>p. p\<lparr>ps_sqrt_price_x96 := sqrt_price, ps_tick := tick, ps_liquidity := liquidity,
             ps_last_updated_block := sm_current_block s\<rparr>)
       (sm_pools s)\<rparr>)"

definition update_aerodrome_stable :: "address \<Rightarrow> bool \<Rightarrow> mirror \<Rightarrow> mirror" where
  "update_aerodrome_stable a is_stable s =
     mark_dirty (s\<lparr>sm_pools := DAList.map_entry a
       (\<lambda>p. p\<lparr>ps_is_stable := is_stable, ps_dex_type := Aerodrome,
             ps_last_updated_block := sm_current_block s\<rparr>)
       (sm_pools s)\<rparr>)"

definition keep_pool :: "u64 \<Rightarrow> u64 \<Rightarrow> address \<Rightarrow> pool_state \<Rightarrow> bool" where
  "keep_pool current now a p =
     (if a \<in> CORE_POOLS then True
      else let block_age = (if ps_last_updated_block p = 0 then 0
                            else sat_sub current (ps_last_updated_block p));
               time_since_access = sat_sub now (ps_last_access_ts p);
               is_hot = (block_age < 500 \<or> time_since_access < 1800);
               is_new = (ps_last_updated_block p = 0)
           in is_hot \<or> is_new)"

definition prune_stale_pools :: "u64 \<Rightarrow> mirror \<Rightarrow> mirror" where
  "prune_stale_pools now s =
     (let current = sm_current_block s in
      if current = 0 then s
      else let pools = dm_retain (keep_pool current now) (sm_pools s);
               s = s\<lparr>sm_pools := pools\<rparr>
           in if dm_len (sm_bytecodes s) > 500
              then s\<lparr>sm_bytecodes := dm_retain (\<lambda>a _. dm_contains pools a) (sm_bytecodes s)\<rparr>
              else s)"

section \<open>The multicall synchronisation\<close>

text \<open>A chunk of pools and the raw results of its multicall; the decoders of the ABI library
  are arguments. A result is a success flag and return data.\<close>

datatype 'r decoders = Decoders
  (dec_reserves: "'r \<Rightarrow> (u256 \<times> u256) option")
  (dec_slot0: "'r \<Rightarrow> (u256 \<times> i32) option")
  (dec_liquidity: "'r \<Rightarrow> u256 option")

record chunk_result =
  cr_updates :: "(address \<times> pool_state) list"
  cr_prune :: "address list"

definition eth_threshold :: u256 where "eth_threshold = 4 * 10 ^ 16"

fun process_chunk ::
  "'r decoders \<Rightarrow> u64 \<Rightarrow> u64 \<Rightarrow> (address \<times> dex_type) list \<Rightarrow> (bool \<times> 'r) list \<Rightarrow> chunk_result \<Rightarrow> chunk_result" where
  "process_chunk D now block [] results acc = acc"
| "process_chunk D now block ((a, d) # chunk) results acc =
     (let state = (default_pool_state now)\<lparr>ps_last_updated_block := block, ps_dex_type := d\<rparr> in
      case d of
        UniswapV3 \<Rightarrow>
          process_chunk D now block chunk (drop 2 results)
            (case results of
               (ok0, r0) # (ok1, r1) # _ \<Rightarrow>
                 (if ok0 \<and> ok1 then
                    case (dec_slot0 D r0, dec_liquidity D r1) of
                      (Some (sp, tick), Some liq) \<Rightarrow>
                        acc\<lparr>cr_updates := cr_updates acc @
                          [(a, state\<lparr>ps_sqrt_price_x96 := sp, ps_tick := tick, ps_liquidity := liq\<rparr>)]\<rparr>
                    | _ \<Rightarrow> acc
                  else acc)
             | _ \<Rightarrow> acc)
      | MaverickV2 \<Rightarrow> process_chunk D now block chunk results acc
      | _ \<Rightarrow>
          process_chunk D now block chunk (drop 1 results)
            (case results of
               (ok, r) # _ \<Rightarrow>
                 (if ok then
                    case dec_reserves D r of
                      Some (r0, r1) \<Rightarrow>
                        (if r0 < eth_threshold \<and> r1 < eth_threshold \<and> a \<notin> TOP_100_POOLS
                         then acc\<lparr>cr_prune := cr_prune acc @ [a]\<rparr>
                         else acc\<lparr>cr_updates := cr_updates acc @
                           [(a, state\<lparr>ps_reserves0 := r0, ps_reserves1 := r1\<rparr>)]\<rparr>)
                    | None \<Rightarrow> acc
                  else acc)
             | [] \<Rightarrow> acc))"

text \<open>The calls a chunk sends, one target per call: a V3 pool sends two, every other pool
  one.\<close>

definition chunk_calls :: "(address \<times> dex_type) list \<Rightarrow> address list" where
  "chunk_calls chunk = concat (map (\<lambda>(a, d). if d = UniswapV3 then [a, a] else [a]) chunk)"

definition sync_chunk ::
  "'r decoders \<Rightarrow> u64 \<Rightarrow> u64 \<Rightarrow> (address \<times> dex_type) list \<Rightarrow> (bool \<times> 'r) list option \<Rightarrow> mirror \<Rightarrow> mirror \<times> bool" where
  "sync_chunk D now block chunk reply s =
     (case reply of
        None \<Rightarrow> (s, True)
      | Some results \<Rightarrow>
          let out = process_chunk D now block chunk results \<lparr>cr_updates = [], cr_prune = []\<rparr> in
          if cr_updates out = [] \<and> chunk \<noteq> [] then (s, True)
          else let s' = batch_update_reserves (cr_updates out) s in
            (s'\<lparr>sm_pools := fold DAList.delete (cr_prune out) (sm_pools s')\<rparr>, False))"

definition MULTICALL_BATCH_SIZE :: nat where "MULTICALL_BATCH_SIZE = 2"

text \<open>\<open>slice::chunks\<close> panics on a chunk size of zero. The size is read once, when the
  iterator is made.\<close>

fun chunk_list :: "nat \<Rightarrow> 'a list \<Rightarrow> 'a list list" where
  "chunk_list n xs = (if xs = [] \<or> n = 0 then [] else take n xs # chunk_list n (drop n xs))"

declare chunk_list.simps [simp del]

text \<open>One reply per chunk, in order; a missing reply is a failed call. The second component
  says which chunks marked their provider unhealthy.\<close>

fun sync_chunks ::
  "'r decoders \<Rightarrow> u64 \<Rightarrow> u64 \<Rightarrow> (address \<times> dex_type) list list \<Rightarrow> (bool \<times> 'r) list option list \<Rightarrow> mirror
     \<Rightarrow> mirror \<times> bool list" where
  "sync_chunks D now block [] replies s = (s, [])"
| "sync_chunks D now block (c # cs) replies s =
     (let (s', bad) = sync_chunk D now block c (case replies of r # _ \<Rightarrow> r | [] \<Rightarrow> None) s;
          (s'', bads) = sync_chunks D now block cs (drop 1 replies) s'
      in (s'', bad # bads))"

definition sync_batch_with_jitter ::
  "'r decoders \<Rightarrow> u64 \<Rightarrow> (address \<times> dex_type) list \<Rightarrow> nat \<Rightarrow> (bool \<times> 'r) list option list \<Rightarrow> mirror
     \<Rightarrow> (mirror \<times> bool list) exec" where
  "sync_batch_with_jitter D now batch batch_size replies s =
     (let size = min batch_size MULTICALL_BATCH_SIZE in
      if size = 0 then None
      else Some (sync_chunks D now (sm_current_block s) (chunk_list size batch) replies s))"

definition pools_to_sync :: "mirror \<Rightarrow> (address \<times> dex_type) list" where
  "pools_to_sync s =
     map (\<lambda>(a, p). (a, ps_dex_type p))
       (List.filter (\<lambda>(a, p). sat_sub (sm_current_block s) (ps_last_updated_block p) > 0 \<or> sm_dirty_flag s)
          (dm_entries (sm_pools s)))"

definition sync_all_pools_multicall_pooled ::
  "'r decoders \<Rightarrow> u64 \<Rightarrow> (bool \<times> 'r) list option list \<Rightarrow> mirror \<Rightarrow> mirror exec" where
  "sync_all_pools_multicall_pooled D now replies s =
     (let targets = pools_to_sync s in
      if targets = [] then Some s
      else do {
        (s', _) \<leftarrow> sync_batch_with_jitter D now targets MULTICALL_BATCH_SIZE replies s;
        Some (s'\<lparr>sm_dirty_flag := False, sm_last_multicall_sync := now\<rparr>)
      })"

text \<open>The bootstrap synchronises the top pools first and the rest in a background task.\<close>

definition bootstrap_batches :: "mirror \<Rightarrow> (address \<times> dex_type) list \<times> (address \<times> dex_type) list" where
  "bootstrap_batches s =
     (let all = map (\<lambda>(a, p). (a, ps_dex_type p)) (dm_entries (sm_pools s))
      in (List.filter (\<lambda>(a, _). a \<in> TOP_100_POOLS) all, List.filter (\<lambda>(a, _). a \<notin> TOP_100_POOLS) all))"

text \<open>What is left of calls of \<open>sync_batch_with_jitter\<close>: the block a batch was started in, once it has
  been, and its chunks. Every chunk waits for its reply, and the other tasks run meanwhile.\<close>

type_synonym sync_task = "u64 option \<times> (address \<times> dex_type) list list"

fun sync_turn ::
  "'r decoders \<Rightarrow> u64 \<Rightarrow> (bool \<times> 'r) list option \<Rightarrow> sync_task list \<times> mirror \<Rightarrow> sync_task list \<times> mirror" where
  "sync_turn D now reply ([], s) = ([], s)"
| "sync_turn D now reply ((b, []) # tasks, s) = (tasks, s)"
| "sync_turn D now reply ((b, c # cs) # tasks, s) =
     (let block = (case b of Some k \<Rightarrow> k | None \<Rightarrow> sm_current_block s)
      in ((Some block, cs) # tasks, fst (sync_chunk D now block c reply s)))"

definition sync_task :: "(address \<times> dex_type) list \<Rightarrow> nat \<Rightarrow> sync_task list" where
  "sync_task batch batch_size =
     (if batch = [] then [] else [(None, chunk_list (min batch_size MULTICALL_BATCH_SIZE) batch)])"

definition smart_bootstrap :: "mirror \<Rightarrow> sync_task list" where
  "smart_bootstrap s = (let (top, rest) = bootstrap_batches s in sync_task top 100 @ sync_task rest 40)"

section \<open>The database interface of the simulator\<close>

definition basic_ref :: "(bytes \<Rightarrow> b256) \<Rightarrow> mirror \<Rightarrow> address \<Rightarrow> (b256 \<times> bytes) option" where
  "basic_ref hash_slow s a = map_option (\<lambda>c. (hash_slow c, c)) (get_bytecode s a)"

definition code_by_hash_ref :: "b256 \<Rightarrow> mev_error + bytes" where
  "code_by_hash_ref h = Inl (Other ''Use basic_ref'')"

definition storage_ref :: "mirror \<Rightarrow> address \<Rightarrow> u256 \<Rightarrow> u256" where
  "storage_ref s a slot = (case DAList.lookup (sm_storage_cache s) (a, slot) of Some v \<Rightarrow> v | None \<Rightarrow> 0)"

definition block_hash_ref :: "u64 \<Rightarrow> b256" where
  "block_hash_ref number = 0"

end
