(* ===== verification/Path_Graph.thy ===== *)
theory Path_Graph
  imports State_Mirror
begin

text \<open>
  The token graph of \<open>src/arbitrage_detector.rs\<close> and the depth-first search for cycles.
  \<open>rebuild_graph\<close> filters the mirrored pools and lays them out in compressed sparse rows;
  the order in which the hash set of tokens is iterated is an argument. The search keeps the
  visited pools in 64 machine words and restores them on the way back.
\<close>

unbundle bit_operations_syntax

section \<open>The graph\<close>

record static_edge =
  se_pool_idx :: u32
  se_target_token_idx :: u32
  se_dex_name :: dex_name

record static_graph =
  sg_tokens :: "address list"
  sg_token_to_idx :: "address \<rightharpoonup> u32"
  sg_pools :: "address list"
  sg_pool_to_idx :: "address \<rightharpoonup> u32"
  sg_nodes :: "u32 list"
  sg_edges :: "static_edge list"

definition empty_graph :: static_graph where
  "empty_graph = \<lparr>sg_tokens = [], sg_token_to_idx = Map.empty, sg_pools = [],
     sg_pool_to_idx = Map.empty, sg_nodes = [], sg_edges = []\<rparr>"

type_synonym pool_registry = "(address, address \<times> address \<times> dex_name) dmap"
type_synonym timestamps = "(address, u64) dmap"

definition elapsed_below :: "u64 \<Rightarrow> timestamps \<Rightarrow> address \<Rightarrow> u64 \<Rightarrow> bool" where
  "elapsed_below now m a limit =
     (case DAList.lookup m a of Some t \<Rightarrow> sat_sub now t < limit | None \<Rightarrow> False)"

definition liquidity_usd :: "address \<Rightarrow> address \<Rightarrow> pool_state \<Rightarrow> u128 exec" where
  "liquidity_usd t0 t1 p =
     (if t0 = TOKEN_USDC then
        do { r \<leftarrow> narrow (ps_reserves0 p); Some (sat_mul (r div 1000000) 2) }
      else if t1 = TOKEN_USDC then
        do { r \<leftarrow> narrow (ps_reserves1 p); Some (sat_mul (r div 1000000) 2) }
      else if t0 = TOKEN_WETH then
        do { r \<leftarrow> narrow (ps_reserves0 p);
             Some (sat_mul (sat_mul (r div 10 ^ 18) 2) ESTIMATED_ETH_PRICE) }
      else if t1 = TOKEN_WETH then
        do { r \<leftarrow> narrow (ps_reserves1 p);
             Some (sat_mul (sat_mul (r div 10 ^ 18) 2) ESTIMATED_ETH_PRICE) }
      else Some 0)"

definition is_ai_token :: "address \<Rightarrow> bool" where
  "is_ai_token t \<longleftrightarrow> t = TOKEN_VIRTUAL \<or> t = TOKEN_LUNA \<or> t = TOKEN_AI16Z"

definition should_include ::
  "u64 \<Rightarrow> mirror \<Rightarrow> timestamps \<Rightarrow> timestamps \<Rightarrow> address \<Rightarrow> address \<times> address \<times> dex_name \<Rightarrow> pool_state \<Rightarrow> bool exec" where
  "should_include now m activity alpha pool_addr reg pool =
     (let (t0, t1, dex) = reg;
          is_core = (pool_addr \<in> TOP_100_POOLS);
          is_hot = elapsed_below now activity pool_addr POOL_HOTNESS_TTL_SEC;
          is_alpha = elapsed_below now alpha pool_addr 1800
      in do {
        liq_usd \<leftarrow> liquidity_usd t0 t1 pool;
        let is_new = (ps_last_updated_block pool = 0);
        let is_ai_star = (is_ai_token t0 \<or> is_ai_token t1);
        let is_in_sweet_spot =
          (if is_ai_star then liq_usd \<ge> 500 \<and> liq_usd \<le> MAX_ALPHA_LIQUIDITY_USD
           else is_core \<or> (liq_usd \<ge> 1000 \<and> liq_usd \<le> MAX_ALPHA_LIQUIDITY_USD));
        if get_competition_score m pool_addr > 2 \<and> \<not> is_core then Some False
        else
          let is_niche_dex = (dex = SushiSwap \<or> dex = BaseSwap \<or> dex = PancakeSwap)
          in Some (is_core \<or> is_alpha \<or> is_hot \<or> is_niche_dex \<or> is_in_sweet_spot \<or> is_new)
      })"

record graph_acc =
  ga_adj :: "address \<rightharpoonup> pool_edge list"
  ga_tokens :: "address set"
  ga_pools :: "address list"

definition new_edge :: "address \<Rightarrow> address \<Rightarrow> dex_name \<Rightarrow> pool_edge" where
  "new_edge pool_addr token_b dex =
     \<lparr>pe_pool_address = pool_addr, pe_dex_name = dex, pe_token_b = token_b, pe_fee = None,
      pe_liq_score = 0, pe_static_calldata = [], pe_gas_cost = 0, pe_id = replicate 32 0,
      pe_success_prob = 0\<rparr>"

definition push_edge :: "address \<Rightarrow> pool_edge \<Rightarrow> (address \<rightharpoonup> pool_edge list) \<Rightarrow> (address \<rightharpoonup> pool_edge list)" where
  "push_edge t e adj = adj(t \<mapsto> (case adj t of Some es \<Rightarrow> es | None \<Rightarrow> []) @ [e])"

definition add_pool :: "address \<Rightarrow> address \<times> address \<times> dex_name \<Rightarrow> graph_acc \<Rightarrow> graph_acc" where
  "add_pool pool_addr reg acc =
     (let (t0, t1, dex) = reg in
      \<lparr>ga_adj = push_edge t1 (new_edge pool_addr t0 dex)
                  (push_edge t0 (new_edge pool_addr t1 dex) (ga_adj acc)),
       ga_tokens = insert t1 (insert t0 (ga_tokens acc)),
       ga_pools = ga_pools acc @ [pool_addr]\<rparr>)"

fun collect_pools ::
  "u64 \<Rightarrow> mirror \<Rightarrow> pool_registry \<Rightarrow> timestamps \<Rightarrow> timestamps \<Rightarrow> (address \<times> pool_state) list \<Rightarrow> graph_acc \<Rightarrow> graph_acc exec" where
  "collect_pools now m registry activity alpha [] acc = Some acc"
| "collect_pools now m registry activity alpha ((a, p) # ps) acc =
     (case DAList.lookup registry a of
        None \<Rightarrow> collect_pools now m registry activity alpha ps acc
      | Some reg \<Rightarrow> do {
          inc \<leftarrow> should_include now m activity alpha a reg p;
          collect_pools now m registry activity alpha ps (if inc then add_pool a reg acc else acc)
        })"

definition index_map :: "address list \<Rightarrow> address \<rightharpoonup> u32" where
  "index_map xs = map_upds Map.empty xs (map word_of_nat [0..<length xs])"

text \<open>The \<open>unwrap\<close> of both lookups panics on a missing key.\<close>

fun static_edges :: "(address \<rightharpoonup> u32) \<Rightarrow> (address \<rightharpoonup> u32) \<Rightarrow> pool_edge list \<Rightarrow> static_edge list exec" where
  "static_edges pool_to_idx token_to_idx [] = Some []"
| "static_edges pool_to_idx token_to_idx (e # es) = do {
     p \<leftarrow> pool_to_idx (pe_pool_address e);
     t \<leftarrow> token_to_idx (pe_token_b e);
     rest \<leftarrow> static_edges pool_to_idx token_to_idx es;
     Some (\<lparr>se_pool_idx = p, se_target_token_idx = t, se_dex_name = pe_dex_name e\<rparr> # rest)
   }"

fun fill_rows ::
  "(address \<rightharpoonup> pool_edge list) \<Rightarrow> (address \<rightharpoonup> u32) \<Rightarrow> (address \<rightharpoonup> u32) \<Rightarrow> address list \<Rightarrow> u32 \<Rightarrow> u32 list \<Rightarrow> static_edge list
     \<Rightarrow> (u32 list \<times> static_edge list) exec" where
  "fill_rows adj pool_to_idx token_to_idx [] offset nodes edges = Some (nodes @ [offset], edges)"
| "fill_rows adj pool_to_idx token_to_idx (t # ts) offset nodes edges = do {
     row \<leftarrow> (case adj t of Some es \<Rightarrow> static_edges pool_to_idx token_to_idx es | None \<Rightarrow> Some []);
     fill_rows adj pool_to_idx token_to_idx ts (offset + word_of_nat (length row))
       (nodes @ [offset]) (edges @ row)
   }"

definition layout_graph :: "(address set \<Rightarrow> address list) \<Rightarrow> graph_acc \<Rightarrow> static_graph exec" where
  "layout_graph set_order acc =
     (let tokens = set_order (ga_tokens acc);
          token_to_idx = index_map tokens;
          pool_to_idx = index_map (ga_pools acc)
      in do {
        (nodes, edges) \<leftarrow> fill_rows (ga_adj acc) pool_to_idx token_to_idx tokens 0 [] [];
        Some \<lparr>sg_tokens = tokens, sg_token_to_idx = token_to_idx, sg_pools = ga_pools acc,
              sg_pool_to_idx = pool_to_idx, sg_nodes = nodes, sg_edges = edges\<rparr>
      })"

definition rebuild_graph ::
  "(address set \<Rightarrow> address list) \<Rightarrow> u64 \<Rightarrow> mirror \<Rightarrow> pool_registry \<Rightarrow> timestamps \<Rightarrow> timestamps \<Rightarrow> static_graph exec" where
  "rebuild_graph set_order now m registry activity alpha = do {
     acc \<leftarrow> collect_pools now m registry activity alpha (dm_entries (sm_pools m))
              \<lparr>ga_adj = Map.empty, ga_tokens = {}, ga_pools = []\<rparr>;
     layout_graph set_order acc
   }"

section \<open>The visited pools\<close>

type_synonym visited = "u64 list"

definition is_visited :: "visited \<Rightarrow> u32 \<Rightarrow> bool exec" where
  "is_visited v p = do {
     w \<leftarrow> index v (unat (drop_bit 6 p));
     Some (drop_bit (unat (p AND 63)) w AND 1 = 1)
   }"

definition visit :: "visited \<Rightarrow> u32 \<Rightarrow> visited exec" where
  "visit v p = do {
     w \<leftarrow> index v (unat (drop_bit 6 p));
     Some (v[unat (drop_bit 6 p) := w OR push_bit (unat (p AND 63)) 1])
   }"

definition unvisit :: "visited \<Rightarrow> u32 \<Rightarrow> visited exec" where
  "unvisit v p = do {
     w \<leftarrow> index v (unat (drop_bit 6 p));
     Some (v[unat (drop_bit 6 p) := w AND NOT (push_bit (unat (p AND 63)) 1)])
   }"

section \<open>The search\<close>

definition dex_type_of_name :: "dex_name \<Rightarrow> dex_type" where
  "dex_type_of_name d = (case d of NameAerodrome \<Rightarrow> Aerodrome | NameUniswapV3 \<Rightarrow> UniswapV3 | _ \<Rightarrow> UniswapV2)"

definition mirror_is_stable :: "mirror \<Rightarrow> address \<Rightarrow> bool" where
  "mirror_is_stable m a = (case DAList.lookup (sm_pools m) a of Some p \<Rightarrow> ps_is_stable p | None \<Rightarrow> False)"

definition edge_hop :: "static_graph \<Rightarrow> mirror \<Rightarrow> u32 \<Rightarrow> static_edge \<Rightarrow> hop exec" where
  "edge_hop g m cur e = do {
     pool_addr \<leftarrow> index (sg_pools g) (unat (se_pool_idx e));
     token_in \<leftarrow> index (sg_tokens g) (unat cur);
     token_out \<leftarrow> index (sg_tokens g) (unat (se_target_token_idx e));
     Some \<lparr>hop_pool = pool_addr, hop_pool_address = pool_addr, hop_pool_address_label = None,
           hop_token_in = token_in, hop_token_out = token_out,
           hop_dex_type = dex_type_of_name (se_dex_name e), hop_dex_name = se_dex_name e,
           hop_zero_for_one = (token_in < token_out), hop_is_stable = mirror_is_stable m pool_addr,
           hop_fee = None, hop_static_calldata = [], hop_gas_cost = 0, hop_id = replicate 32 0,
           hop_success_prob = 0\<rparr>
   }"

record dfs_state =
  ds_hops :: "hop list"
  ds_visited :: visited
  ds_results :: "hop list list"

fun exec_fold :: "('a \<Rightarrow> 's \<Rightarrow> 's exec) \<Rightarrow> 'a list \<Rightarrow> 's \<Rightarrow> 's exec" where
  "exec_fold f [] s = Some s"
| "exec_fold f (x # xs) s = do { s' \<leftarrow> f x s; exec_fold f xs s' }"

text \<open>One edge of the loop; \<open>descend\<close> is the recursive call. The test \<open>len() >= 1\<close> on the hops
  comes right after a push.\<close>

definition dfs_edge ::
  "static_graph \<Rightarrow> mirror \<Rightarrow> u32 \<Rightarrow> (u32 \<Rightarrow> dfs_state \<Rightarrow> dfs_state exec) \<Rightarrow> u32 \<Rightarrow> nat \<Rightarrow> dfs_state \<Rightarrow> dfs_state exec" where
  "dfs_edge g m target descend cur i st = do {
     e \<leftarrow> index (sg_edges g) i;
     seen \<leftarrow> is_visited (ds_visited st) (se_pool_idx e);
     if seen then Some st
     else do {
       h \<leftarrow> edge_hop g m cur e;
       v \<leftarrow> visit (ds_visited st) (se_pool_idx e);
       let st1 = st\<lparr>ds_hops := ds_hops st @ [h], ds_visited := v\<rparr>;
       st2 \<leftarrow> (if se_target_token_idx e = target \<and> length (ds_hops st1) \<ge> 1
              then Some (st1\<lparr>ds_results := ds_results st1 @ [ds_hops st1]\<rparr>)
              else descend (se_target_token_idx e) st1);
       v' \<leftarrow> unvisit (ds_visited st2) (se_pool_idx e);
       Some (st2\<lparr>ds_visited := v', ds_hops := butlast (ds_hops st2)\<rparr>)
     }
   }"

text \<open>The recursion on \<open>depth\<close> up to \<open>max_depth\<close>, by the number of levels that are left.\<close>

fun dfs_levels :: "static_graph \<Rightarrow> mirror \<Rightarrow> u32 \<Rightarrow> nat \<Rightarrow> u32 \<Rightarrow> dfs_state \<Rightarrow> dfs_state exec" where
  "dfs_levels g m target 0 cur st = Some st"
| "dfs_levels g m target (Suc n) cur st = do {
     start \<leftarrow> index (sg_nodes g) (unat cur);
     stop \<leftarrow> index (sg_nodes g) (unat cur + 1);
     exec_fold (dfs_edge g m target (\<lambda>next s. dfs_levels g m target n next s) cur)
       [unat start..<unat stop] st
   }"

definition find_cycles_dfs ::
  "u32 \<Rightarrow> u32 \<Rightarrow> static_graph \<Rightarrow> mirror \<Rightarrow> dfs_state \<Rightarrow> nat \<Rightarrow> nat \<Rightarrow> dfs_state exec" where
  "find_cycles_dfs cur target g m st depth max_depth = dfs_levels g m target (Suc max_depth - depth) cur st"

text \<open>One task of \<open>process_event\<close>: the first hop is taken by hand, the trigger pool is marked
  as visited, and the search starts at depth 2.\<close>

definition branch_paths ::
  "static_graph \<Rightarrow> mirror \<Rightarrow> address \<Rightarrow> u32 \<Rightarrow> u32 \<Rightarrow> nat \<Rightarrow> static_edge \<Rightarrow> hop list list exec" where
  "branch_paths g m trigger start_token current_token max_path_length e = do {
     v0 \<leftarrow> (case sg_pool_to_idx g trigger of
            Some t \<Rightarrow> visit (replicate 64 0) t
          | None \<Rightarrow> Some (replicate 64 0));
     h \<leftarrow> edge_hop g m current_token e;
     v1 \<leftarrow> visit v0 (se_pool_idx e);
     if se_target_token_idx e = start_token then Some [[h]]
     else map_option ds_results
       (find_cycles_dfs (se_target_token_idx e) start_token g m
          \<lparr>ds_hops = [h], ds_visited = v1, ds_results = []\<rparr> 2 max_path_length)
   }"

end
