(* ===== verification/Math_Engine.thy ===== *)
theory Math_Engine
  imports V3_Swap State_Mirror
begin

text \<open>
  The pricing engine of \<open>src/math_engine.rs\<close>: outputs of constant-product and stable pools,
  path outputs, the projected impact of a pending swap, the golden-section search, the closed
  form for two pools with its 512-bit square root, and the virtual reserves of a V3 pool. The
  floating-point first guess of the stable curve is an argument (a function of the new input
  reserve and the two reserves, with a \<open>u128\<close> result); everything after it is modelled.
\<close>

section \<open>Constant-product pools\<close>

definition get_v2_output :: "u256 \<Rightarrow> pool_state \<Rightarrow> bool \<Rightarrow> u256" where
  "get_v2_output amount_in state zero_for_one =
     (if ps_reserves0 state \<noteq> 0 \<and> ps_reserves1 state \<noteq> 0 then
        let (reserve_in, reserve_out) =
          (if zero_for_one then (ps_reserves0 state, ps_reserves1 state)
           else (ps_reserves1 state, ps_reserves0 state))
        in if amount_in = 0 \<or> reserve_in = 0 \<or> reserve_out = 0 then 0
           else let amt_in_with_fee = wide amount_in * 997;
                    numerator = amt_in_with_fee * wide reserve_out;
                    denominator = wide reserve_in * 1000 + amt_in_with_fee
                in u512_to_u256_safe (numerator div denominator)
      else 0)"

section \<open>Stable pools\<close>

definition SCALE_36 :: u128 where "SCALE_36 = 1000000000000000000000000000000000000"

definition aerodrome_k :: "u256 \<Rightarrow> u256 \<Rightarrow> u256" where
  "aerodrome_k x y =
     (let x_u = wide x; y_u = wide y; scale = 10 ^ 18 * 10 ^ 18;
          x3y = (x_u * x_u * x_u * y_u) div scale;
          y3x = (y_u * y_u * y_u * x_u) div scale
      in u512_to_u256_safe (x3y + y3x))"

definition get_aerodrome_marginal_price :: "u256 \<Rightarrow> u256 \<Rightarrow> u256" where
  "get_aerodrome_marginal_price r_in r_out =
     (let x = wide r_in; y = wide r_out; x2 = x * x; y2 = y * y;
          numerator = 3 * x2 * y + y2 * y;
          denominator = x2 * x + 3 * x * y2
      in if denominator = 0 then 0
         else u512_to_u256_safe ((numerator * 10 ^ 18) div denominator))"

text \<open>The refinement loop: at most three steps, left early when the step is zero.\<close>

fun refine_y :: "nat \<Rightarrow> u512 \<Rightarrow> u512 \<Rightarrow> u256 \<Rightarrow> u256 \<Rightarrow> u256" where
  "refine_y 0 x_new x3 k y = y"
| "refine_y (Suc n) x_new x3 k y =
     (let scale = ucast SCALE_36; y_u512 = wide y; y2 = y_u512 * y_u512;
          f_y = (x3 * y_u512 + y2 * y_u512 * x_new) div scale;
          f_prime_y = (x3 + 3 * y2 * x_new) div scale
      in if f_y > wide k then
           let diff = u512_to_u256_safe ((f_y - wide k) div max f_prime_y 1)
           in if diff = 0 then y else refine_y n x_new x3 k (y - min diff (y div 2))
         else
           let diff = u512_to_u256_safe ((wide k - f_y) div max f_prime_y 1)
           in if diff = 0 then y else refine_y n x_new x3 k (y + min diff y))"

definition get_aerodrome_output ::
  "(u128 \<Rightarrow> u128 \<Rightarrow> u128 \<Rightarrow> u128) \<Rightarrow> u256 \<Rightarrow> pool_state \<Rightarrow> bool \<Rightarrow> u256 exec" where
  "get_aerodrome_output guess amount_in state zero_for_one =
     (if \<not> ps_is_stable state then Some (get_v2_output amount_in state zero_for_one)
      else
        let (r_in, r_out) =
          (if zero_for_one then (ps_reserves0 state, ps_reserves1 state)
           else (ps_reserves1 state, ps_reserves0 state))
        in if amount_in = 0 \<or> r_in = 0 \<or> r_out = 0 then Some 0
           else do {
             let amount_in_fee = (amount_in * 9997) div 10000;
             let x_new = r_in + amount_in_fee;
             x_f \<leftarrow> narrow x_new;
             r_in_f \<leftarrow> narrow r_in;
             r_out_f \<leftarrow> narrow r_out;
             let y0 = ucast (guess x_f r_in_f r_out_f);
             let k = aerodrome_k r_in r_out;
             let x = wide x_new;
             let x3 = x * x * x;
             Some (sat_sub r_out (refine_y 3 x x3 k y0))
           })"

section \<open>Paths\<close>

definition hop_output ::
  "(u128 \<Rightarrow> u128 \<Rightarrow> u128 \<Rightarrow> u128) \<Rightarrow> hop \<Rightarrow> u256 \<Rightarrow> pool_state \<Rightarrow> u256 exec" where
  "hop_output guess h amount state =
     (case hop_dex_type h of
        UniswapV2 \<Rightarrow> Some (get_v2_output amount state (hop_zero_for_one h))
      | Aerodrome \<Rightarrow> get_aerodrome_output guess amount state (hop_zero_for_one h)
      | _ \<Rightarrow> Some 0)"

text \<open>\<open>states[i]\<close> panics when there are fewer states than hops.\<close>

fun get_path_output_with_states ::
  "(u128 \<Rightarrow> u128 \<Rightarrow> u128 \<Rightarrow> u128) \<Rightarrow> hop list \<Rightarrow> u256 \<Rightarrow> pool_state list \<Rightarrow> u256 exec" where
  "get_path_output_with_states guess [] amount states = Some amount"
| "get_path_output_with_states guess (h # hs) amount states =
     (if amount = 0 then Some 0
      else case states of
        [] \<Rightarrow> None
      | st # sts \<Rightarrow> do {
          out \<leftarrow> hop_output guess h amount st;
          get_path_output_with_states guess hs out sts
        })"

text \<open>The variant on the mirror looks every pool up, which also refreshes its access time.\<close>

fun path_output_from ::
  "(u128 \<Rightarrow> u128 \<Rightarrow> u128 \<Rightarrow> u128) \<Rightarrow> u64 \<Rightarrow> hop list \<Rightarrow> u256 \<Rightarrow> mirror \<Rightarrow> (u256 \<times> mirror) exec" where
  "path_output_from guess now [] amount m = Some (amount, m)"
| "path_output_from guess now (h # hs) amount m =
     (if amount = 0 then Some (0, m)
      else case get_pool_data now (hop_pool_address h) m of
        (None, m') \<Rightarrow> Some (0, m')
      | (Some st, m') \<Rightarrow> do {
          out \<leftarrow> hop_output guess h amount st;
          path_output_from guess now hs out m'
        })"

definition get_path_output ::
  "(u128 \<Rightarrow> u128 \<Rightarrow> u128 \<Rightarrow> u128) \<Rightarrow> u64 \<Rightarrow> path \<Rightarrow> u256 \<Rightarrow> mirror \<Rightarrow> (u256 \<times> mirror) exec" where
  "get_path_output guess now p input_amount m = path_output_from guess now (path_hops p) input_amount m"

section \<open>The projected impact of a pending swap\<close>

type_synonym impact = "address \<rightharpoonup> u256 \<times> u256"

definition project_reserve_impact :: "mempool_tx \<Rightarrow> mirror \<Rightarrow> impact exec" where
  "project_reserve_impact tx m =
     (let data = tx_data tx in
      if length data < 4 then Some Map.empty
      else case tx_to tx of
        None \<Rightarrow> Some Map.empty
      | Some target \<Rightarrow>
          if take 4 data = [0x02, 0x2c, 0x0d, 0x9f] \<and> length data \<ge> 100 then
            (case DAList.lookup (sm_pools m) target of
               None \<Rightarrow> Some Map.empty
             | Some ps \<Rightarrow> do {
                 s0 \<leftarrow> slice data 4 36;
                 s1 \<leftarrow> slice data 36 68;
                 let amt0_out = from_be_bytes s0;
                 let amt1_out = from_be_bytes s1;
                 let r0 = ps_reserves0 ps;
                 let r1 = ps_reserves1 ps;
                 if amt0_out > 0 then
                   (let new_r0 = sat_sub r0 amt0_out in
                    if new_r0 \<noteq> 0 then do {
                      amt1_in \<leftarrow> u_div (r1 * amt0_out * 1000) (new_r0 * 997);
                      Some [target \<mapsto> (new_r0, r1 + amt1_in)]
                    } else Some Map.empty)
                 else if amt1_out > 0 then
                   (let new_r1 = sat_sub r1 amt1_out in
                    if new_r1 \<noteq> 0 then do {
                      amt0_in \<leftarrow> u_div (r0 * amt1_out * 1000) (new_r1 * 997);
                      Some [target \<mapsto> (r0 + amt0_in, new_r1)]
                    } else Some Map.empty)
                 else Some Map.empty
               })
          else Some Map.empty)"

definition project_reserve_impact_v2 :: "mempool_tx option \<Rightarrow> swap_info \<Rightarrow> mirror \<Rightarrow> impact exec" where
  "project_reserve_impact_v2 pending info m =
     (case pending of
        Some tx \<Rightarrow> if si_amount_in info < 5 * 10 ^ 15 then Some Map.empty else project_reserve_impact tx m
      | None \<Rightarrow> Some Map.empty)"

section \<open>Golden-section search\<close>

definition PHI_NUM :: u256 where "PHI_NUM = 618033988749895"
definition PHI_DEN :: u256 where "PHI_DEN = 1000000000000000"

definition golden :: "u256 \<Rightarrow> u256" where
  "golden w = w * PHI_NUM div PHI_DEN"

record gss_state =
  g_a :: u256
  g_b :: u256
  g_c :: u256
  g_d :: u256
  g_fc :: i256
  g_fd :: i256

definition gss_init :: "(u256 \<Rightarrow> i256) \<Rightarrow> u256 \<Rightarrow> u256 \<Rightarrow> gss_state" where
  "gss_init f a b =
     (let c = b - golden (b - a); d = a + golden (b - a)
      in \<lparr>g_a = a, g_b = b, g_c = c, g_d = d, g_fc = f c, g_fd = f d\<rparr>)"

definition gss_step :: "(u256 \<Rightarrow> i256) \<Rightarrow> gss_state \<Rightarrow> gss_state" where
  "gss_step f s =
     (if g_fc s > g_fd s then
        (let b = g_d s; c = b - golden (b - g_a s)
         in s\<lparr>g_b := b, g_d := g_c s, g_fd := g_fc s, g_c := c, g_fc := f c\<rparr>)
      else
        (let a = g_c s; d = a + golden (g_b s - a)
         in s\<lparr>g_a := a, g_c := g_d s, g_fc := g_fd s, g_d := d, g_fd := f d\<rparr>))"

fun gss_loop :: "nat \<Rightarrow> (u256 \<Rightarrow> i256) \<Rightarrow> gss_state \<Rightarrow> gss_state" where
  "gss_loop 0 f s = s"
| "gss_loop (Suc n) f s = (if g_b s - g_a s < 100000000000 then s else gss_loop n f (gss_step f s))"

definition find_optimal_input :: "u256 \<Rightarrow> u256 \<Rightarrow> (u256 \<Rightarrow> i256) \<Rightarrow> u256 \<times> u256" where
  "find_optimal_input min_in max_in f =
     (let s = gss_loop 40 f (gss_init f min_in max_in);
          optimal_input = (g_a s + g_b s) div 2;
          max_profit = f optimal_input
      in if max_profit \<le> 0 then (0, 0) else (optimal_input, u256_of_i256 max_profit))"

section \<open>The square root and the closed form for two pools\<close>

partial_function (option) sqrt_loop :: "u512 \<Rightarrow> u512 \<Rightarrow> u512 \<Rightarrow> u512 option" where
  "sqrt_loop n x y =
     (if y < x then
        Option.bind (u_div n y) (\<lambda>q. sqrt_loop n y (drop_bit 1 (y + q)))
      else Some x)"

definition uint_sqrt_512 :: "u512 \<Rightarrow> u512 exec" where
  "uint_sqrt_512 n =
     (if n = 0 then Some 0
      else do {
        let bits = bit_len n;
        let x = push_bit (bits div 2 + 1) 1;
        q \<leftarrow> u_div n x;
        sqrt_loop n x (drop_bit 1 (x + q))
      })"

definition calculate_optimal_v2_v2 :: "u256 \<Rightarrow> u256 \<Rightarrow> u256 \<Rightarrow> u256 \<Rightarrow> u32 \<Rightarrow> u32 \<Rightarrow> u256 exec" where
  "calculate_optimal_v2_v2 r1_in r1_out r2_in r2_out fee1_bps fee2_bps = do {
     let g1 = ucast (10000 - fee1_bps);
     let g2 = ucast (10000 - fee2_bps);
     let p1 = wide r1_in * wide r2_in;
     let p2 = wide r1_out * wide r2_out;
     let p3 = g1 * g2;
     let p4 = 100000000;
     sqrt_product \<leftarrow> uint_sqrt_512 (p1 * p2 * p3 * p4);
     let term2 = p1 * 10000;
     if sqrt_product \<le> term2 then Some 0
     else
       let numerator = sqrt_product - term2;
           d1 = 10000 * wide r2_in;
           d2 = g2 * wide r1_out;
           denominator = g1 * (d1 + d2)
       in if denominator = 0 then Some 0
          else Some (u512_to_u256_safe ((numerator * 10000) div denominator))
   }"

section \<open>V3 virtual reserves\<close>

definition get_v3_virtual_reserves :: "u256 \<Rightarrow> u256 \<Rightarrow> bool \<Rightarrow> u256 \<times> u256" where
  "get_v3_virtual_reserves sqrt_price liquidity zero_for_one =
     (if sqrt_price = 0 \<or> liquidity = 0 then (0, 0)
      else let q = push_bit 96 1; l = wide liquidity; sp = wide sqrt_price;
               x = u512_to_u256_safe ((l * q) div sp);
               y = u512_to_u256_safe ((l * sp) div q)
           in if zero_for_one then (x, y) else (y, x))"

definition get_maverick_virtual_reserves :: "u256 \<Rightarrow> u256 \<Rightarrow> bool \<Rightarrow> u256 \<times> u256" where
  "get_maverick_virtual_reserves sqrt_price liquidity zero_for_one =
     get_v3_virtual_reserves sqrt_price liquidity zero_for_one"

definition get_v3_next_sqrt_price :: "u256 \<Rightarrow> u256 \<Rightarrow> u256 \<Rightarrow> bool \<Rightarrow> u256" where
  "get_v3_next_sqrt_price sqrt_price liquidity amount_in zero_for_one =
     (if liquidity = 0 \<or> amount_in = 0 then sqrt_price
      else let q = push_bit 96 1; l = wide liquidity; sp = wide sqrt_price; amt = wide amount_in
           in if zero_for_one then
                let num = l * sp * q; den = l * q + amt * sp
                in if den = 0 then sqrt_price else u512_to_u256_safe (num div den)
              else u512_to_u256_safe (sp + (amt * q) div l))"

end
