(* ===== verification/Log_Pipeline.thy ===== *)
theory Log_Pipeline
  imports State_Mirror Abi_Readers
begin

text \<open>
  The log streams: the listener that mirrors reserves and triggers the detector
  (\<open>src/mempool_listener.rs\<close>, with \<open>decode_v3_swap_log\<close> of \<open>src/v3_math.rs\<close>), the scanner of
  factory events (\<open>src/factory_scanner.rs\<close>) and the historical discovery
  (\<open>src/discovery.rs\<close>). A log is what the RPC library delivers: address, topics, data and
  transaction hash. Subscriptions and sleeping are left out.
\<close>

record rpc_log =
  lg_address :: address
  lg_topics :: "b256 list"
  lg_data :: bytes
  lg_transaction_hash :: "b256 option"

section \<open>Swap logs of V3 pools\<close>

record v3_swap_log =
  vl_amount0 :: i256
  vl_amount1 :: i256
  vl_sqrt_price :: u256
  vl_liquidity :: u256
  vl_tick :: i32

definition i256_word :: "bytes \<Rightarrow> i256" where
  "i256_word bs = sint (from_be_bytes bs :: u256)"

definition decode_v3_swap_log :: "rpc_log \<Rightarrow> v3_swap_log option" where
  "decode_v3_swap_log log =
     (let data = lg_data log in
      if length data < 160 then None
      else let tick = i256_word (take 32 (drop 128 data)) in
        if in_i32 tick then
          Some \<lparr>vl_amount0 = i256_word (take 32 data), vl_amount1 = i256_word (take 32 (drop 32 data)),
                vl_sqrt_price = from_be_bytes (take 32 (drop 64 data)),
                vl_liquidity = from_be_bytes (take 32 (drop 96 data)), vl_tick = tick\<rparr>
        else None)"

section \<open>The listener\<close>

record listener_config =
  lc_endpoints :: "string list"
  lc_stealth :: bool
  lc_extra_endpoints :: "string list"
  lc_worker_count :: usize
  lc_fetcher_count :: usize
  lc_tracked_pools :: "pool_key set"
  lc_use_txpool_content :: bool
  lc_txpool_poll_interval_ms :: u64
  lc_chain :: chain
  lc_min_gas_price_gwei :: u64
  lc_heartbeat_interval_secs :: "u64 option"
  lc_sequencer_endpoint :: "string option"

definition default_listener_config :: listener_config where
  "default_listener_config =
     \<lparr>lc_endpoints = [], lc_stealth = False, lc_extra_endpoints = [], lc_worker_count = 4,
      lc_fetcher_count = 4, lc_tracked_pools = {}, lc_use_txpool_content = False,
      lc_txpool_poll_interval_ms = 200, lc_chain = Base, lc_min_gas_price_gwei = 0,
      lc_heartbeat_interval_secs = Some 20, lc_sequencer_endpoint = None\<rparr>"

record swap_event =
  ev_tx_hash :: b256
  ev_sender :: address
  ev_swap_info :: swap_info
  ev_effective_gas_price :: u256
  ev_received_at :: u64
  ev_is_whale_trigger :: bool
  ev_mempool_tx :: "mempool_tx option"

definition V2_SYNC_TOPIC :: b256 where
  "V2_SYNC_TOPIC = 0x1c411e9a96e071241c2f21f7726b17ae89e3cab4c78be50e062b03a9fffbbad1"

definition V3_SWAP_TOPIC :: b256 where
  "V3_SWAP_TOPIC = 0xc42079f94a6350d7e6235f29174924f928cc2ac818eb64fed8004e115fbcca67"

definition update_mirror_state :: "rpc_log \<Rightarrow> mirror \<Rightarrow> mirror" where
  "update_mirror_state log m =
     (case lg_topics log of
        [] \<Rightarrow> m
      | topic0 # _ \<Rightarrow>
          if topic0 = V2_SYNC_TOPIC then
            (if length (lg_data log) \<ge> 64
             then update_v2_reserves (lg_address log) (from_be_bytes (take 32 (lg_data log)))
                    (from_be_bytes (take 32 (drop 32 (lg_data log)))) m
             else m)
          else if topic0 = V3_SWAP_TOPIC then
            (case decode_v3_swap_log log of
               Some s \<Rightarrow> update_v3_state (lg_address log) (vl_sqrt_price s) (vl_tick s) (vl_liquidity s) m
             | None \<Rightarrow> m)
          else m)"

definition trigger_event :: "u64 \<Rightarrow> b256 \<Rightarrow> address \<Rightarrow> swap_event" where
  "trigger_event now h pool =
     \<lparr>ev_tx_hash = h, ev_sender = 0,
      ev_swap_info = \<lparr>si_dex = NameUniswapV2, si_router = pool, si_token_in = 0, si_token_out = 0,
        si_amount_in = 0, si_amount_out_min = 0, si_to = 0, si_fee = None, si_permit2_nonce = None\<rparr>,
      ev_effective_gas_price = 0, ev_received_at = now, ev_is_whale_trigger = False,
      ev_mempool_tx = None\<rparr>"

text \<open>The set of seen hashes is cleared right after the insertion that overflows it.\<close>

definition process_log_event :: "u64 \<Rightarrow> rpc_log \<Rightarrow> b256 set \<Rightarrow> swap_event option \<times> b256 set" where
  "process_log_event now log seen =
     (case lg_transaction_hash log of
        None \<Rightarrow> (None, seen)
      | Some h \<Rightarrow>
          if h \<in> seen then (None, seen)
          else let seen' = insert h seen;
                   seen'' = (if card seen' > 100000 then {} else seen')
               in (Some (trigger_event now h (lg_address log)), seen''))"

text \<open>The body of the stream loop over a sequence of logs.\<close>

fun listen :: "u64 \<Rightarrow> rpc_log list \<Rightarrow> mirror \<Rightarrow> b256 set \<Rightarrow> swap_event list \<times> mirror \<times> b256 set" where
  "listen now [] m seen = ([], m, seen)"
| "listen now (log # logs) m seen =
     (let m' = update_mirror_state log m;
          (ev, seen') = process_log_event now log seen;
          (evs, m'', seen'') = listen now logs m' seen'
      in ((case ev of Some e \<Rightarrow> e # evs | None \<Rightarrow> evs), m'', seen''))"

section \<open>Factory events\<close>

record v2_pool_data =
  v2_pair :: address
  v2_token_0 :: address
  v2_token_1 :: address
  v2_dex_name :: dex_name

record v3_pool_data =
  v3_pool :: address
  v3_token_0 :: address
  v3_token_1 :: address
  v3_fee :: u32
  v3_dex_name :: dex_name

datatype new_pool_event = NewV2 v2_pool_data | NewV3 v3_pool_data

definition EVENT_AERO_POOL_CREATED :: b256 where
  "EVENT_AERO_POOL_CREATED = 0x212847ad1f2f1ad0d76077f4a7f5f3e728cc2ac818eb64fed8004e115fbcca67"

definition address_from_word :: "b256 \<Rightarrow> address" where
  "address_from_word w = ucast w"

definition data_address :: "bytes \<Rightarrow> nat \<Rightarrow> address option" where
  "data_address data i = (if i + 20 \<le> length data then Some (from_be_bytes (take 20 (drop i data))) else None)"

text \<open>Inserting a key again replaces its name: the V2 entry of BaseSwap does not survive.\<close>

definition setup_factories :: "chain \<Rightarrow> address \<rightharpoonup> dex_name" where
  "setup_factories c =
     (case c of Base \<Rightarrow>
       Map.empty(BASE_AERODROME_FACTORY \<mapsto> NameAerodrome, BASE_BASESWAP_FACTORY \<mapsto> BaseSwap,
         BASE_PANCAKESWAP_FACTORY \<mapsto> PancakeSwap, BASE_SUSHISWAP_FACTORY \<mapsto> SushiSwap,
         BASE_MAVERICK_FACTORY \<mapsto> Maverick,
         0x33128a8fc170d56ed8068699e168a9a301c035de \<mapsto> NameUniswapV3,
         0x04c9f118a4864700721a163744021d21db27c11f \<mapsto> NameUniswapV2,
         0x3d2d7681335a74be482d207137f814ba688849e8 \<mapsto> NameUniswapV2,
         BASE_BASESWAP_FACTORY \<mapsto> NameUniswapV3, BASE_MAVERICK_FACTORY \<mapsto> Maverick))"

definition parse_factory_log :: "(address \<rightharpoonup> dex_name) \<Rightarrow> rpc_log \<Rightarrow> new_pool_event option" where
  "parse_factory_log factory_map log =
     (let topics = lg_topics log; data = lg_data log in
      if topics = [] then None
      else do {
        dex \<leftarrow> factory_map (lg_address log);
        let topic0 = topics ! 0;
        if topic0 = EVENT_V2_PAIR_CREATED then
          (if length topics < 3 then None
           else do {
             pair \<leftarrow> data_address data 12;
             Some (NewV2 \<lparr>v2_pair = pair, v2_token_0 = address_from_word (topics ! 1),
                          v2_token_1 = address_from_word (topics ! 2), v2_dex_name = dex\<rparr>)
           })
        else if topic0 = EVENT_AERO_POOL_CREATED \<and> dex = NameAerodrome then
          (if length topics < 4 then None
           else do {
             pool \<leftarrow> data_address data 12;
             Some (NewV2 \<lparr>v2_pair = pool, v2_token_0 = address_from_word (topics ! 1),
                          v2_token_1 = address_from_word (topics ! 2), v2_dex_name = NameAerodrome\<rparr>)
           })
        else if topic0 = EVENT_V3_POOL_CREATED then
          (if length topics < 4 then None
           else do {
             pool \<leftarrow> data_address data 44;
             Some (NewV3 \<lparr>v3_pool = pool, v3_token_0 = address_from_word (topics ! 1),
                          v3_token_1 = address_from_word (topics ! 2),
                          v3_fee = fee_bytes (drop 29 (to_be_bytes (topics ! 3))), v3_dex_name = dex\<rparr>)
           })
        else None
      })"

section \<open>Historical discovery\<close>

definition parse_historical_log :: "b256 \<Rightarrow> b256 \<Rightarrow> b256 \<Rightarrow> rpc_log \<Rightarrow> new_pool_event option" where
  "parse_historical_log v2 v3 aero log =
     (let topics = lg_topics log; data = lg_data log in
      if topics = [] then None
      else if topics ! 0 = v2 \<and> length topics \<ge> 3 \<and> length data \<ge> 32 then
        Some (NewV2 \<lparr>v2_pair = from_be_bytes (take 20 (drop 12 data)),
                     v2_token_0 = address_from_word (topics ! 1), v2_token_1 = address_from_word (topics ! 2),
                     v2_dex_name = NameUniswapV2\<rparr>)
      else if topics ! 0 = v3 \<and> length topics \<ge> 3 \<and> length data \<ge> 64 then
        Some (NewV3 \<lparr>v3_pool = from_be_bytes (take 20 (drop 44 data)),
                     v3_token_0 = address_from_word (topics ! 1), v3_token_1 = address_from_word (topics ! 2),
                     v3_fee = 0, v3_dex_name = NameUniswapV3\<rparr>)
      else if topics ! 0 = aero \<and> length topics \<ge> 3 \<and> length data \<ge> 32 then
        Some (NewV2 \<lparr>v2_pair = from_be_bytes (take 20 (drop 12 data)),
                     v2_token_0 = address_from_word (topics ! 1), v2_token_1 = address_from_word (topics ! 2),
                     v2_dex_name = NameAerodrome\<rparr>)
      else None)"

definition core_event :: "address \<Rightarrow> address \<Rightarrow> address \<Rightarrow> dex_name \<Rightarrow> new_pool_event" where
  "core_event t0 t1 pair dex = NewV2 \<lparr>v2_pair = pair, v2_token_0 = t0, v2_token_1 = t1, v2_dex_name = dex\<rparr>"

definition bootstrap_core_pools :: "chain \<Rightarrow> new_pool_event list" where
  "bootstrap_core_pools c =
     (if c = Base then
       [core_event TOKEN_WETH TOKEN_USDC POOL_BASESWAP_WETH_USDC BaseSwap,
        core_event TOKEN_WETH TOKEN_USDC POOL_AERO_WETH_USDC NameAerodrome,
        core_event TOKEN_WETH TOKEN_USDC POOL_SUSHI_WETH_USDC SushiSwap,
        core_event TOKEN_WETH TOKEN_USDC POOL_PANCAKESWAP_WETH_USDC PancakeSwap,
        core_event TOKEN_WETH TOKEN_AERO POOL_AERO_WETH_AERO NameAerodrome,
        core_event TOKEN_WETH TOKEN_DEGEN POOL_UNIV2_WETH_DEGEN NameUniswapV2,
        core_event TOKEN_USDC TOKEN_DEGEN POOL_UNIV2_USDC_DEGEN NameUniswapV2,
        core_event TOKEN_WETH TOKEN_BRETT POOL_AERO_WETH_BRETT NameAerodrome,
        core_event TOKEN_WETH TOKEN_CBETH 0x2ae3f1ec7f1f5012cfeab0185bfc7aa3cf0dec22 BaseSwap,
        core_event TOKEN_WETH TOKEN_VIRTUAL 0x0bfbcf9fa4f9c56b0f40a671ad40e0805a091865 NameAerodrome,
        core_event TOKEN_WETH TOKEN_CBBTC 0x4c36388be6f416a29c8d8eee819bb35ed3737a01 NameUniswapV3,
        core_event TOKEN_WETH TOKEN_LINK 0xf891170fd2a3634f0e215578566473d580fc2f9d SushiSwap,
        core_event TOKEN_WETH TOKEN_UNI 0x38924e59761668b37510074929346d5f1370cc9c NameUniswapV3,
        core_event TOKEN_WETH TOKEN_DAI 0x04c9f118a4864700721a163744021d21db27c11f NameUniswapV2,
        core_event TOKEN_WETH TOKEN_USDT 0x3d2d7681335a74be482d207137f814ba688849e8 NameUniswapV2]
      else [])"

text \<open>The block ranges the warm start asks for. Each answer of the provider is the logs of the
  range, or a failure after which the same range is asked again; the list of answers bounds the
  loop.\<close>

fun warm_start_loop :: "b256 \<times> b256 \<times> b256 \<Rightarrow> u64 \<Rightarrow> u64 \<Rightarrow> rpc_log list option list \<Rightarrow> (u64 \<times> u64) list \<times> new_pool_event list" where
  "warm_start_loop topics start_block current_block [] = ([], [])"
| "warm_start_loop topics start_block current_block (reply # replies) =
     (if start_block < current_block then
        let end_batch = min (start_block + 250) current_block in
        (case reply of
           Some logs \<Rightarrow>
             let (v2, v3, aero) = topics;
                 events = List.map_filter (parse_historical_log v2 v3 aero) logs;
                 (ranges, rest) = warm_start_loop topics (end_batch + 1) current_block replies
             in ((start_block, end_batch) # ranges, events @ rest)
         | None \<Rightarrow> warm_start_loop topics start_block current_block replies)
      else ([], []))"

definition warm_start :: "u64 \<Rightarrow> rpc_log list option list \<Rightarrow> (u64 \<times> u64) list \<times> new_pool_event list" where
  "warm_start current_block replies =
     warm_start_loop (EVENT_V2_PAIR_CREATED, EVENT_V3_POOL_CREATED, EVENT_AERO_POOL_CREATED)
       (sat_sub current_block 2000) current_block replies"

section \<open>Facts\<close>

lemma update_mirror_state_other:
  "a \<noteq> lg_address log \<Longrightarrow>
    DAList.lookup (sm_pools (update_mirror_state log m)) a = DAList.lookup (sm_pools m) a"
  by (auto simp: update_mirror_state_def update_v2_reserves_def update_v3_state_def mark_dirty_def
      dm_lookups split: list.split option.split)

lemma process_log_event_seen:
  "finite seen \<Longrightarrow> card seen \<le> 100000 \<Longrightarrow>
    finite (snd (process_log_event now log seen)) \<and> card (snd (process_log_event now log seen)) \<le> 100000"
  by (auto simp: process_log_event_def Let_def split: option.split)

definition log_hashes :: "rpc_log list \<Rightarrow> b256 set" where
  "log_hashes logs = {h. \<exists>log \<in> set logs. lg_transaction_hash log = Some h}"

lemma log_hashes_Cons:
  "log_hashes (log # logs) = (case lg_transaction_hash log of Some h \<Rightarrow> insert h (log_hashes logs) | None \<Rightarrow> log_hashes logs)"
  by (auto simp: log_hashes_def split: option.split)

lemma listen_events:
  "finite seen \<Longrightarrow> card seen + length logs \<le> 100000 \<Longrightarrow>
    distinct (map ev_tx_hash (fst (listen now logs m seen))) \<and>
    ev_tx_hash ` set (fst (listen now logs m seen)) = log_hashes logs - seen"
proof (induction logs arbitrary: m seen)
  case (Cons log logs)
  show ?case
  proof (cases "lg_transaction_hash log")
    case None
    with Cons show ?thesis
      by (simp add: process_log_event_def log_hashes_Cons split: prod.split)
  next
    case (Some h)
    let ?seen = "if h \<in> seen then seen else insert h seen"
    have seen: "finite ?seen" "card ?seen + length logs \<le> 100000"
      using Cons.prems by (auto simp: card_insert_if)
    have step: "process_log_event now log seen =
        (if h \<in> seen then None else Some (trigger_event now h (lg_address log)), ?seen)"
      using Some Cons.prems by (auto simp: process_log_event_def Let_def card_insert_if)
    have hash: "ev_tx_hash (trigger_event now h a) = h" for a by (simp add: trigger_event_def)
    from Cons.IH [OF seen, of "update_mirror_state log m"] show ?thesis
      by (auto simp: step Some hash log_hashes_Cons split: prod.split)
  qed
qed (simp add: log_hashes_def)

section \<open>Properties\<close>

text \<open>A Sync log sets the mirror to the chain: for a pool that is mirrored, after a log that
  carries the encodings of two reserves the mirror holds exactly these reserves and the current
  block for that pool, leaves everything else of it alone, changes no other pool, and is dirty.\<close>

theorem sync_log_mirrors_reserves:
  assumes "lg_topics log = V2_SYNC_TOPIC # ts" and "lg_data log = to_be_bytes r0 @ to_be_bytes r1 @ rest"
  shows "DAList.lookup (sm_pools (update_mirror_state log m)) a =
      (if a = lg_address log
       then map_option (\<lambda>p. p\<lparr>ps_reserves0 := r0, ps_reserves1 := r1,
                             ps_last_updated_block := current_block_number m\<rparr>) (DAList.lookup (sm_pools m) a)
       else DAList.lookup (sm_pools m) a) \<and>
    sm_dirty_flag (update_mirror_state log m)"
  using assms
  by (simp add: update_mirror_state_def update_v2_reserves_def mark_dirty_def current_block_number_def dm_lookups)

theorem sync_log_mirrors_reserves_witness:
  "DAList.lookup (sm_pools (update_mirror_state
      \<lparr>lg_address = 9, lg_topics = [V2_SYNC_TOPIC], lg_data = to_be_bytes (7 :: u256) @ to_be_bytes (8 :: u256) @ [],
       lg_transaction_hash = None\<rparr> (mirror_new None None))) 10 = None"
  using sync_log_mirrors_reserves [of "\<lparr>lg_address = 9, lg_topics = [V2_SYNC_TOPIC],
      lg_data = to_be_bytes (7 :: u256) @ to_be_bytes (8 :: u256) @ [], lg_transaction_hash = None\<rparr>" "[]" 7 8 "[]" "mirror_new None None" 10]
  by (simp add: mirror_new_def load_state_checkpoint_def)

text \<open>One trigger per transaction: over any sequence of logs that does not overflow the set of
  seen hashes, the listener raises exactly one event for every transaction hash it had not seen,
  so of several pools a transaction touches only the first one is ever searched.\<close>

theorem one_event_per_transaction:
  assumes "finite seen" and "card seen + length logs \<le> 100000"
  shows "distinct (map ev_tx_hash (fst (listen now logs m seen))) \<and>
    ev_tx_hash ` set (fst (listen now logs m seen)) = log_hashes logs - seen"
  using listen_events [OF assms] .

theorem one_event_per_transaction_witness:
  "ev_tx_hash ` set (fst (listen 0
      [\<lparr>lg_address = 1, lg_topics = [], lg_data = [], lg_transaction_hash = Some 5\<rparr>,
       \<lparr>lg_address = 2, lg_topics = [], lg_data = [], lg_transaction_hash = Some 5\<rparr>] (mirror_new None None) {})) = {5}"
  using one_event_per_transaction [of "{}" "[\<lparr>lg_address = 1, lg_topics = [], lg_data = [], lg_transaction_hash = Some 5\<rparr>,
       \<lparr>lg_address = 2, lg_topics = [], lg_data = [], lg_transaction_hash = Some 5\<rparr>]" 0 "mirror_new None None"]
  by (simp add: log_hashes_Cons) (simp add: log_hashes_def)

end
