(* ===== verification/Detector.thy ===== *)
theory Detector
  imports Path_Graph Math_Engine Log_Pipeline
begin

text \<open>
  The detector of \<open>src/arbitrage_detector.rs\<close> around the graph search: its configuration, the
  handlers of its event loop, and \<open>process_event\<close>, which turns a swap into search tasks and
  prices the paths they find. The spawned tasks are run one after the other in spawn order;
  they share only the access times of the mirror and the counter of found cycles. The Newton
  search is floating point and an argument, as are the skew test and the hasher.
\<close>

record detector_config =
  dc_min_profit_wei :: u256
  dc_max_path_length :: usize
  dc_important_tokens :: "address set"
  dc_multicall_address :: address
  dc_factories :: "dex_name \<rightharpoonup> address"
  dc_scanner_threads :: usize
  dc_min_liquidity_eth :: u64
  dc_chain :: chain
  dc_priority_fee_percent :: u64
  dc_bribe_percent :: u64
  dc_flashbots_relay :: "string option"
  dc_executor_address :: address
  dc_pool_limit :: usize

definition default_detector_config :: detector_config where
  "default_detector_config =
     \<lparr>dc_min_profit_wei = 1, dc_max_path_length = MAX_HOPS,
      dc_important_tokens = (case SAFE_TOKENS Base of Some ts \<Rightarrow> set ts | None \<Rightarrow> {}),
      dc_multicall_address = 0xca11bde05977b3631167028862be2a173976ca11, dc_factories = Map.empty,
      dc_scanner_threads = 8, dc_min_liquidity_eth = 1, dc_chain = Base,
      dc_priority_fee_percent = 10, dc_bribe_percent = 50, dc_flashbots_relay = None,
      dc_executor_address = 0, dc_pool_limit = 10\<rparr>"

record detector =
  de_config :: detector_config
  de_graph :: static_graph
  de_pool_registry :: pool_registry
  de_pool_activity :: timestamps
  de_alpha_grace_period :: timestamps

definition detector_new :: "detector_config \<Rightarrow> detector" where
  "detector_new config = \<lparr>de_config = config, de_graph = empty_graph, de_pool_registry = DAList.empty,
     de_pool_activity = DAList.empty, de_alpha_grace_period = DAList.empty\<rparr>"

section \<open>The handlers of the event loop\<close>

definition refresh_graph :: "(address set \<Rightarrow> address list) \<Rightarrow> u64 \<Rightarrow> mirror \<Rightarrow> detector \<Rightarrow> detector exec" where
  "refresh_graph set_order now m d = do {
     g \<leftarrow> rebuild_graph set_order now m (de_pool_registry d) (de_pool_activity d) (de_alpha_grace_period d);
     Some (d\<lparr>de_graph := g\<rparr>)
   }"

definition sync_registry :: "(address set \<Rightarrow> address list) \<Rightarrow> u64 \<Rightarrow> mirror \<Rightarrow> detector \<Rightarrow> detector exec" where
  "sync_registry set_order now m d =
     refresh_graph set_order now m
       (d\<lparr>de_pool_registry := dm_retain (\<lambda>a _. dm_contains (sm_pools m) a) (de_pool_registry d)\<rparr>)"

definition on_new_pool :: "(address set \<Rightarrow> address list) \<Rightarrow> u64 \<Rightarrow> mirror \<Rightarrow> new_pool_event \<Rightarrow> detector \<Rightarrow> detector exec" where
  "on_new_pool set_order now m ev d =
     (let (pool, entry) = (case ev of
            NewV2 data \<Rightarrow> (v2_pair data, (v2_token_0 data, v2_token_1 data, v2_dex_name data))
          | NewV3 data \<Rightarrow> (v3_pool data, (v3_token_0 data, v3_token_1 data, v3_dex_name data)))
      in refresh_graph set_order now m
           (d\<lparr>de_pool_registry := DAList.update pool entry (de_pool_registry d),
              de_alpha_grace_period := DAList.update pool now (de_alpha_grace_period d)\<rparr>))"

definition get_pool_from_router :: "pool_registry \<Rightarrow> address \<Rightarrow> address \<Rightarrow> address option" where
  "get_pool_from_router registry t_in t_out =
     map_option fst (List.find (\<lambda>(a, t0, t1, _). t0 = t_in \<and> t1 = t_out \<or> t0 = t_out \<and> t1 = t_in)
       (dm_entries registry))"

definition touch_activity :: "u64 \<Rightarrow> swap_event \<Rightarrow> detector \<Rightarrow> detector" where
  "touch_activity now ev d =
     (let info = ev_swap_info ev in
      if si_token_in info = 0
      then d\<lparr>de_pool_activity := DAList.update (si_router info) now (de_pool_activity d)\<rparr>
      else case get_pool_from_router (de_pool_registry d) (si_token_in info) (si_token_out info) of
             Some pool \<Rightarrow> d\<lparr>de_pool_activity := DAList.update pool now (de_pool_activity d)\<rparr>
           | None \<Rightarrow> d)"

section \<open>Pricing the paths of a task\<close>

definition with_impact :: "impact \<Rightarrow> address \<Rightarrow> pool_state \<Rightarrow> pool_state" where
  "with_impact impacts a st =
     (case impacts a of
        Some (r0, r1) \<Rightarrow> st\<lparr>ps_reserves0 := r0, ps_reserves1 := r1\<rparr>
      | None \<Rightarrow> st)"

fun fetch_states :: "u64 \<Rightarrow> impact \<Rightarrow> hop list \<Rightarrow> mirror \<Rightarrow> pool_state list \<times> mirror" where
  "fetch_states now impacts [] m = ([], m)"
| "fetch_states now impacts (h # hs) m =
     (case get_pool_data now (hop_pool_address h) m of
        (Some st, m') \<Rightarrow>
          let (sts, m'') = fetch_states now impacts hs m'
          in (with_impact impacts (hop_pool_address h) st # sts, m'')
      | (None, m') \<Rightarrow> ([], m'))"

text \<open>\<open>I256::try_from(x).unwrap_or_default()\<close>.\<close>

definition i256_or_zero :: "u256 \<Rightarrow> i256" where
  "i256_or_zero x = (if uint x < 2 ^ 255 then uint x else 0)"

type_synonym float_guess = "u128 \<Rightarrow> u128 \<Rightarrow> u128 \<Rightarrow> u128"
type_synonym newton_search = "hop list \<Rightarrow> pool_state list \<Rightarrow> u256 exec"

text \<open>The closure of the golden-section search. It is only used on paths without Aerodrome
  pools, where the path output is always defined (\<open>path_output_defined\<close> in \<open>Detector_Facts\<close>).\<close>

definition path_profit :: "float_guess \<Rightarrow> hop list \<Rightarrow> pool_state list \<Rightarrow> u256 \<Rightarrow> i256" where
  "path_profit guess hops states amt =
     (case get_path_output_with_states guess hops amt states of
        Some out \<Rightarrow> i256_or_zero (sat_sub out amt)
      | None \<Rightarrow> 0)"

definition price_path :: "float_guess \<Rightarrow> newton_search \<Rightarrow> hop list \<Rightarrow> pool_state list \<Rightarrow> (u256 \<times> u256) exec" where
  "price_path guess newton hops states =
     (if \<exists>h \<in> set hops. hop_dex_name h = NameAerodrome then do {
        opt_in \<leftarrow> newton hops states;
        out \<leftarrow> get_path_output_with_states guess hops opt_in states;
        Some (opt_in, sat_sub out opt_in)
      }
      else Some (find_optimal_input (10 ^ 15) (100 * 10 ^ 18) (path_profit guess hops states)))"

definition new_opportunity ::
  "u64 \<Rightarrow> path \<Rightarrow> u256 \<Rightarrow> address \<Rightarrow> u256 \<Rightarrow> mempool_tx list \<Rightarrow> chain \<Rightarrow> address \<Rightarrow> opportunity" where
  "new_opportunity number p profit input_token input_amount pending c sender =
     \<lparr>op_id = ''cycle-'' @ decimal (unat number), op_path = p, op_expected_profit = profit,
      op_gas_cost = 0, op_gas_estimate = 0, op_base_fee = 0, op_priority_fee = 0,
      op_input_token = input_token, op_input_amount = input_amount, op_profit_details = None,
      op_executor_address = 0, op_is_whale_trigger = False, op_chain = c,
      op_trigger_gas_price = None, op_trigger_sender = Some sender, op_pending_txs = pending,
      op_success_prob = 0, op_static_calldata = []\<rparr>"

record pricing_env =
  pr_guess :: float_guess
  pr_newton :: newton_search
  pr_hasher :: "(address \<times> address) list \<Rightarrow> u64"

fun price_paths ::
  "pricing_env \<Rightarrow> u64 \<Rightarrow> detector_config \<Rightarrow> impact \<Rightarrow> swap_event \<Rightarrow> hop list list \<Rightarrow> mirror \<times> u64
     \<Rightarrow> (opportunity list \<times> mirror \<times> u64) exec" where
  "price_paths env now config impacts ev [] (m, found) = Some ([], m, found)"
| "price_paths env now config impacts ev (hops # paths) (m, found) =
     (let (states, m') = fetch_states now impacts hops m in
      if length states \<noteq> length hops then price_paths env now config impacts ev paths (m', found)
      else do {
        first \<leftarrow> index hops 0;
        (optimal_in, profit) \<leftarrow> price_path (pr_guess env) (pr_newton env) hops states;
        if profit > dc_min_profit_wei config then do {
          let number = found + 1;
          let opp = new_opportunity number (path_new (pr_hasher env) hops 200000) profit
            (hop_token_in first) optimal_in
            (case ev_mempool_tx ev of Some tx \<Rightarrow> [tx] | None \<Rightarrow> []) (dc_chain config) (ev_sender ev);
          (opps, m'', found') \<leftarrow> price_paths env now config impacts ev paths (m', number);
          Some (opp # opps, m'', found')
        }
        else price_paths env now config impacts ev paths (m', found)
      })"

section \<open>Processing a swap\<close>

definition is_ai_swap :: "swap_info \<Rightarrow> bool" where
  "is_ai_swap info \<longleftrightarrow> is_ai_token (si_token_in info) \<or> is_ai_token (si_token_out info)"

definition search_directions :: "pool_registry \<Rightarrow> swap_info \<Rightarrow> (address \<times> address) list" where
  "search_directions registry info =
     (if si_token_in info = 0 then
        (case DAList.lookup registry (si_router info) of
           Some (t0, t1, _) \<Rightarrow> [(t0, t1), (t1, t0)]
         | None \<Rightarrow> [])
      else [(si_token_in info, si_token_out info), (si_token_out info, si_token_in info)])"

text \<open>The tasks of one direction: the start token, the current token and an edge of its row.\<close>

definition direction_tasks :: "static_graph \<Rightarrow> address \<times> address \<Rightarrow> (u32 \<times> u32 \<times> static_edge) list exec" where
  "direction_tasks g dir =
     (case (sg_token_to_idx g (fst dir), sg_token_to_idx g (snd dir)) of
        (Some start_token, Some current_token) \<Rightarrow> do {
          lo \<leftarrow> index (sg_nodes g) (unat current_token);
          hi \<leftarrow> index (sg_nodes g) (unat current_token + 1);
          exec_fold (\<lambda>i ts. map_option (\<lambda>e. ts @ [(start_token, current_token, e)]) (index (sg_edges g) i))
            [unat lo..<unat hi] []
        }
      | _ \<Rightarrow> Some [])"

definition run_task ::
  "pricing_env \<Rightarrow> u64 \<Rightarrow> detector_config \<Rightarrow> impact \<Rightarrow> swap_event \<Rightarrow> static_graph \<Rightarrow> u32 \<times> u32 \<times> static_edge
     \<Rightarrow> opportunity list \<times> mirror \<times> u64 \<Rightarrow> (opportunity list \<times> mirror \<times> u64) exec" where
  "run_task env now config impacts ev g task st =
     (let (start_token, current_token, e) = task; (opps, m, found) = st in do {
        paths \<leftarrow> branch_paths g m (si_router (ev_swap_info ev)) start_token current_token
                   (unat (dc_max_path_length config)) e;
        (new, m', found') \<leftarrow> price_paths env now config impacts ev paths (m, found);
        Some (opps @ new, m', found')
      })"

definition skew_check :: "(u256 \<Rightarrow> u256 \<Rightarrow> bool exec) \<Rightarrow> u64 \<Rightarrow> swap_event \<Rightarrow> mirror \<Rightarrow> detector \<Rightarrow> (mirror \<times> detector) exec" where
  "skew_check skewed now ev m d =
     (let info = ev_swap_info ev in
      if is_ai_swap info then
        (case get_pool_data now (si_router info) m of
           (Some st, m') \<Rightarrow> do {
             hot \<leftarrow> skewed (ps_reserves0 st) (ps_reserves1 st);
             Some (m', if hot then d\<lparr>de_pool_activity := DAList.update (si_router info) now (de_pool_activity d)\<rparr>
                       else d)
           }
         | (None, m') \<Rightarrow> Some (m', d))
      else Some (m, d))"

definition process_event ::
  "pricing_env \<Rightarrow> (u256 \<Rightarrow> u256 \<Rightarrow> bool exec) \<Rightarrow> u64 \<Rightarrow> swap_event \<Rightarrow> detector \<Rightarrow> mirror \<Rightarrow> u64
     \<Rightarrow> (opportunity list \<times> detector \<times> mirror \<times> u64) exec" where
  "process_event env skewed now ev d m found =
     (if is_congested m (si_router (ev_swap_info ev)) 3 then Some ([], d, m, found)
      else do {
        impacts \<leftarrow> project_reserve_impact_v2 (ev_mempool_tx ev) (ev_swap_info ev) m;
        (m1, d1) \<leftarrow> skew_check skewed now ev m d;
        task_lists \<leftarrow> exec_fold (\<lambda>dir acc. map_option (\<lambda>ts. acc @ ts) (direction_tasks (de_graph d) dir))
          (search_directions (de_pool_registry d) (ev_swap_info ev)) [];
        (opps, m2, found') \<leftarrow>
          exec_fold (run_task env now (de_config d) impacts ev (de_graph d)) task_lists ([], m1, found);
        Some (opps, d1, m2, found')
      })"

end
