(* ===== verification/Path_Facts.thy ===== *)
theory Path_Facts
  imports Path_Graph
begin

text \<open>
  Correctness of the graph and of the cycle search. The visited words implement a set of
  pools (locale \<open>undoable_set\<close>, interpreted on the 64 words of the search); the search is
  refined to the list of walks \<open>cycle_walks\<close>, and those are characterised as exactly the
  simple walks that first reach the target at their last edge. The sparse rows are proved to
  hold exactly the pools that were collected.
\<close>

unbundle bit_operations_syntax

section \<open>A set with undo\<close>

locale undoable_set =
  fixes mem :: "'v \<Rightarrow> 'p \<Rightarrow> bool exec"
    and add :: "'v \<Rightarrow> 'p \<Rightarrow> 'v exec"
    and undo :: "'v \<Rightarrow> 'p \<Rightarrow> 'v exec"
    and good :: "'v \<Rightarrow> bool"
    and fits :: "'p \<Rightarrow> bool"
    and contents :: "'v \<Rightarrow> 'p set"
  assumes mem: "good v \<Longrightarrow> fits p \<Longrightarrow> mem v p = Some (p \<in> contents v)"
    and add: "good v \<Longrightarrow> fits p \<Longrightarrow>
      \<exists>v'. add v p = Some v' \<and> good v' \<and> contents v' = insert p (contents v)"
    and undo: "good v \<Longrightarrow> fits p \<Longrightarrow> p \<notin> contents v \<Longrightarrow> add v p = Some v' \<Longrightarrow> undo v' p = Some v"
    and full: "good v \<Longrightarrow> \<not> fits p \<Longrightarrow> mem v p = None"
begin

text \<open>Testing, adding, working on the bigger set and undoing: what a search does for one
  element, provided the work restores what it was given.\<close>

lemma bracket:
  assumes "good v" "fits p" "p \<notin> contents v"
  obtains v' where "add v p = Some v'" "good v'" "contents v' = insert p (contents v)"
    "undo v' p = Some v"
  using add [OF assms(1,2)] undo [OF assms] by blast

end

lemma unat_and_63: "unat (p AND 63 :: u32) = unat p mod 64"
proof -
  have "p AND 63 = take_bit 6 p"
    by (simp add: take_bit_eq_mask mask_eq_exp_minus_1)
  then show ?thesis by (simp add: take_bit_eq_mod unat_mod)
qed

lemma unat_shift_6: "unat (drop_bit 6 p :: u32) = unat p div 64"
  by (simp add: drop_bit_eq_div unat_div)

definition visited_pools :: "visited \<Rightarrow> u32 set" where
  "visited_pools v = {p. unat p < 4096 \<and> bit (v ! (unat p div 64)) (unat p mod 64)}"

lemma is_visited_eq:
  "is_visited v p = map_option (\<lambda>w. bit w (unat p mod 64)) (index v (unat p div 64))"
  by (cases "index v (unat p div 64)")
    (simp_all add: is_visited_def unat_shift_6 unat_and_63 bit_iff_and_drop_bit_eq_1)

lemma visit_eq:
  "visit v p = map_option (\<lambda>w. v[unat p div 64 := w OR push_bit (unat p mod 64) 1]) (index v (unat p div 64))"
  by (cases "index v (unat p div 64)") (simp_all add: visit_def unat_shift_6 unat_and_63)

lemma unvisit_eq:
  "unvisit v p = map_option (\<lambda>w. v[unat p div 64 := w AND NOT (push_bit (unat p mod 64) 1)]) (index v (unat p div 64))"
  by (cases "index v (unat p div 64)") (simp_all add: unvisit_def unat_shift_6 unat_and_63)

lemma bit_set_one: "k < 64 \<Longrightarrow> bit (w OR push_bit k 1 :: u64) j \<longleftrightarrow> bit w j \<or> j = k"
  by (auto simp: bit_simps)

lemma set_then_clear:
  assumes "\<not> bit w k"
  shows "(w OR push_bit k 1) AND NOT (push_bit k 1) = (w :: u64)"
  by (rule bit_eqI) (use assms in \<open>auto simp: bit_simps\<close>)

lemma same_slot: "unat (p :: u32) div 64 = unat q div 64 \<Longrightarrow> unat p mod 64 = unat q mod 64 \<Longrightarrow> p = q"
  by (metis div_mult_mod_eq word_unat_eq_iff)

lemma visit_pools:
  assumes "length v = 64" "unat p < 4096"
  shows "\<exists>v'. visit v p = Some v' \<and> length v' = 64 \<and> visited_pools v' = insert p (visited_pools v)"
proof -
  have i: "unat p div 64 < 64" using assms(2) by (simp add: div_less_iff_less_mult)
  let ?v = "v[unat p div 64 := v ! (unat p div 64) OR push_bit (unat p mod 64) 1]"
  have "visit v p = Some ?v" using i assms(1) by (simp add: visit_eq index_def)
  moreover have "visited_pools ?v = insert p (visited_pools v)"
  proof (rule set_eqI)
    fix q :: u32
    have "unat q < 4096 \<Longrightarrow> unat q div 64 < 64" by (simp add: div_less_iff_less_mult)
    then show "q \<in> visited_pools ?v \<longleftrightarrow> q \<in> insert p (visited_pools v)"
      using assms i same_slot [of q p]
      by (cases "unat q div 64 = unat p div 64")
        (auto simp: visited_pools_def bit_set_one nth_list_update simp del: push_bit_of_1)
  qed
  ultimately show ?thesis using assms(1) by simp
qed

interpretation bitset: undoable_set is_visited visit unvisit "\<lambda>v. length v = 64" "\<lambda>p. unat p < 4096" visited_pools
proof unfold_locales
  fix v :: visited and p :: u32 and v'
  assume v: "length v = 64"
  { assume p: "unat p < 4096"
    then have i: "unat p div 64 < 64" by (simp add: div_less_iff_less_mult)
    then show "is_visited v p = Some (p \<in> visited_pools v)"
      using v p by (simp add: is_visited_eq index_def visited_pools_def)
    show "\<exists>v'. visit v p = Some v' \<and> length v' = 64 \<and> visited_pools v' = insert p (visited_pools v)"
      using visit_pools [OF v p] .
    assume "p \<notin> visited_pools v" "visit v p = Some v'"
    then show "unvisit v' p = Some v"
      using v p i by (auto simp: visit_eq unvisit_eq index_def visited_pools_def set_then_clear simp del: push_bit_of_1) }
  assume "\<not> unat p < 4096"
  then have "\<not> unat p div 64 < 64" by (simp add: div_less_iff_less_mult)
  then show "is_visited v p = None" using v by (simp add: is_visited_eq index_def)
qed

section \<open>The search as a list of walks\<close>

definition out_edges :: "static_graph \<Rightarrow> u32 \<Rightarrow> static_edge list" where
  "out_edges g c = map (nth (sg_edges g))
     [unat (sg_nodes g ! unat c)..<unat (sg_nodes g ! (unat c + 1))]"

definition graph_ok :: "static_graph \<Rightarrow> bool" where
  "graph_ok g \<longleftrightarrow> length (sg_nodes g) = length (sg_tokens g) + 1 \<and>
     (\<forall>i < length (sg_nodes g). unat (sg_nodes g ! i) \<le> length (sg_edges g)) \<and>
     (\<forall>e \<in> set (sg_edges g). unat (se_pool_idx e) < length (sg_pools g) \<and>
        unat (se_pool_idx e) < 4096 \<and> unat (se_target_token_idx e) < length (sg_tokens g))"

type_synonym walk = "(u32 \<times> static_edge) list"

fun cycle_walks :: "static_graph \<Rightarrow> u32 \<Rightarrow> nat \<Rightarrow> u32 set \<Rightarrow> u32 \<Rightarrow> walk list" where
  "cycle_walks g t 0 used c = []"
| "cycle_walks g t (Suc n) used c =
     concat (map (\<lambda>e. if se_pool_idx e \<in> used then []
                      else if se_target_token_idx e = t then [[(c, e)]]
                      else map ((#) (c, e))
                        (cycle_walks g t n (insert (se_pool_idx e) used) (se_target_token_idx e)))
       (out_edges g c))"

definition walk_hop :: "static_graph \<Rightarrow> mirror \<Rightarrow> u32 \<times> static_edge \<Rightarrow> hop" where
  "walk_hop g m step = the (edge_hop g m (fst step) (snd step))"

lemma exec_fold_results:
  assumes "\<And>i s. i \<in> set is \<Longrightarrow> ds_visited s = v \<Longrightarrow> ds_hops s = h \<Longrightarrow>
      f i s = Some (s\<lparr>ds_results := ds_results s @ out i\<rparr>)"
    and "ds_visited st = v" and "ds_hops st = h"
  shows "exec_fold f is (st :: dfs_state) = Some (st\<lparr>ds_results := ds_results st @ concat (map out is)\<rparr>)"
  using assms
proof (induction "is" arbitrary: st)
  case (Cons i "is")
  have "f i st = Some (st\<lparr>ds_results := ds_results st @ out i\<rparr>)" using Cons.prems by simp
  moreover have "exec_fold f is (st\<lparr>ds_results := ds_results st @ out i\<rparr>) =
      Some (st\<lparr>ds_results := ds_results st @ out i @ concat (map out is)\<rparr>)"
    using Cons.IH [of "st\<lparr>ds_results := ds_results st @ out i\<rparr>"] Cons.prems by simp
  ultimately show ?case by simp
qed simp

lemma edge_hop_defined:
  assumes "graph_ok g" "e \<in> set (sg_edges g)" "unat c < length (sg_tokens g)"
  shows "edge_hop g m c e = Some (walk_hop g m (c, e))"
  using assms by (auto simp: graph_ok_def edge_hop_def walk_hop_def index_def)

lemma dfs_edge_spec:
  assumes ok: "graph_ok g" and i: "i < length (sg_edges g)" and c: "unat c < length (sg_tokens g)"
    and v: "length (ds_visited st) = 64"
    and rec: "\<And>s. length (ds_visited s) = 64 \<Longrightarrow>
      descend (se_target_token_idx (sg_edges g ! i)) s =
        Some (s\<lparr>ds_results := ds_results s @ map (\<lambda>w. ds_hops s @ map (walk_hop g m) w)
          (cycle_walks g t n (visited_pools (ds_visited s)) (se_target_token_idx (sg_edges g ! i)))\<rparr>)"
  shows "dfs_edge g m t descend c i st =
    Some (st\<lparr>ds_results := ds_results st @ map (\<lambda>w. ds_hops st @ map (walk_hop g m) w)
      ((\<lambda>e. if se_pool_idx e \<in> visited_pools (ds_visited st) then []
            else if se_target_token_idx e = t then [[(c, e)]]
            else map ((#) (c, e)) (cycle_walks g t n (insert (se_pool_idx e) (visited_pools (ds_visited st)))
              (se_target_token_idx e))) (sg_edges g ! i))\<rparr>)"
proof -
  let ?e = "sg_edges g ! i"
  let ?p = "se_pool_idx ?e"
  have e: "?e \<in> set (sg_edges g)" using i by simp
  then have p: "unat ?p < 4096" using ok by (auto simp: graph_ok_def)
  have hop: "edge_hop g m c ?e = Some (walk_hop g m (c, ?e))" by (rule edge_hop_defined [OF ok e c])
  show ?thesis
  proof (cases "?p \<in> visited_pools (ds_visited st)")
    case True
    then show ?thesis using i bitset.mem [OF v p] by (simp add: dfs_edge_def index_def)
  next
    case False
    from bitset.bracket [OF v p False] obtain v' where v':
      "visit (ds_visited st) ?p = Some v'" "length v' = 64"
      "visited_pools v' = insert ?p (visited_pools (ds_visited st))" "unvisit v' ?p = Some (ds_visited st)" .
    let ?s = "st\<lparr>ds_hops := ds_hops st @ [walk_hop g m (c, ?e)], ds_visited := v'\<rparr>"
    have r: "descend (se_target_token_idx ?e) ?s =
        Some (?s\<lparr>ds_results := ds_results st @ map (\<lambda>w. ds_hops st @ walk_hop g m (c, ?e) # map (walk_hop g m) w)
          (cycle_walks g t n (insert ?p (visited_pools (ds_visited st))) (se_target_token_idx ?e))\<rparr>)"
      using rec [of ?s] v' by simp
    show ?thesis
      using False i bitset.mem [OF v p] hop v' r
      by (auto simp: dfs_edge_def index_def Let_def comp_def)
  qed
qed

lemma dfs_levels_spec:
  assumes ok: "graph_ok g"
  shows "unat c < length (sg_tokens g) \<Longrightarrow> length (ds_visited st) = 64 \<Longrightarrow>
    dfs_levels g m t n c st =
      Some (st\<lparr>ds_results := ds_results st @ map (\<lambda>w. ds_hops st @ map (walk_hop g m) w)
        (cycle_walks g t n (visited_pools (ds_visited st)) c)\<rparr>)"
proof (induction n arbitrary: c st)
  case (Suc n)
  let ?lo = "unat (sg_nodes g ! unat c)" and ?hi = "unat (sg_nodes g ! (unat c + 1))"
  let ?row = "\<lambda>e. if se_pool_idx e \<in> visited_pools (ds_visited st) then []
            else if se_target_token_idx e = t then [[(c, e)]]
            else map ((#) (c, e)) (cycle_walks g t n (insert (se_pool_idx e) (visited_pools (ds_visited st)))
              (se_target_token_idx e))"
  let ?out = "\<lambda>i. map (\<lambda>w. ds_hops st @ map (walk_hop g m) w) (?row (sg_edges g ! i))"
  have nodes: "unat c < length (sg_nodes g)" "unat c + 1 < length (sg_nodes g)"
    using ok Suc.prems(1) by (auto simp: graph_ok_def)
  then have hi: "?hi \<le> length (sg_edges g)" using ok by (auto simp: graph_ok_def)
  have "exec_fold (dfs_edge g m t (\<lambda>next s. dfs_levels g m t n next s) c) [?lo..<?hi] st =
      Some (st\<lparr>ds_results := ds_results st @ concat (map ?out [?lo..<?hi])\<rparr>)"
  proof (rule exec_fold_results)
    fix i and s :: dfs_state assume i: "i \<in> set [?lo..<?hi]" and s: "ds_visited s = ds_visited st" "ds_hops s = ds_hops st"
    from i hi have i': "i < length (sg_edges g)" by simp
    then have "sg_edges g ! i \<in> set (sg_edges g)" by simp
    then have "unat (se_target_token_idx (sg_edges g ! i)) < length (sg_tokens g)"
      using ok by (auto simp: graph_ok_def)
    note rec = Suc.IH [OF this]
    from dfs_edge_spec [OF ok i' Suc.prems(1), where st = s and t = t and n = n and m = m
        and descend = "\<lambda>next s. dfs_levels g m t n next s", OF _ rec] s Suc.prems(2)
    show "dfs_edge g m t (\<lambda>next s. dfs_levels g m t n next s) c i s =
        Some (s\<lparr>ds_results := ds_results s @ ?out i\<rparr>)" by simp
  qed simp_all
  moreover have "concat (map ?out [?lo..<?hi]) =
      map (\<lambda>w. ds_hops st @ map (walk_hop g m) w) (concat (map ?row (out_edges g c)))"
    by (simp only: out_edges_def map_concat map_map comp_def)
  ultimately show ?case using nodes by (simp add: index_def)
qed simp

text \<open>The walks, declaratively.\<close>

fun chained :: "static_graph \<Rightarrow> u32 \<Rightarrow> walk \<Rightarrow> bool" where
  "chained g c [] = True"
| "chained g c ((x, e) # w) = (x = c \<and> e \<in> set (out_edges g c) \<and> chained g (se_target_token_idx e) w)"

definition is_cycle_walk :: "static_graph \<Rightarrow> u32 \<Rightarrow> nat \<Rightarrow> u32 set \<Rightarrow> u32 \<Rightarrow> walk \<Rightarrow> bool" where
  "is_cycle_walk g t n used c w \<longleftrightarrow> w \<noteq> [] \<and> length w \<le> n \<and> chained g c w \<and>
     distinct (map (\<lambda>xe. se_pool_idx (snd xe)) w) \<and> (\<forall>xe \<in> set w. se_pool_idx (snd xe) \<notin> used) \<and>
     se_target_token_idx (snd (last w)) = t \<and> (\<forall>xe \<in> set (butlast w). se_target_token_idx (snd xe) \<noteq> t)"

lemma is_cycle_walk_Cons:
  "is_cycle_walk g t (Suc n) used c ((x, e) # w) \<longleftrightarrow>
     x = c \<and> e \<in> set (out_edges g c) \<and> se_pool_idx e \<notin> used \<and>
     (if se_target_token_idx e = t then w = []
      else is_cycle_walk g t n (insert (se_pool_idx e) used) (se_target_token_idx e) w)"
  by (cases w) (auto simp: is_cycle_walk_def image_iff split: if_splits)

lemma cycle_walks_iff: "w \<in> set (cycle_walks g t n used c) \<longleftrightarrow> is_cycle_walk g t n used c w"
proof (induction n arbitrary: used c w)
  case 0
  show ?case by (auto simp: is_cycle_walk_def)
next
  case (Suc n)
  show ?case
  proof (cases w)
    case Nil
    then show ?thesis by (auto simp: is_cycle_walk_def)
  next
    case (Cons xe w')
    obtain x e where xe: "xe = (x, e)" by (cases xe)
    show ?thesis unfolding Cons xe is_cycle_walk_Cons
      by (auto simp: Suc.IH image_iff split: if_splits)
  qed
qed

section \<open>The layout of the graph\<close>

lemma index_map_nth:
  assumes "distinct xs" "i < length xs"
  shows "index_map xs (xs ! i) = Some (word_of_nat i)"
proof -
  let ?ps = "zip xs (map word_of_nat [0..<length xs]) :: (address \<times> u32) list"
  have "distinct (map fst ?ps)" using assms(1) by simp
  moreover have "(xs ! i, word_of_nat i) \<in> set ?ps"
    using assms(2) by (auto simp: set_zip intro!: exI [of _ i])
  ultimately have "map_of (rev ?ps) (xs ! i) = Some (word_of_nat i)"
    by (subst map_of_eq_Some_iff) (simp_all add: rev_map [symmetric] distinct_rev)
  then show ?thesis by (simp add: index_map_def map_upds_def)
qed

lemma index_map_mem: "distinct xs \<Longrightarrow> x \<in> set xs \<Longrightarrow> \<exists>i < length xs. xs ! i = x \<and> index_map xs x = Some (word_of_nat i)"
  by (metis in_set_conv_nth index_map_nth)

definition adj_row :: "(address \<rightharpoonup> pool_edge list) \<Rightarrow> address \<Rightarrow> pool_edge list" where
  "adj_row adj t = (case adj t of Some es \<Rightarrow> es | None \<Rightarrow> [])"

definition static_edge_of :: "(address \<rightharpoonup> u32) \<Rightarrow> (address \<rightharpoonup> u32) \<Rightarrow> pool_edge \<Rightarrow> static_edge" where
  "static_edge_of P T e = \<lparr>se_pool_idx = the (P (pe_pool_address e)),
     se_target_token_idx = the (T (pe_token_b e)), se_dex_name = pe_dex_name e\<rparr>"

lemma static_edges_Some:
  "static_edges P T es = Some row \<Longrightarrow> row = map (static_edge_of P T) es"
  by (induction es arbitrary: row) (auto simp: static_edge_of_def split: bind_splits)

lemma fill_rows_shape:
  assumes "fill_rows adj P T ts off nodes edges = Some (nodes', edges')"
    and "off = word_of_nat (length edges)"
  defines "row \<equiv> \<lambda>t. map (static_edge_of P T) (adj_row adj t)"
  shows "edges' = edges @ concat (map row ts) \<and>
    nodes' = nodes @ map (\<lambda>k. word_of_nat (length edges + length (concat (map row (take k ts)))))
      [0..<Suc (length ts)]"
  using assms(1,2)
proof (induction ts arbitrary: off nodes edges)
  case (Cons t ts)
  have row: "(case adj t of Some es \<Rightarrow> static_edges P T es | None \<Rightarrow> Some []) = Some r \<Longrightarrow> r = row t" for r
    by (auto simp: row_def adj_row_def split: option.splits dest: static_edges_Some)
  from Cons.prems(1) obtain r where r:
      "(case adj t of Some es \<Rightarrow> static_edges P T es | None \<Rightarrow> Some []) = Some r"
      "fill_rows adj P T ts (off + word_of_nat (length r)) (nodes @ [off]) (edges @ r) = Some (nodes', edges')"
    by (auto split: bind_splits)
  from Cons.IH [OF r(2)] row [OF r(1)] Cons.prems(2)
  have "edges' = edges @ concat (map row (t # ts))"
    "nodes' = nodes @ [off] @ map (\<lambda>k. word_of_nat (length (edges @ row t) + length (concat (map row (take k ts)))))
      [0..<Suc (length ts)]"
    by simp_all
  moreover have "[0..<Suc (length (t # ts))] = 0 # map Suc [0..<Suc (length ts)]"
    by (simp add: map_Suc_upt upt_conv_Cons del: upt_Suc)
  ultimately show ?case using Cons.prems(2) by (simp add: comp_def add.assoc del: upt_Suc)
qed simp

lemma rows_slice:
  assumes "c < length ts"
  shows "map (nth (concat (map row ts)))
      [length (concat (map row (take c ts)))..<length (concat (map row (take (Suc c) ts)))] = row (ts ! c)"
proof -
  let ?A = "concat (map row (take c ts))" and ?B = "concat (map row (drop (Suc c) ts))"
  have "concat (map row ts) = ?A @ row (ts ! c) @ ?B"
    using id_take_nth_drop [OF assms] by (metis concat.simps(2) concat_append list.simps(9) map_append)
  moreover have "concat (map row (take (Suc c) ts)) = ?A @ row (ts ! c)"
    using assms by (simp add: take_Suc_conv_app_nth)
  moreover have "map (nth (?A @ row (ts ! c) @ ?B)) [length ?A..<length ?A + length (row (ts ! c))] = row (ts ! c)"
    by (rule nth_equalityI) (simp_all add: nth_append)
  ultimately show ?thesis by simp
qed

text \<open>The pools a rebuild includes, and what they contribute to each row.\<close>

definition included_pools ::
  "u64 \<Rightarrow> mirror \<Rightarrow> pool_registry \<Rightarrow> timestamps \<Rightarrow> timestamps \<Rightarrow> (address \<times> pool_state) list
     \<Rightarrow> (address \<times> address \<times> address \<times> dex_name) list" where
  "included_pools now m registry activity alpha ps =
     concat (map (\<lambda>(a, p). case DAList.lookup registry a of
         Some reg \<Rightarrow> if should_include now m activity alpha a reg p = Some True then [(a, reg)] else []
       | None \<Rightarrow> []) ps)"

lemma collect_pools_fold:
  "collect_pools now m registry activity alpha ps acc = Some acc' \<Longrightarrow>
   acc' = fold (\<lambda>(a, reg). add_pool a reg) (included_pools now m registry activity alpha ps) acc"
  by (induction ps arbitrary: acc)
    (auto simp: included_pools_def split: option.splits bind_splits if_splits)

definition pool_edges_at :: "address \<Rightarrow> address \<times> address \<times> address \<times> dex_name \<Rightarrow> pool_edge list" where
  "pool_edges_at t entry = (case entry of (a, t0, t1, dex) \<Rightarrow>
     (if t0 = t then [new_edge a t1 dex] else []) @ (if t1 = t then [new_edge a t0 dex] else []))"

lemma adj_row_push: "adj_row (push_edge s e adj) t = (if t = s then adj_row adj t @ [e] else adj_row adj t)"
  by (simp add: adj_row_def push_edge_def)

lemma add_pools:
  "ga_pools (fold (\<lambda>(a, reg). add_pool a reg) inc acc) = ga_pools acc @ map fst inc"
  "ga_tokens (fold (\<lambda>(a, reg). add_pool a reg) inc acc) =
     ga_tokens acc \<union> (\<Union>(a, t0, t1, dex) \<in> set inc. {t0, t1})"
  "adj_row (ga_adj (fold (\<lambda>(a, reg). add_pool a reg) inc acc)) t =
     adj_row (ga_adj acc) t @ concat (map (pool_edges_at t) inc)"
  by (induction inc arbitrary: acc)
    (auto simp: add_pool_def Let_def adj_row_push pool_edges_at_def split: prod.splits)

lemma mem_included:
  "(a, reg) \<in> set (included_pools now m registry activity alpha ps) \<longleftrightarrow>
     (\<exists>p. (a, p) \<in> set ps \<and> DAList.lookup registry a = Some reg \<and>
       should_include now m activity alpha a reg p = Some True)"
proof (induction ps)
  case (Cons ap ps)
  obtain b p where ap: "ap = (b, p)" by (cases ap)
  have "included_pools now m registry activity alpha (ap # ps) =
      (case DAList.lookup registry b of
         Some reg \<Rightarrow> if should_include now m activity alpha b reg p = Some True then [(b, reg)] else []
       | None \<Rightarrow> []) @ included_pools now m registry activity alpha ps"
    by (simp add: included_pools_def ap)
  with Cons.IH show ?case by (auto simp: ap split: option.splits if_splits)
qed (simp add: included_pools_def)

lemma distinct_included:
  "distinct (map fst ps) \<Longrightarrow> distinct (map fst (included_pools now m registry activity alpha ps))"
proof (induction ps)
  case (Cons ap ps)
  then show ?case
    by (cases ap) (auto simp: included_pools_def split: option.splits if_splits; force)
qed (simp add: included_pools_def)

text \<open>An edge seen through the index tables.\<close>

definition edge_view :: "static_graph \<Rightarrow> static_edge \<Rightarrow> address \<times> address \<times> dex_name" where
  "edge_view g e = (sg_pools g ! unat (se_pool_idx e), sg_tokens g ! unat (se_target_token_idx e), se_dex_name e)"

lemma small_nat_u32: "i < n \<Longrightarrow> n \<le> 2 ^ 32 \<Longrightarrow> unat (word_of_nat i :: u32) = i"
  by (rule unat_of_nat_nowrap) simp

text \<open>What a rebuild produces, in terms of the included pools.\<close>

lemma rebuild_graph_parts:
  assumes "rebuild_graph set_order now m registry activity alpha = Some g"
    and order: "\<And>S. finite S \<Longrightarrow> set (set_order S) = S \<and> distinct (set_order S)"
  defines "inc \<equiv> included_pools now m registry activity alpha (dm_entries (sm_pools m))"
  obtains adj where
    "\<And>t. adj_row adj t = concat (map (pool_edges_at t) inc)"
    "sg_pools g = map fst inc" "distinct (sg_pools g)"
    "set (sg_tokens g) = (\<Union>(a, t0, t1, dex) \<in> set inc. {t0, t1})" "distinct (sg_tokens g)"
    "fill_rows adj (index_map (sg_pools g)) (index_map (sg_tokens g)) (sg_tokens g) 0 [] [] =
       Some (sg_nodes g, sg_edges g)"
proof -
  let ?start = "\<lparr>ga_adj = Map.empty, ga_tokens = {}, ga_pools = []\<rparr>"
  let ?acc = "fold (\<lambda>(a, reg). add_pool a reg) inc ?start"
  from assms(1) obtain acc where "collect_pools now m registry activity alpha (dm_entries (sm_pools m)) ?start = Some acc"
    and lay: "layout_graph set_order acc = Some g"
    by (auto simp: rebuild_graph_def split: bind_splits)
  then have acc: "acc = ?acc" by (auto simp: inc_def dest: collect_pools_fold)
  have toks: "ga_tokens ?acc = (\<Union>(a, t0, t1, dex) \<in> set inc. {t0, t1})" by (simp add: add_pools)
  then have fin: "finite (ga_tokens ?acc)" by auto
  have row: "adj_row (ga_adj ?acc) t = concat (map (pool_edges_at t) inc)" for t
    by (simp add: add_pools) (simp add: adj_row_def)
  have pools: "ga_pools ?acc = map fst inc" by (simp add: add_pools)
  have d: "distinct (map fst inc)" unfolding inc_def by (rule distinct_included [OF distinct_entries])
  from lay have "sg_pools g = ga_pools ?acc" "sg_tokens g = set_order (ga_tokens ?acc)"
    "fill_rows (ga_adj ?acc) (index_map (sg_pools g)) (index_map (sg_tokens g)) (sg_tokens g) 0 [] [] =
       Some (sg_nodes g, sg_edges g)"
    by (auto simp: layout_graph_def acc Let_def split: bind_splits)
  with that [of "ga_adj ?acc"] row pools d order [OF fin] toks show thesis by simp
qed

lemma edge_through_tables:
  assumes "distinct ps" "distinct ts" "length ps \<le> 2 ^ 32" "length ts \<le> 2 ^ 32"
    and "pe_pool_address e \<in> set ps" "pe_token_b e \<in> set ts"
  shows "unat (se_pool_idx (static_edge_of (index_map ps) (index_map ts) e)) < length ps"
    "unat (se_target_token_idx (static_edge_of (index_map ps) (index_map ts) e)) < length ts"
    "ps ! unat (se_pool_idx (static_edge_of (index_map ps) (index_map ts) e)) = pe_pool_address e"
    "ts ! unat (se_target_token_idx (static_edge_of (index_map ps) (index_map ts) e)) = pe_token_b e"
  using index_map_mem [OF assms(1,5)] index_map_mem [OF assms(2,6)] assms(3,4) small_nat_u32
  by (auto simp: static_edge_of_def)

lemma rows_bounded:
  assumes "length (concat (map row ts)) < 2 ^ 32" "k \<le> length ts"
  shows "unat (word_of_nat (length (concat (map row (take k ts)))) :: u32) = length (concat (map row (take k ts)))"
    "length (concat (map row (take k ts))) \<le> length (concat (map row ts))"
proof -
  have "concat (map row ts) = concat (map row (take k ts)) @ concat (map row (drop k ts))"
    by (metis append_take_drop_id concat_append map_append)
  then show le: "length (concat (map row (take k ts))) \<le> length (concat (map row ts))" by simp
  with assms(1) show "unat (word_of_nat (length (concat (map row (take k ts)))) :: u32) = length (concat (map row (take k ts)))"
    by (intro small_nat_u32) auto
qed

lemma fill_rows_out_edges:
  assumes "fill_rows adj P T ts 0 [] [] = Some (sg_nodes g, sg_edges g)"
    and "length (sg_edges g) < 2 ^ 32"
  defines "row \<equiv> \<lambda>t. map (static_edge_of P T) (adj_row adj t)"
  shows "length (sg_nodes g) = length ts + 1"
    "\<And>i. i < length (sg_nodes g) \<Longrightarrow> unat (sg_nodes g ! i) \<le> length (sg_edges g)"
    "\<And>c. unat c < length ts \<Longrightarrow> out_edges g c = row (ts ! unat c)"
    "sg_edges g = concat (map row ts)"
proof -
  from fill_rows_shape [OF assms(1), folded row_def]
  have e: "sg_edges g = concat (map row ts)"
    and n: "sg_nodes g = map (\<lambda>k. word_of_nat (length (concat (map row (take k ts))))) [0..<Suc (length ts)]"
    by (simp_all del: upt_Suc)
  have b: "length (concat (map row ts)) < 2 ^ 32" using assms(2) e by simp
  show len: "length (sg_nodes g) = length ts + 1" by (simp add: n)
  have nth: "sg_nodes g ! k = word_of_nat (length (concat (map row (take k ts))))" if "k \<le> length ts" for k
    using that by (simp add: n del: upt_Suc)
  show "unat (sg_nodes g ! i) \<le> length (sg_edges g)" if "i < length (sg_nodes g)" for i
    using that len rows_bounded [OF b, of i] nth [of i] by (simp add: e)
  show "out_edges g c = row (ts ! unat c)" if "unat c < length ts" for c
    using that rows_slice [OF that, of row] rows_bounded(1) [OF b, of "unat c"]
      rows_bounded(1) [OF b, of "Suc (unat c)"] nth [of "unat c"] nth [of "Suc (unat c)"]
    by (simp add: out_edges_def e)
  show "sg_edges g = concat (map row ts)" by (rule e)
qed

section \<open>Hops of a walk\<close>

fun linked :: "address \<Rightarrow> hop list \<Rightarrow> address \<Rightarrow> bool" where
  "linked a [] b = (a = b)"
| "linked a (h # hs) b = (hop_token_in h = a \<and> linked (hop_token_out h) hs b)"

lemma linked_end_unique: "linked a hs b \<Longrightarrow> linked a hs c \<Longrightarrow> b = c"
  by (induction hs arbitrary: a) auto

lemma linked_not_closed: "linked a hs b \<Longrightarrow> hs \<noteq> [] \<Longrightarrow> a \<noteq> b \<Longrightarrow> \<not> linked c hs c"
  by (cases hs) (auto dest: linked_end_unique)

lemma walk_hop_fields:
  assumes "graph_ok g" "e \<in> set (sg_edges g)" "unat c < length (sg_tokens g)"
  shows "hop_token_in (walk_hop g m (c, e)) = sg_tokens g ! unat c"
    "hop_token_out (walk_hop g m (c, e)) = sg_tokens g ! unat (se_target_token_idx e)"
    "hop_pool_address (walk_hop g m (c, e)) = sg_pools g ! unat (se_pool_idx e)"
  using assms by (auto simp: walk_hop_def edge_hop_def graph_ok_def index_def)

lemma out_edges_in:
  assumes "graph_ok g" "unat c < length (sg_tokens g)" "e \<in> set (out_edges g c)"
  shows "e \<in> set (sg_edges g)"
proof -
  have "unat (sg_nodes g ! (unat c + 1)) \<le> length (sg_edges g)"
    using assms(1,2) by (auto simp: graph_ok_def)
  with assms(3) show ?thesis by (auto simp: out_edges_def)
qed

lemma target_in_range:
  "graph_ok g \<Longrightarrow> e \<in> set (sg_edges g) \<Longrightarrow> unat (se_target_token_idx e) < length (sg_tokens g)"
  by (auto simp: graph_ok_def)

lemma chained_linked:
  "graph_ok g \<Longrightarrow> unat c < length (sg_tokens g) \<Longrightarrow> chained g c w \<Longrightarrow> w \<noteq> [] \<Longrightarrow>
    linked (sg_tokens g ! unat c) (map (walk_hop g m) w)
      (sg_tokens g ! unat (se_target_token_idx (snd (last w)))) \<and> (\<forall>xe \<in> set w. snd xe \<in> set (sg_edges g) \<and> unat (fst xe) < length (sg_tokens g))"
proof (induction w arbitrary: c)
  case (Cons xe w)
  obtain x e where xe: "xe = (x, e)" by (cases xe)
  have e: "e \<in> set (sg_edges g)" "x = c" using Cons.prems out_edges_in by (auto simp: xe)
  note f = walk_hop_fields [OF Cons.prems(1) e(1) Cons.prems(2), of m]
  show ?case
    using Cons.prems Cons.IH [OF Cons.prems(1) target_in_range [OF Cons.prems(1) e(1)]] e f
    by (cases "w = []") (auto simp: xe)
qed simp

lemma nth_u32_inj:
  "distinct xs \<Longrightarrow> unat (i :: u32) < length xs \<Longrightarrow> unat j < length xs \<Longrightarrow> xs ! unat i = xs ! unat j \<Longrightarrow> i = j"
  by (simp only: nth_eq_iff_index_eq word_unat_eq_iff)

lemma walk_pools_distinct:
  assumes "graph_ok g" "distinct (sg_pools g)" "distinct (map (\<lambda>xe. se_pool_idx (snd xe)) w)"
    and "\<forall>xe \<in> set w. snd xe \<in> set (sg_edges g) \<and> unat (fst xe) < length (sg_tokens g)"
  shows "distinct (map (\<lambda>xe. hop_pool_address (walk_hop g m xe)) w)"
proof -
  have "inj_on (\<lambda>xe. hop_pool_address (walk_hop g m xe)) (set w) \<and> distinct w"
  proof
    show "distinct w" using assms(3) by (simp add: distinct_map)
    show "inj_on (\<lambda>xe. hop_pool_address (walk_hop g m xe)) (set w)"
    proof (rule inj_onI)
      fix a b assume ab: "a \<in> set w" "b \<in> set w"
        "hop_pool_address (walk_hop g m a) = hop_pool_address (walk_hop g m b)"
      have "sg_pools g ! unat (se_pool_idx (snd a)) = sg_pools g ! unat (se_pool_idx (snd b))"
        using ab assms(1,4) walk_hop_fields(3) by (metis prod.collapse)
      moreover have "unat (se_pool_idx (snd a)) < length (sg_pools g)" "unat (se_pool_idx (snd b)) < length (sg_pools g)"
        using ab assms(1,4) by (auto simp: graph_ok_def)
      ultimately have "se_pool_idx (snd a) = se_pool_idx (snd b)"
        by (intro nth_u32_inj [OF assms(2)])
      then show "a = b" using ab assms(3) by (simp add: distinct_map inj_on_def)
    qed
  qed
  then show ?thesis by (simp add: distinct_map)
qed

lemma branch_paths_walks:
  assumes ok: "graph_ok g" and c: "unat c < length (sg_tokens g)" and e: "e \<in> set (out_edges g c)"
    and t: "\<And>i. sg_pool_to_idx g trigger = Some i \<Longrightarrow> unat i < 4096"
  obtains paths used where "branch_paths g m trigger s c max_len e = Some paths"
    "se_pool_idx e \<in> used"
    "\<forall>hops \<in> set paths. \<exists>w. hops = map (walk_hop g m) ((c, e) # w) \<and>
       (if se_target_token_idx e = s then w = []
        else is_cycle_walk g s (max_len - 1) used (se_target_token_idx e) w)"
proof -
  have z: "length (replicate 64 0 :: visited) = 64" by simp
  obtain v0 where v0: "(case sg_pool_to_idx g trigger of Some i \<Rightarrow> visit (replicate 64 0) i
      | None \<Rightarrow> Some (replicate 64 0)) = Some v0" "length v0 = 64"
  proof (cases "sg_pool_to_idx g trigger")
    case None
    then show thesis using that [of "replicate 64 0"] z by simp
  next
    case (Some i)
    then show thesis using that visit_pools [OF z t [OF Some]] by auto
  qed
  have ein: "e \<in> set (sg_edges g)" by (rule out_edges_in [OF ok c e])
  then have p: "unat (se_pool_idx e) < 4096" using ok by (auto simp: graph_ok_def)
  obtain v1 where v1: "visit v0 (se_pool_idx e) = Some v1" "length v1 = 64"
    "visited_pools v1 = insert (se_pool_idx e) (visited_pools v0)"
    using visit_pools [OF v0(2) p] by blast
  note h = edge_hop_defined [OF ok ein c, of m]
  let ?st = "\<lparr>ds_hops = [walk_hop g m (c, e)], ds_visited = v1, ds_results = []\<rparr>"
  have "find_cycles_dfs (se_target_token_idx e) s g m ?st 2 max_len = Some (?st\<lparr>ds_results :=
      map (\<lambda>w. walk_hop g m (c, e) # map (walk_hop g m) w)
        (cycle_walks g s (max_len - 1) (visited_pools v1) (se_target_token_idx e))\<rparr>)"
    using dfs_levels_spec [OF ok target_in_range [OF ok ein], of ?st m s "max_len - 1"] v1(2)
    by (simp add: find_cycles_dfs_def)
  then have "branch_paths g m trigger s c max_len e = Some
      (if se_target_token_idx e = s then [[walk_hop g m (c, e)]]
       else map (\<lambda>w. walk_hop g m (c, e) # map (walk_hop g m) w)
         (cycle_walks g s (max_len - 1) (visited_pools v1) (se_target_token_idx e)))"
    using v0 v1(1) h by (simp add: branch_paths_def)
  then show thesis
    by (rule that [of _ "visited_pools v1"]) (use v1(3) in \<open>auto simp: cycle_walks_iff split: if_splits\<close>)
qed

section \<open>Properties\<close>

text \<open>C5 The cycle search is exact. On a well-formed graph of at most 4096 pools it returns for
  every token and depth without a panic, hands the visited words and the hop stack back as it got
  them, and appends exactly the walks of at most the allowed number of hops that follow edges of
  the graph, use no pool twice and none already visited, and reach the target token for the first
  time with their last hop.\<close>

theorem find_cycles_exact:
  assumes "graph_ok g" and "unat cur < length (sg_tokens g)" and "length (ds_visited st) = 64"
  shows "\<exists>ws. find_cycles_dfs cur target g m st depth max_depth =
      Some (st\<lparr>ds_results := ds_results st @ map (\<lambda>w. ds_hops st @ map (walk_hop g m) w) ws\<rparr>) \<and>
    (\<forall>w. w \<in> set ws \<longleftrightarrow>
       is_cycle_walk g target (Suc max_depth - depth) (visited_pools (ds_visited st)) cur w)"
  unfolding find_cycles_dfs_def
  using dfs_levels_spec [OF assms(1) assms(2,3)] cycle_walks_iff by blast

text \<open>C15 Rebuilding lays the graph out faithfully: with at most 4096 pools the sparse rows are
  well formed, and the row of a token holds, for exactly the registered pools of the mirror that
  pass the inclusion test and trade this token, an edge to the other token of the pair.\<close>

theorem rebuild_graph_exact:
  assumes "rebuild_graph set_order now m registry activity alpha = Some g"
    and "\<And>S. finite S \<Longrightarrow> set (set_order S) = S \<and> distinct (set_order S)"
    and "length (sg_pools g) \<le> 4096" and "length (sg_tokens g) \<le> 2 ^ 32" and "length (sg_edges g) < 2 ^ 32"
  shows "graph_ok g \<and> (\<forall>c. unat c < length (sg_tokens g) \<longrightarrow>
    edge_view g ` set (out_edges g c) =
      {(a, other, dex). \<exists>p t0 t1. DAList.lookup (sm_pools m) a = Some p \<and>
         DAList.lookup registry a = Some (t0, t1, dex) \<and>
         should_include now m activity alpha a (t0, t1, dex) p = Some True \<and>
         (t0 = sg_tokens g ! unat c \<and> other = t1 \<or> t1 = sg_tokens g ! unat c \<and> other = t0)})"
proof -
  let ?inc = "included_pools now m registry activity alpha (dm_entries (sm_pools m))"
  from rebuild_graph_parts [OF assms(1,2)] obtain adj where
    adj: "\<And>t. adj_row adj t = concat (map (pool_edges_at t) ?inc)"
    and pools: "sg_pools g = map fst ?inc" "distinct (sg_pools g)"
    and toks: "set (sg_tokens g) = (\<Union>(a, t0, t1, dex) \<in> set ?inc. {t0, t1})" "distinct (sg_tokens g)"
    and fill: "fill_rows adj (index_map (sg_pools g)) (index_map (sg_tokens g)) (sg_tokens g) 0 [] [] =
       Some (sg_nodes g, sg_edges g)" by metis
  note rows = fill_rows_out_edges [OF fill assms(5)]
  have row_mem: "e \<in> set (adj_row adj t) \<longleftrightarrow> (\<exists>a t0 t1 dex. (a, t0, t1, dex) \<in> set ?inc \<and>
      (t0 = t \<and> e = new_edge a t1 dex \<or> t1 = t \<and> e = new_edge a t0 dex))" for e t
    unfolding adj by (force simp: pool_edges_at_def)
  have keys: "pe_pool_address e \<in> set (sg_pools g)" "pe_token_b e \<in> set (sg_tokens g)"
    if "e \<in> set (adj_row adj t)" for e t
    using that unfolding row_mem pools(1) toks(1) by (force simp: new_edge_def)+
  have small: "length (sg_pools g) \<le> 2 ^ 32" using assms(3) by simp
  note through = edge_through_tables [OF pools(2) toks(2) small assms(4) keys]
  have view: "edge_view g (static_edge_of (index_map (sg_pools g)) (index_map (sg_tokens g)) e) =
      (pe_pool_address e, pe_token_b e, pe_dex_name e)" if "e \<in> set (adj_row adj t)" for e t
    using through [OF that that] by (simp add: edge_view_def) (simp add: static_edge_of_def)
  have "graph_ok g"
    unfolding graph_ok_def using rows(1,2) through(1,2) assms(3) rows(4) by (auto; fastforce)
  moreover have "edge_view g ` set (out_edges g c) = {(a, other, dex). \<exists>p t0 t1.
      DAList.lookup (sm_pools m) a = Some p \<and> DAList.lookup registry a = Some (t0, t1, dex) \<and>
      should_include now m activity alpha a (t0, t1, dex) p = Some True \<and>
      (t0 = sg_tokens g ! unat c \<and> other = t1 \<or> t1 = sg_tokens g ! unat c \<and> other = t0)}"
    if c: "unat c < length (sg_tokens g)" for c
  proof -
    have "edge_view g ` set (out_edges g c) =
        (\<lambda>e. (pe_pool_address e, pe_token_b e, pe_dex_name e)) ` set (adj_row adj (sg_tokens g ! unat c))"
      unfolding rows(3) [OF c] set_map image_image using view by (intro image_cong) auto
    also have "\<dots> = {(a, other, dex). \<exists>t0 t1. (a, t0, t1, dex) \<in> set ?inc \<and>
        (t0 = sg_tokens g ! unat c \<and> other = t1 \<or> t1 = sg_tokens g ! unat c \<and> other = t0)}" (is "?L = ?R")
    proof (intro equalityI subsetI)
      fix x assume "x \<in> ?L"
      then show "x \<in> ?R" by (auto simp: row_mem new_edge_def) blast+
    next
      fix x assume "x \<in> ?R"
      then obtain a b t0 t1 dex where x: "x = (a, b, dex)" "(a, t0, t1, dex) \<in> set ?inc"
        "t0 = sg_tokens g ! unat c \<and> b = t1 \<or> t1 = sg_tokens g ! unat c \<and> b = t0" by auto
      then have "new_edge a b dex \<in> set (adj_row adj (sg_tokens g ! unat c))"
        unfolding row_mem by blast
      then show "x \<in> ?L" by (rule rev_image_eqI) (simp add: x(1) new_edge_def)
    qed
    finally show ?thesis unfolding mem_included lookup_entries by blast
  qed
  ultimately show ?thesis by blast
qed

theorem rebuild_graph_exact_witness:
  "\<exists>g. rebuild_graph sorted_list_of_set 0 (update_pool 5 (default_pool_state 0) (mirror_new None None))
      (DAList.update 5 (1, 2, NameUniswapV2) DAList.empty) DAList.empty DAList.empty = Some g \<and>
    graph_ok g \<and> sg_pools g = [5] \<and> edge_view g ` set (out_edges g 0) = {(5, 2, NameUniswapV2)}"
proof -
  let ?m = "update_pool 5 (default_pool_state 0) (mirror_new None None)"
  let ?reg = "DAList.update 5 (1, 2, NameUniswapV2) DAList.empty :: pool_registry"
  let ?e = "\<lambda>t. \<lparr>se_pool_idx = 0, se_target_token_idx = t, se_dex_name = NameUniswapV2\<rparr>"
  let ?g = "\<lparr>sg_tokens = [1, 2], sg_token_to_idx = index_map [1, 2], sg_pools = [5],
     sg_pool_to_idx = index_map [5], sg_nodes = [0, 1, 2], sg_edges = [?e 1, ?e 0]\<rparr>"
  have e: "dm_entries (sm_pools ?m) = [(5, default_pool_state 0)]"
    by (simp add: dm_entries_def update_pool_def mirror_new_def load_state_checkpoint_def
        DAList.update.rep_eq DAList.empty.rep_eq)
  have inc: "should_include 0 ?m DAList.empty DAList.empty 5 (1, 2, NameUniswapV2) (default_pool_state 0) = Some True"
    by (simp add: should_include_def liquidity_usd_def TOKEN_USDC_def TOKEN_WETH_def default_pool_state_def
        get_competition_score_def update_pool_def mirror_new_def load_state_checkpoint_def Let_def)
  have idx: "index_map [1, 2] 1 = Some 0" "index_map [1, 2] 2 = Some 1" "index_map [5] 5 = Some 0"
    by (simp_all add: index_map_def)
  have g: "rebuild_graph sorted_list_of_set 0 ?m ?reg DAList.empty DAList.empty = Some ?g"
    by (simp add: rebuild_graph_def e inc add_pool_def layout_graph_def push_edge_def new_edge_def
        dm_lookups idx Let_def word_le_nat_alt)
  have "graph_ok ?g \<and> (\<forall>c. unat c < length (sg_tokens ?g) \<longrightarrow>
    edge_view ?g ` set (out_edges ?g c) =
      {(a, other, dex). \<exists>p t0 t1. DAList.lookup (sm_pools ?m) a = Some p \<and>
         DAList.lookup ?reg a = Some (t0, t1, dex) \<and>
         should_include 0 ?m DAList.empty DAList.empty a (t0, t1, dex) p = Some True \<and>
         (t0 = sg_tokens ?g ! unat c \<and> other = t1 \<or> t1 = sg_tokens ?g ! unat c \<and> other = t0)})"
    by (rule rebuild_graph_exact [OF g]) simp_all
  moreover have "edge_view ?g ` set (out_edges ?g 0) = {(5, 2, NameUniswapV2)}"
    by (simp add: out_edges_def edge_view_def)
  ultimately show ?thesis using g by auto
qed

theorem find_cycles_exact_witness:
  "\<exists>ws. find_cycles_dfs 0 0
      \<lparr>sg_tokens = [7], sg_token_to_idx = Map.empty, sg_pools = [], sg_pool_to_idx = Map.empty,
       sg_nodes = [0, 0], sg_edges = []\<rparr> (mirror_new None None)
      \<lparr>ds_hops = [], ds_visited = replicate 64 0, ds_results = []\<rparr> 1 6 =
    Some \<lparr>ds_hops = [], ds_visited = replicate 64 0, ds_results = ws\<rparr>"
  using find_cycles_exact [of "\<lparr>sg_tokens = [7], sg_token_to_idx = Map.empty, sg_pools = [],
      sg_pool_to_idx = Map.empty, sg_nodes = [0, 0], sg_edges = []\<rparr>" 0
      "\<lparr>ds_hops = [], ds_visited = replicate 64 0, ds_results = []\<rparr>" 0 "mirror_new None None" 1 6]
  by (auto simp: graph_ok_def less_Suc_eq)

text \<open>C24 What a search task reports. For an edge out of the current token, on a well-formed graph,
  the task never panics; every reported path leads hop by hop from the current token to the start
  token over different pools and is within the length limit. So whenever the two tokens differ no
  reported path is a cycle: the amount that goes in and the amount that comes out are in
  different tokens.\<close>

theorem branch_paths_open:
  assumes "graph_ok g" and "distinct (sg_pools g)" and "distinct (sg_tokens g)"
    and "unat c < length (sg_tokens g)" and "unat s < length (sg_tokens g)" and "c \<noteq> s"
    and "e \<in> set (out_edges g c)" and "1 \<le> max_len"
    and "\<And>i. sg_pool_to_idx g trigger = Some i \<Longrightarrow> unat i < 4096"
  shows "\<exists>paths. branch_paths g m trigger s c max_len e = Some paths \<and>
    (\<forall>hops \<in> set paths. linked (sg_tokens g ! unat c) hops (sg_tokens g ! unat s) \<and>
       hops \<noteq> [] \<and> length hops \<le> max_len \<and> distinct (map hop_pool_address hops) \<and>
       (\<forall>a. \<not> linked a hops a))"
proof -
  obtain paths used where paths: "branch_paths g m trigger s c max_len e = Some paths" "se_pool_idx e \<in> used"
    "\<forall>hops \<in> set paths. \<exists>w. hops = map (walk_hop g m) ((c, e) # w) \<and>
       (if se_target_token_idx e = s then w = []
        else is_cycle_walk g s (max_len - 1) used (se_target_token_idx e) w)"
    using branch_paths_walks [OF assms(1,4,7,9)] by metis
  have "linked (sg_tokens g ! unat c) hops (sg_tokens g ! unat s) \<and> hops \<noteq> [] \<and> length hops \<le> max_len \<and>
      distinct (map hop_pool_address hops) \<and> (\<forall>a. \<not> linked a hops a)" if "hops \<in> set paths" for hops
  proof -
    from that paths(3) obtain w where w: "hops = map (walk_hop g m) ((c, e) # w)"
      "if se_target_token_idx e = s then w = []
       else is_cycle_walk g s (max_len - 1) used (se_target_token_idx e) w" by blast
    have ch: "chained g c ((c, e) # w)" and last: "se_target_token_idx (snd (last ((c, e) # w))) = s"
      and d: "distinct (map (\<lambda>xe. se_pool_idx (snd xe)) ((c, e) # w))" and len: "length w \<le> max_len - 1"
      using w(2) assms(7) paths(2) by (auto simp: is_cycle_walk_def split: if_splits)
    note l = chained_linked [OF assms(1,4) ch, of m, unfolded last]
    have "linked (sg_tokens g ! unat c) hops (sg_tokens g ! unat s)" using l w(1) by simp
    moreover have "sg_tokens g ! unat c \<noteq> sg_tokens g ! unat s"
      using nth_u32_inj [OF assms(3-5)] assms(6) by blast
    moreover have "distinct (map hop_pool_address hops)"
      using walk_pools_distinct [OF assms(1,2) d, of m] l w(1) by (simp add: comp_def)
    moreover have "hops \<noteq> []" "length hops \<le> max_len" using w(1) len assms(8) by auto
    ultimately show ?thesis using linked_not_closed by blast
  qed
  with paths(1) show ?thesis by blast
qed

definition two_tokens :: static_graph where
  "two_tokens = \<lparr>sg_tokens = [10, 20], sg_token_to_idx = [10 \<mapsto> 0, 20 \<mapsto> 1], sg_pools = [5],
     sg_pool_to_idx = [5 \<mapsto> 0], sg_nodes = [0, 1, 2],
     sg_edges = [\<lparr>se_pool_idx = 0, se_target_token_idx = 1, se_dex_name = NameUniswapV2\<rparr>,
                 \<lparr>se_pool_idx = 0, se_target_token_idx = 0, se_dex_name = NameUniswapV2\<rparr>]\<rparr>"

theorem branch_paths_open_witness:
  "\<exists>hops. branch_paths two_tokens (mirror_new None None) 5 0 1 6
      \<lparr>se_pool_idx = 0, se_target_token_idx = 0, se_dex_name = NameUniswapV2\<rparr> = Some [hops] \<and>
    \<not> linked 20 hops 20"
proof -
  let ?e = "\<lparr>se_pool_idx = 0, se_target_token_idx = 0, se_dex_name = NameUniswapV2\<rparr>"
  have ok: "graph_ok two_tokens"
    by (auto simp: graph_ok_def two_tokens_def less_Suc_eq)
  have out: "out_edges two_tokens 1 = [?e]"
    by (simp add: out_edges_def two_tokens_def upt_conv_Cons)
  have "\<exists>hops. branch_paths two_tokens (mirror_new None None) 5 0 1 6 ?e = Some [hops]"
    by (simp add: branch_paths_def two_tokens_def visit_eq edge_hop_def index_def)
  moreover have "\<exists>paths. branch_paths two_tokens (mirror_new None None) 5 0 1 6 ?e = Some paths \<and>
    (\<forall>hops \<in> set paths. linked (sg_tokens two_tokens ! unat (1 :: u32)) hops (sg_tokens two_tokens ! unat (0 :: u32)) \<and>
       hops \<noteq> [] \<and> length hops \<le> 6 \<and> distinct (map hop_pool_address hops) \<and> (\<forall>a. \<not> linked a hops a))"
    by (rule branch_paths_open [OF ok]) (simp_all add: out, simp_all add: two_tokens_def split: if_splits)
  ultimately show ?thesis by auto
qed

text \<open>The search has room for 4096 pools only: a task whose first edge uses a pool with a larger
  index panics, whatever the graph, the mirror and the trigger.\<close>

theorem branch_panics_beyond_4096:
  assumes "4096 \<le> unat (se_pool_idx e)"
  shows "branch_paths g m trigger s c max_len e = None"
proof -
  have "visit v (se_pool_idx e) = None" if "length v = 64" for v
  proof -
    have "64 \<le> unat (se_pool_idx e) div 64" using assms by (simp add: less_eq_div_iff_mult_less_eq)
    then show ?thesis using that by (simp add: visit_eq index_def)
  qed
  moreover have "length v' = 64" if "visit (replicate 64 0) i = Some v'" for i v'
    using that by (auto simp: visit_eq index_def split: if_splits)
  ultimately show ?thesis
    by (auto simp: branch_paths_def split: option.split bind_splits)
qed

theorem branch_panics_beyond_4096_witness:
  "branch_paths empty_graph (mirror_new None None) 0 0 0 6
     \<lparr>se_pool_idx = 4096, se_target_token_idx = 0, se_dex_name = NameUniswapV2\<rparr> = None"
  using branch_panics_beyond_4096 [of "\<lparr>se_pool_idx = 4096, se_target_token_idx = 0, se_dex_name = NameUniswapV2\<rparr>"]
  by simp

end
