(* ===== verification/Math_Facts.thy ===== *)
theory Math_Facts
  imports Math_Engine
begin

text \<open>
  What the pricing engine guarantees: the 512-bit square root is exact and terminates, the
  constant-product output keeps the product of the reserves and never returns a trader more
  than there-and-back, the golden-section search stays in its bracket and reports a positive
  profit of its own function.
\<close>

section \<open>The integer square root\<close>

definition is_sqrt :: "nat \<Rightarrow> nat \<Rightarrow> bool" where
  "is_sqrt n r \<longleftrightarrow> r * r \<le> n \<and> n < (r + 1) * (r + 1)"

lemma newton_above:
  fixes n x :: nat
  assumes "0 < x"
  shows "n < ((x + n div x) div 2 + 1) * ((x + n div x) div 2 + 1)"
proof -
  let ?q = "n div x" and ?y = "(x + n div x) div 2"
  have "n < x * (?q + 1)"
    using assms by (metis Suc_eq_plus1 dividend_less_times_div mult_Suc_right add.commute)
  then have "4 * n < 4 * (x * (?q + 1))" by simp
  also have "\<dots> \<le> (x + (?q + 1)) * (x + (?q + 1))"
  proof -
    have "0 \<le> (int x - int (?q + 1)) * (int x - int (?q + 1))" by simp
    then have "int (4 * (x * (?q + 1))) \<le> int ((x + (?q + 1)) * (x + (?q + 1)))"
      by (simp add: algebra_simps)
    then show ?thesis by (simp only: of_nat_le_iff)
  qed
  also have "\<dots> \<le> (2 * (?y + 1)) * (2 * (?y + 1))"
    by (intro mult_le_mono) simp_all
  finally have "4 * n < 4 * ((?y + 1) * (?y + 1))" by simp
  then show ?thesis by simp
qed

lemma newton_done:
  fixes n x :: nat
  assumes "0 < x" and "x \<le> (x + n div x) div 2"
  shows "x * x \<le> n"
proof -
  have "x \<le> n div x" using assms(2) by simp
  then have "x * x \<le> n div x * x" by (rule mult_le_mono1)
  also have "\<dots> \<le> n" by (rule div_times_less_eq_dividend)
  finally show ?thesis .
qed

lemma newton_small:
  fixes n x :: nat
  assumes "0 < x" and "n < (x + 1) * (x + 1)"
  shows "n div x \<le> x + 2"
proof -
  have "(x + 1) * (x + 1) \<le> (x + 3) * x" using assms(1) by (simp add: algebra_simps)
  with assms(2) have "n < (x + 3) * x" by linarith
  then have "n div x < x + 3" using assms(1) by (simp add: div_less_iff_less_mult)
  then show ?thesis by simp
qed

lemma unat_half_sum:
  assumes "unat x + unat q < 2 ^ 512"
  shows "unat (drop_bit 1 (x + q) :: u512) = (unat x + unat q) div 2"
proof -
  have "unat (x + q) = unat x + unat q"
    by (rule unat_add_nowrap) (use assms in simp)
  then show ?thesis by (simp add: unat_drop_bit_div)
qed

lemma sqrt_loop_correct:
  assumes "0 < unat x" and "unat x < 2 ^ 300" and "unat n < (unat x + 1) * (unat x + 1)" and "n \<noteq> 0"
    and "unat y = (unat x + unat n div unat x) div 2"
  shows "\<exists>r. sqrt_loop n x y = Some r \<and> is_sqrt (unat n) (unat r)"
  using assms
proof (induction "unat x" arbitrary: x y rule: less_induct)
  case less
  show ?case
  proof (cases "y < x")
    case False
    then have "unat x \<le> (unat x + unat n div unat x) div 2"
      using less.prems(5) by (simp add: word_less_nat_alt)
    from newton_done [OF less.prems(1) this] False show ?thesis
      by (subst sqrt_loop.simps) (use less.prems(3) in \<open>simp add: is_sqrt_def\<close>)
  next
    case True
    have yx: "unat y < unat x" using True by (simp add: word_less_nat_alt)
    have above: "unat n < (unat y + 1) * (unat y + 1)"
      unfolding less.prems(5) by (rule newton_above [OF less.prems(1)])
    have y0: "0 < unat y"
    proof (rule ccontr)
      assume "\<not> 0 < unat y"
      then have "unat n = 0" using above by simp
      with less.prems(4) show False by (simp only: unat_0_iff)
    qed
    then have yn: "y \<noteq> 0" by auto
    have "unat n div unat y \<le> unat y + 2" by (rule newton_small [OF y0 above])
    moreover have "(2 :: nat) ^ 300 + 2 ^ 300 + 2 < 2 ^ 512" by simp
    ultimately have "unat y + unat n div unat y < 2 ^ 512"
      using yx less.prems(2) by linarith
    then have half: "unat (drop_bit 1 (y + n div y)) = (unat y + unat n div unat y) div 2"
      by (subst unat_half_sum) (simp_all only: unat_div)
    have "unat y < 2 ^ 300" using yx less.prems(2) by linarith
    from less.hyps [OF yx y0 this above less.prems(4) half] True yn show ?thesis
      by (subst sqrt_loop.simps) (simp add: u_div_Some)
  qed
qed

lemma sqrt_512_correct: "\<exists>r. uint_sqrt_512 n = Some r \<and> is_sqrt (unat n) (unat r)"
proof (cases "n = 0")
  case True
  then show ?thesis by (simp add: uint_sqrt_512_def is_sqrt_def)
next
  case False
  let ?k = "bit_len n div 2 + 1"
  let ?x = "push_bit ?k 1 :: u512"
  have n0: "0 < unat n" using False by (simp add: unat_gt_0)
  have "bit_len n \<le> 512"
    unfolding bit_len_def by (rule bit_length_le [OF unat_u512])
  then have k: "?k \<le> 257" by simp
  then have "(2::nat) ^ ?k \<le> 2 ^ 257" by (intro power_increasing) simp_all
  then have kb: "(2::nat) ^ ?k < 2 ^ 300" "(2::nat) ^ ?k < 2 ^ 512"
    by (auto intro: le_less_trans)
  have x: "unat ?x = 2 ^ ?k"
    using unat_of_nat_nowrap [where 'a = 512, of "2 ^ ?k"] kb(2) by (simp add: push_bit_of_1)
  have "unat n < 2 ^ bit_len n"
    unfolding bit_len_def using bit_length_bounds [OF n0] by blast
  also have "(2::nat) ^ bit_len n \<le> 2 ^ (?k + ?k)"
    by (intro power_increasing) simp_all
  finally have "unat n < 2 ^ ?k * 2 ^ ?k" by (simp only: power_add)
  then have sq: "unat n < (unat ?x + 1) * (unat ?x + 1)"
    unfolding x by (simp add: algebra_simps)
  have x0: "0 < unat ?x" unfolding x by simp
  then have xn: "?x \<noteq> 0" by (metis less_irrefl unat_0)
  have "unat n div unat ?x \<le> unat ?x + 2" by (rule newton_small [OF x0 sq])
  moreover have "(2 :: nat) ^ 300 + 2 ^ 300 + 2 < 2 ^ 512" by simp
  ultimately have "unat ?x + unat n div unat ?x < 2 ^ 512"
    using kb(1) unfolding x by linarith
  then have "unat (drop_bit 1 (?x + n div ?x)) = (unat ?x + unat n div unat ?x) div 2"
    by (subst unat_half_sum) (simp_all only: unat_div)
  from sqrt_loop_correct [OF x0 _ sq False this] kb(1) x xn False show ?thesis
    by (simp add: uint_sqrt_512_def u_div_Some Let_def del: push_bit_of_1)
qed

section \<open>Constant-product output\<close>

definition v2_nat :: "nat \<Rightarrow> nat \<Rightarrow> nat \<Rightarrow> nat" where
  "v2_nat a ri ro = a * 997 * ro div (ri * 1000 + a * 997)"

definition reserve_in :: "pool_state \<Rightarrow> bool \<Rightarrow> u256" where
  "reserve_in st z = (if z then ps_reserves0 st else ps_reserves1 st)"

definition reserve_out :: "pool_state \<Rightarrow> bool \<Rightarrow> u256" where
  "reserve_out st z = (if z then ps_reserves1 st else ps_reserves0 st)"

lemma wide_scaled: "c < 2 ^ 20 \<Longrightarrow> unat (wide a * word_of_nat c) = unat a * c"
proof -
  assume c: "c < 2 ^ 20"
  have "unat a * c \<le> 2 ^ 256 * 2 ^ 20"
    using c unat_u256 [of a] by (intro mult_le_mono less_imp_le)
  then have "unat a * c < 2 ^ 512" by (rule le_less_trans) simp
  then show ?thesis
    using c by (subst unat_mult_nowrap) (simp_all add: unat_of_nat_nowrap)
qed

lemma v2_nat_upper: "v2_nat a ri ro * (ri * 1000 + a * 997) \<le> a * 997 * ro"
  unfolding v2_nat_def by (rule div_times_less_eq_dividend)

lemma v2_nat_le: "v2_nat a ri ro \<le> ro"
proof (cases "ri * 1000 + a * 997 = 0")
  case False
  have "v2_nat a ri ro * (ri * 1000 + a * 997) \<le> a * 997 * ro" by (rule v2_nat_upper)
  also have "\<dots> \<le> (ri * 1000 + a * 997) * ro" by (intro mult_le_mono1) simp
  finally have "(ri * 1000 + a * 997) * v2_nat a ri ro \<le> (ri * 1000 + a * 997) * ro"
    by (simp only: mult.commute)
  with False show ?thesis by (simp only: mult_le_cancel1 neq0_conv)
qed (simp add: v2_nat_def)

lemma v2_output_nat:
  assumes "unat (reserve_out st z) < 2 ^ 128"
  shows "unat (get_v2_output a st z) =
    (if reserve_in st z = 0 \<or> reserve_out st z = 0 then 0
     else v2_nat (unat a) (unat (reserve_in st z)) (unat (reserve_out st z)))"
proof (cases "a = 0 \<or> reserve_in st z = 0 \<or> reserve_out st z = 0")
  case True
  then show ?thesis
    by (cases z) (auto simp: get_v2_output_def reserve_in_def reserve_out_def v2_nat_def)
next
  case False
  let ?ri = "reserve_in st z" and ?ro = "reserve_out st z"
  have fee: "unat (wide a * 997) = unat a * 997"
    using wide_scaled [of 997 a] by simp
  have "unat a * 997 < 2 ^ 256 * 2 ^ 10"
    using unat_u256 [of a] by (intro mult_strict_mono) simp_all
  then have "unat a * 997 * unat ?ro < 2 ^ 256 * 2 ^ 10 * 2 ^ 128"
    using assms by (intro mult_strict_mono) simp_all
  then have num: "unat (wide a * 997 * wide ?ro) = unat a * 997 * unat ?ro"
    using fee by (subst unat_mult_nowrap) simp_all
  have res: "unat (wide ?ri * 1000) = unat ?ri * 1000"
    using wide_scaled [of 1000 ?ri] by simp
  have "unat ?ri * 1000 + unat a * 997 < 2 ^ 256 * 1000 + 2 ^ 256 * 1000"
    using unat_u256 [of ?ri] unat_u256 [of a] by linarith
  then have den: "unat (wide ?ri * 1000 + wide a * 997) = unat ?ri * 1000 + unat a * 997"
    using res fee by (subst unat_add_nowrap) simp_all
  have fits: "v2_nat (unat a) (unat ?ri) (unat ?ro) \<le> 2 ^ 256 - 1"
    using v2_nat_le unat_le_u256 [of ?ro] by (rule order_trans)
  have "get_v2_output a st z = u512_to_u256_safe ((wide a * 997 * wide ?ro) div (wide ?ri * 1000 + wide a * 997))"
    using False by (auto simp: get_v2_output_def reserve_in_def reserve_out_def Let_def)
  then have "unat (get_v2_output a st z) = min (v2_nat (unat a) (unat ?ri) (unat ?ro)) (2 ^ 256 - 1)"
    by (simp only: unat_safe unat_div num den v2_nat_def)
  moreover have "\<not> (?ri = 0 \<or> ?ro = 0)" using False by blast
  ultimately show ?thesis using fits by (simp only: min_absorb1 if_False)
qed

lemma v2_nat_less: "0 < ri \<Longrightarrow> 0 < ro \<Longrightarrow> v2_nat a ri ro < ro"
  unfolding v2_nat_def by (subst div_less_iff_less_mult) (simp_all add: algebra_simps)

lemma v2_nat_product:
  "0 < ri \<Longrightarrow> 0 < ro \<Longrightarrow> ri * 1000 * ro \<le> (ri * 1000 + a * 997) * (ro - v2_nat a ri ro)"
  using v2_nat_upper [of a ri ro]
  by (simp only: diff_mult_distrib2) (simp add: algebra_simps)

lemma v2_nat_mono:
  assumes "a \<le> b"
  shows "v2_nat a ri ro \<le> v2_nat b ri ro"
proof (cases "ri * 1000 + b * 997 = 0")
  case True
  then show ?thesis using assms by (simp add: v2_nat_def)
next
  case False
  let ?v = "v2_nat a ri ro"
  obtain d where d: "b = a + d" using assms le_Suc_ex by blast
  have lhs: "?v * (ri * 1000 + b * 997) = ?v * (ri * 1000 + a * 997) + ?v * (d * 997)"
    unfolding d by (simp only: distrib_left distrib_right add.assoc)
  have rhs: "b * 997 * ro = a * 997 * ro + ro * (d * 997)"
    unfolding d by (simp add: algebra_simps)
  have "?v * (ri * 1000 + b * 997) \<le> b * 997 * ro"
    unfolding lhs rhs by (intro add_mono v2_nat_upper mult_le_mono1 v2_nat_le)
  with False show ?thesis
    unfolding v2_nat_def [of b] by (subst less_eq_div_iff_mult_less_eq) auto
qed

text \<open>Selling and buying back at the same reserves loses: each leg keeps 0.3 percent.\<close>

lemma v2_there_and_back:
  assumes "0 < ri" and "0 < ro" and "0 < a"
  shows "v2_nat (v2_nat a ri ro) ro ri < a"
proof -
  let ?o = "v2_nat a ri ro" and ?r = "v2_nat (v2_nat a ri ro) ro ri"
  have r: "?r * (ro * 1000) \<le> ?o * 997 * ri"
    by (rule order_trans [OF _ v2_nat_upper [of ?o ro ri]]) (intro mult_le_mono2 le_add1)
  have o: "?o * (ri * 1000) \<le> a * 997 * ro"
    by (rule order_trans [OF _ v2_nat_upper [of a ri ro]]) (intro mult_le_mono2 le_add1)
  have "?r * ro * 1000000 = ?r * (ro * 1000) * 1000" by simp
  also have "\<dots> \<le> ?o * 997 * ri * 1000" using r by (rule mult_le_mono1)
  also have "\<dots> = ?o * (ri * 1000) * 997" by simp
  also have "\<dots> \<le> a * 997 * ro * 997" using o by (rule mult_le_mono1)
  also have "\<dots> < a * ro * 1000000" using assms by simp
  finally show ?thesis using assms by simp
qed

section \<open>Golden-section search\<close>

lemma golden_le:
  assumes "unat w < 2 ^ 200"
  shows "unat (golden w) = unat w * 618033988749895 div 1000000000000000"
    and "golden w \<le> w"
proof -
  have "unat w * 618033988749895 < 2 ^ 200 * 2 ^ 50"
    using assms by (intro mult_strict_mono) simp_all
  then have "unat (w * PHI_NUM) = unat w * 618033988749895"
    by (subst unat_mult_nowrap) (simp_all add: PHI_NUM_def)
  then show g: "unat (golden w) = unat w * 618033988749895 div 1000000000000000"
    by (simp add: golden_def unat_div PHI_DEN_def)
  have "unat w * 618033988749895 div 1000000000000000 \<le> unat w * 1000000000000000 div 1000000000000000"
    by (intro div_le_mono) simp
  then show "golden w \<le> w" using g by (simp add: word_le_nat_alt)
qed

text \<open>The bracket is followed through its width and the distances of the two probes from the
  ends. One probe is fresh, the other was the other probe of the wider bracket and may be off
  by a small drift that grows by at most \<open>drift\<close> in a step.\<close>

definition gold :: "int \<Rightarrow> int" where
  "gold w = w * 618033988749895 div 1000000000000000"

definition drift :: int where "drift = 200000000"

lemma gold_bounds:
  "1000000000000000 * gold w \<le> w * 618033988749895"
  "w * 618033988749895 < 1000000000000000 * gold w + 1000000000000000"
proof -
  have "w * 618033988749895 = 1000000000000000 * gold w + w * 618033988749895 mod 1000000000000000"
    unfolding gold_def by (rule mult_div_mod_eq [symmetric])
  moreover have "0 \<le> w * 618033988749895 mod 1000000000000000"
    "w * 618033988749895 mod 1000000000000000 < 1000000000000000"
    by (rule pos_mod_sign pos_mod_bound, simp)+
  ultimately show "1000000000000000 * gold w \<le> w * 618033988749895"
    "w * 618033988749895 < 1000000000000000 * gold w + 1000000000000000" by linarith+
qed

lemma gold_range: "0 \<le> w \<Longrightarrow> 0 \<le> gold w" "0 \<le> w \<Longrightarrow> gold w \<le> w"
  using gold_bounds [of w] by linarith+

text \<open>\<open>w\<close> the width, \<open>s\<close> the distance of the stale probe, \<open>k\<close> its drift.\<close>

lemma drift_stale:
  assumes "0 \<le> w" "w < 2 ^ 78" "\<bar>s - gold w\<bar> \<le> k" "0 \<le> k"
  shows "\<bar>(w - gold w) - gold s\<bar> \<le> k + drift"
proof -
  note w = gold_bounds [of w] and s = gold_bounds [of s]
  show ?thesis using w s assms unfolding drift_def by (simp add: abs_le_iff)
qed

lemma drift_fresh:
  assumes "0 \<le> w" "w < 2 ^ 78" "\<bar>s - gold w\<bar> \<le> k" "0 \<le> k"
  shows "\<bar>(w - s) - gold (gold w)\<bar> \<le> k + drift"
proof -
  note w = gold_bounds [of w] and s = gold_bounds [of "gold w"]
  show ?thesis using w s assms unfolding drift_def by (simp add: abs_le_iff)
qed

text \<open>Distances of the probes, as integers.\<close>

definition gss_inv :: "u256 \<Rightarrow> u256 \<Rightarrow> int \<Rightarrow> gss_state \<Rightarrow> bool" where
  "gss_inv lo hi k s \<longleftrightarrow>
     (let w = uint (g_b s) - uint (g_a s); x = uint (g_d s) - uint (g_a s); y = uint (g_b s) - uint (g_c s)
      in lo \<le> g_a s \<and> g_b s \<le> hi \<and> 0 \<le> w \<and> 0 \<le> k \<and>
         ((x = gold w \<and> \<bar>y - gold w\<bar> \<le> k) \<or> (y = gold w \<and> \<bar>x - gold w\<bar> \<le> k)))"

lemma uint_golden:
  assumes "a \<le> b" and "unat b < 2 ^ 78"
  shows "uint (golden (b - a)) = gold (uint b - uint a)" "0 \<le> gold (uint b - uint a)"
    "gold (uint b - uint a) \<le> uint b - uint a"
proof -
  have ab: "unat a \<le> unat b" using assms(1) by (simp add: word_le_nat_alt)
  have w: "unat (b - a) = unat b - unat a" using ab by (rule unat_sub_nowrap)
  then have "unat (b - a) < 2 ^ 200"
    using assms(2) by (simp only:) (rule le_less_trans [of _ "unat b"], simp_all)
  from golden_le(1) [OF this] have
    "int (unat (golden (b - a))) = (int (unat b) - int (unat a)) * 618033988749895 div 1000000000000000"
    using ab by (simp only: w) (simp add: zdiv_int of_nat_diff)
  then show g: "uint (golden (b - a)) = gold (uint b - uint a)" by (simp add: gold_def)
  have "0 \<le> uint b - uint a" using assms(1) by (simp add: word_le_def)
  from gold_range [OF this] show "0 \<le> gold (uint b - uint a)" "gold (uint b - uint a) \<le> uint b - uint a" .
qed

lemma uint_probe:
  assumes "a \<le> b" and "unat b < 2 ^ 78"
  shows "uint (b - golden (b - a)) = uint b - gold (uint b - uint a)"
    "uint (a + golden (b - a)) = uint a + gold (uint b - uint a)"
proof -
  note g = uint_golden [OF assms]
  show "uint (b - golden (b - a)) = uint b - gold (uint b - uint a)"
    using g uint_ge_0 [of a] uint_sub_lem [of "golden (b - a)" b] by linarith
  have "uint b < 2 ^ 256" using uint_bounded [of b] by simp
  then have "uint a + uint (golden (b - a)) < 2 ^ 256" using g by linarith
  then show "uint (a + golden (b - a)) = uint a + gold (uint b - uint a)"
    using g(1) uint_add_lem [of a "golden (b - a)"] by simp
qed

lemma gss_init_inv:
  assumes "lo \<le> hi" and "unat hi < 2 ^ 78"
  shows "gss_inv lo hi 0 (gss_init f lo hi)"
proof -
  have "0 \<le> uint hi - uint lo" using assms(1) by (simp add: word_le_def)
  then show ?thesis
    using uint_probe [OF assms] by (simp add: gss_inv_def gss_init_def Let_def)
qed

lemma gss_step_inv:
  assumes inv: "gss_inv lo hi k s" and hi: "unat hi < 2 ^ 78" and k: "k \<le> 40 * drift"
    and wide: "100000000000 \<le> uint (g_b s) - uint (g_a s)"
  shows "gss_inv lo hi (k + drift) (gss_step f s)"
proof -
  let ?a = "uint (g_a s)" and ?b = "uint (g_b s)" and ?c = "uint (g_c s)" and ?d = "uint (g_d s)"
  define w x y where "w = ?b - ?a" and "x = ?d - ?a" and "y = ?b - ?c"
  have I: "lo \<le> g_a s" "g_b s \<le> hi" "0 \<le> w" "0 \<le> k"
    "(x = gold w \<and> \<bar>y - gold w\<bar> \<le> k) \<or> (y = gold w \<and> \<bar>x - gold w\<bar> \<le> k)"
    using inv by (simp_all add: gss_inv_def Let_def w_def x_def y_def)
  have "?b < 2 ^ 78"
  proof -
    have "unat (g_b s) < 2 ^ 78" using I(2) hi by (simp only: word_le_nat_alt) 
    then have "int (unat (g_b s)) < int (2 ^ 78)" by (simp only: of_nat_less_iff)
    then show ?thesis by simp
  qed
  then have w78: "w < 2 ^ 78" using uint_ge_0 [of "g_a s"] unfolding w_def by linarith
  have sides: "0 \<le> x" "x \<le> w" "0 \<le> y" "y \<le> w" "w \<le> x + y"
    using I(5) k wide gold_bounds [of w] unfolding drift_def w_def [symmetric] by linarith+
  have probes: "\<bar>(w - y) - gold x\<bar> \<le> k + drift" "\<bar>(w - x) - gold y\<bar> \<le> k + drift"
    using I(5) drift_stale [OF I(3) w78 _ I(4)] drift_fresh [OF I(3) w78 _ I(4)] by auto
  have b78: "unat (g_b s) < 2 ^ 78" using I(2) hi by (simp only: word_le_nat_alt)
  have dk: "0 \<le> k + drift" using I(4) by (simp add: drift_def)
  show ?thesis
  proof (cases "g_fc s > g_fd s")
    case True
    have ad: "g_a s \<le> g_d s" "g_d s \<le> g_b s" using sides by (simp_all add: word_le_def x_def w_def)
    then have "unat (g_d s) < 2 ^ 78" using b78 by (simp only: word_le_nat_alt)
    note p = uint_probe [OF ad(1) this]
    have "\<bar>(?c - ?a) - gold x\<bar> \<le> k + drift" using probes(1) by (simp add: w_def y_def)
    moreover have "?d - (?d - gold (?d - ?a)) = gold x" by (simp add: x_def)
    ultimately show ?thesis
      using True I(1) order_trans [OF ad(2) I(2)] sides(1) dk p
      by (simp add: gss_inv_def gss_step_def Let_def x_def)
  next
    case False
    have cb: "g_c s \<le> g_b s" "g_a s \<le> g_c s" using sides by (simp_all add: word_le_def y_def w_def)
    note p = uint_probe [OF cb(1) b78]
    have "\<bar>(?b - ?d) - gold y\<bar> \<le> k + drift" using probes(2) by (simp add: w_def x_def)
    then show ?thesis
      using False I(2) order_trans [OF I(1) cb(2)] sides(3) dk p
      by (simp add: gss_inv_def gss_step_def Let_def y_def)
  qed
qed

lemma gss_loop_inv:
  "gss_inv lo hi k s \<Longrightarrow> unat hi < 2 ^ 78 \<Longrightarrow> k + int n * drift \<le> 40 * drift \<Longrightarrow>
    \<exists>k'. gss_inv lo hi k' (gss_loop n f s)"
proof (induction n arbitrary: k s)
  case (Suc n)
  show ?case
  proof (cases "g_b s - g_a s < 100000000000")
    case True
    then show ?thesis using Suc.prems(1) by auto
  next
    case False
    have "uint (g_a s) \<le> uint (g_b s)" using Suc.prems(1) by (simp add: gss_inv_def Let_def)
    then have "uint (g_b s - g_a s) = uint (g_b s) - uint (g_a s)" by (simp only: uint_sub_lem)
    then have wide: "100000000000 \<le> uint (g_b s) - uint (g_a s)"
      using False by (simp add: word_less_def not_less)
    have k: "k \<le> 40 * drift" "k + drift + int n * drift \<le> 40 * drift"
      using Suc.prems(3) by (simp_all add: drift_def)
    from Suc.IH [OF gss_step_inv [OF Suc.prems(1,2) k(1) wide] Suc.prems(2) k(2)] False
    show ?thesis by simp
  qed
qed auto

lemma gold_mono: "v \<le> w \<Longrightarrow> gold v \<le> gold w"
  unfolding gold_def by (intro zdiv_mono1) simp_all

text \<open>A lower bound of the width after \<open>n\<close> more steps.\<close>

fun width_after :: "nat \<Rightarrow> int \<Rightarrow> int \<Rightarrow> int" where
  "width_after 0 k w = w"
| "width_after (Suc n) k w = width_after n (k + drift) (gold w - k)"

lemma width_after_le: "0 \<le> k \<Longrightarrow> 0 \<le> width_after n k w \<Longrightarrow> width_after n k w \<le> w"
proof (induction n arbitrary: k w)
  case (Suc n)
  then have "width_after n (k + drift) (gold w - k) \<le> gold w - k"
    by (simp add: drift_def)
  moreover from this Suc.prems have "0 \<le> gold w" by simp
  then have "gold w \<le> w" using gold_bounds [of w] by linarith
  ultimately show ?case using Suc.prems by simp
qed simp

lemma width_after_numeral:
  "width_after (numeral n) k w = width_after (pred_numeral n) (k + drift) (gold w - k)"
  by (simp add: numeral_eq_Suc)

lemma gss_step_width:
  assumes "gss_inv lo hi k s"
  shows "gold (uint (g_b s) - uint (g_a s)) - k \<le> uint (g_b (gss_step f s)) - uint (g_a (gss_step f s))"
  using assms by (auto simp: gss_inv_def gss_step_def Let_def)

lemma gss_loop_width:
  "gss_inv lo hi k s \<Longrightarrow> unat hi < 2 ^ 78 \<Longrightarrow> k + int n * drift \<le> 40 * drift \<Longrightarrow>
    w \<le> uint (g_b s) - uint (g_a s) \<Longrightarrow> 100000000000 \<le> width_after n k w \<Longrightarrow>
    width_after n k w \<le> uint (g_b (gss_loop n f s)) - uint (g_a (gss_loop n f s))"
proof (induction n arbitrary: k s w)
  case (Suc n)
  have k0: "0 \<le> k" "k \<le> 40 * drift" "k + drift + int n * drift \<le> 40 * drift"
    using Suc.prems(1,3) by (simp_all add: gss_inv_def Let_def drift_def)
  have w: "100000000000 \<le> w"
    using width_after_le [OF k0(1), of "Suc n" w] Suc.prems(5) by simp
  then have wide: "100000000000 \<le> uint (g_b s) - uint (g_a s)" using Suc.prems(4) by linarith
  then have "uint (g_b s - g_a s) = uint (g_b s) - uint (g_a s)"
    using uint_sub_lem [of "g_a s" "g_b s"] by linarith
  then have go: "\<not> g_b s - g_a s < 100000000000" using wide by (simp add: word_less_def)
  have "gold w - k \<le> uint (g_b (gss_step f s)) - uint (g_a (gss_step f s))"
    using gss_step_width [OF Suc.prems(1), of f] gold_mono [OF Suc.prems(4)] by linarith
  from Suc.IH [OF gss_step_inv [OF Suc.prems(1,2) k0(2) wide] Suc.prems(2) k0(3) this] Suc.prems(5) go
  show ?case by simp
qed simp

section \<open>The closed form on two equal pools\<close>

lemma is_sqrt_square: "is_sqrt (m * m) r \<Longrightarrow> r = m"
proof -
  assume "is_sqrt (m * m) r"
  then have "r * r \<le> m * m" "m * m < (r + 1) * (r + 1)" by (simp_all add: is_sqrt_def)
  then have "\<not> m < r" "\<not> r + 1 \<le> m"
    using mult_strict_mono' [of m r m r] mult_le_mono [of "r + 1" m "r + 1" m] by linarith+
  then show "r = m" by linarith
qed

lemma unat_512: "n < 2 ^ 512 \<Longrightarrow> unat (word_of_nat n :: u512) = n"
  by (rule unat_of_nat_nowrap) simp

lemma equal_pools_result:
  assumes "r \<noteq> 0" and "unat r < 2 ^ 96"
  shows "\<exists>x. calculate_optimal_v2_v2 r r r r 30 30 = Some x \<and>
    unat x = unat r * 996900000000 div 199100900"
proof -
  define m where "m = unat r"
  have m: "0 < m" "m < 2 ^ 96" using assms by (simp_all add: m_def)
  have w: "wide r = word_of_nat m" by (simp add: m_def)
  have mm: "m * m < 2 ^ 96 * 2 ^ 96" using m by (intro mult_strict_mono) simp_all
  let ?s = "m * m * 99700000"
  have "?s < 2 ^ 192 * 2 ^ 27" using mm by simp
  then have "?s * ?s \<le> (2 ^ 192 * 2 ^ 27) * (2 ^ 192 * 2 ^ 27)" by (intro mult_le_mono less_imp_le)
  also have "\<dots> < (2 :: nat) ^ 512" by simp
  finally have s512: "?s * ?s < 2 ^ 512" .
  have prod: "(word_of_nat m * word_of_nat m * (word_of_nat m * word_of_nat m) * (9970 * 9970) * 100000000 :: u512)
      = word_of_nat (?s * ?s)" by (simp add: algebra_simps)
  obtain q where q: "uint_sqrt_512 (word_of_nat (?s * ?s)) = Some q" "is_sqrt (?s * ?s) (unat q)"
    using sqrt_512_correct [of "word_of_nat (?s * ?s)"] unat_512 [OF s512] by metis
  then have uq: "unat q = ?s" by (intro is_sqrt_square)
  have t: "unat (word_of_nat m * word_of_nat m * 10000 :: u512) = m * m * 10000"
  proof -
    have "m * m * 10000 < 2 ^ 512" using mm by simp
    from unat_512 [OF this] show ?thesis by simp
  qed
  have num: "unat ((q - word_of_nat m * word_of_nat m * 10000) * 10000) = m * m * 996900000000"
  proof -
    have d: "unat (q - word_of_nat m * word_of_nat m * 10000) = m * m * 99690000"
      using uq t by (subst unat_sub_nowrap) simp_all
    have "m * m * 996900000000 < 2 ^ 512" using mm by simp
    then show ?thesis using d by (subst unat_mult_nowrap) simp_all
  qed
  have den: "unat (9970 * (10000 * word_of_nat m + 9970 * word_of_nat m) :: u512) = m * 199100900"
  proof -
    have "m * 199100900 < 2 ^ 512" using m by simp
    from unat_512 [OF this] show ?thesis by (simp add: algebra_simps)
  qed
  have den0: "9970 * (10000 * word_of_nat m + 9970 * word_of_nat m) \<noteq> (0 :: u512)"
    using den m by (metis mult_is_0 unat_0 not_less_zero zero_neq_numeral less_irrefl)
  have gt: "\<not> q \<le> word_of_nat m * word_of_nat m * 10000"
    using uq t m by (simp only: word_le_nat_alt) simp
  let ?res = "((q - word_of_nat m * word_of_nat m * 10000) * 10000)
      div (9970 * (10000 * word_of_nat m + 9970 * word_of_nat m))"
  have res: "unat ?res = m * 996900000000 div 199100900"
    unfolding unat_div num den using m by (simp add: mult.assoc)
  have "m * 996900000000 div 199100900 \<le> 2 ^ 256 - 1"
    using m div_le_dividend [of "m * 996900000000" 199100900] by simp
  then have safe: "unat (u512_to_u256_safe ?res) = m * 996900000000 div 199100900"
    by (simp only: unat_safe res min_absorb1)
  have fee: "(ucast (10000 - 30 :: u32) :: u512) = 9970" by simp
  have "calculate_optimal_v2_v2 r r r r 30 30 = Some (u512_to_u256_safe ?res)"
    unfolding calculate_optimal_v2_v2_def Let_def fee w prod q(1) bind.bind_lunit
    using gt den0 by (simp only: if_False)
  with safe show ?thesis by (simp add: m_def)
qed

lemma find_optimal_input_result:
  assumes "lo \<le> hi" and "unat hi < 2 ^ 78"
  shows "find_optimal_input lo hi f = (0, 0) \<or>
    (\<exists>x. find_optimal_input lo hi f = (x, u256_of_i256 (f x)) \<and> 0 < f x \<and> lo \<le> x \<and> x \<le> hi)"
proof -
  let ?s = "gss_loop 40 f (gss_init f lo hi)"
  let ?x = "(g_a ?s + g_b ?s) div 2"
  obtain k where "gss_inv lo hi k ?s"
    using gss_loop_inv [OF gss_init_inv [OF assms] assms(2), of 40] by (auto simp: drift_def)
  then have b: "lo \<le> g_a ?s" "g_a ?s \<le> g_b ?s" "g_b ?s \<le> hi"
    by (auto simp: gss_inv_def Let_def word_le_def)
  have "(2::nat) ^ 78 + 2 ^ 78 < 2 ^ 256" by simp
  then have "unat (g_a ?s) + unat (g_b ?s) < 2 ^ 256"
    using b assms(2) by (simp only: word_le_nat_alt)
  then have "unat (g_a ?s + g_b ?s) = unat (g_a ?s) + unat (g_b ?s)"
    by (intro unat_add_nowrap) simp
  then have "unat ?x = (unat (g_a ?s) + unat (g_b ?s)) div 2" by (simp add: unat_div)
  then have "lo \<le> ?x" "?x \<le> hi" using b by (simp_all only: word_le_nat_alt)
  then show ?thesis by (auto simp: find_optimal_input_def Let_def not_le)
qed

section \<open>Properties\<close>

text \<open>C27 The 512-bit Newton square root returns for every argument, without a panic, and returns
  the floor of the square root.\<close>

theorem uint_sqrt_512_exact:
  "\<exists>r. uint_sqrt_512 n = Some r \<and> unat r * unat r \<le> unat n \<and> unat n < (unat r + 1) * (unat r + 1)"
  using sqrt_512_correct [of n] by (auto simp: is_sqrt_def)

text \<open>C29 A constant-product swap on a pool with two non-zero reserves, the bought one below
  \<open>2 ^ 128\<close>, never drains the pool and never lowers the product of the
  reserves, even counting only the part of the input after the 0.3 percent fee.\<close>

theorem v2_output_keeps_product:
  assumes "reserve_in st z \<noteq> 0" and "reserve_out st z \<noteq> 0" and "unat (reserve_out st z) < 2 ^ 128"
  shows "get_v2_output a st z < reserve_out st z \<and>
    unat (reserve_in st z) * 1000 * unat (reserve_out st z)
      \<le> (unat (reserve_in st z) * 1000 + unat a * 997) * (unat (reserve_out st z) - unat (get_v2_output a st z))"
  using v2_nat_less [of "unat (reserve_in st z)" "unat (reserve_out st z)" "unat a"]
    v2_nat_product [of "unat (reserve_in st z)" "unat (reserve_out st z)" "unat a"] assms
  by (simp only: v2_output_nat [OF assms(3)] word_less_nat_alt if_False unat_gt_0 simp_thms)

theorem v2_output_keeps_product_witness:
  "get_v2_output 1000 ((default_pool_state 0)\<lparr>ps_reserves0 := 10 ^ 6, ps_reserves1 := 10 ^ 6\<rparr>) True < 10 ^ 6"
  using v2_output_keeps_product [of "(default_pool_state 0)\<lparr>ps_reserves0 := 10 ^ 6, ps_reserves1 := 10 ^ 6\<rparr>" True 1000]
  by (simp add: reserve_in_def reserve_out_def)

text \<open>There is no free round trip on one constant-product pool: selling any amount and
  selling the proceeds back at the same reserves returns strictly less.\<close>

theorem v2_round_trip_loses:
  assumes "a \<noteq> 0" and "ps_reserves0 st \<noteq> 0" and "ps_reserves1 st \<noteq> 0"
    and "unat (ps_reserves0 st) < 2 ^ 128" and "unat (ps_reserves1 st) < 2 ^ 128"
  shows "get_v2_output (get_v2_output a st z) st (\<not> z) < a"
proof -
  have r: "unat (reserve_out st w) < 2 ^ 128" "reserve_out st w \<noteq> 0" "reserve_in st w \<noteq> 0" for w
    using assms by (simp_all add: reserve_out_def reserve_in_def)
  have swap: "reserve_in st (\<not> z) = reserve_out st z" "reserve_out st (\<not> z) = reserve_in st z"
    by (simp_all add: reserve_out_def reserve_in_def)
  have "v2_nat (v2_nat (unat a) (unat (reserve_in st z)) (unat (reserve_out st z)))
      (unat (reserve_out st z)) (unat (reserve_in st z)) < unat a"
    using assms(1) r(2,3) [of z] by (intro v2_there_and_back) (simp_all only: unat_gt_0 simp_thms)
  then show ?thesis
    using r [of z] r [of "\<not> z"]
    by (simp only: word_less_nat_alt v2_output_nat [OF r(1)] swap if_False simp_thms)
qed

theorem v2_round_trip_loses_witness:
  "get_v2_output (get_v2_output 1000 ((default_pool_state 0)\<lparr>ps_reserves0 := 10 ^ 6, ps_reserves1 := 10 ^ 7\<rparr>) False)
     ((default_pool_state 0)\<lparr>ps_reserves0 := 10 ^ 6, ps_reserves1 := 10 ^ 7\<rparr>) True < 1000"
  using v2_round_trip_loses [of 1000 "(default_pool_state 0)\<lparr>ps_reserves0 := 10 ^ 6, ps_reserves1 := 10 ^ 7\<rparr>" False]
  by simp

text \<open>The golden-section search returns, within its forty steps and for any profit function
  whatever, either nothing or an input inside the given range together with that function's own,
  positive, value there. The bracket never inverts although the probes drift by truncation.\<close>

theorem find_optimal_input_sound:
  assumes "lo \<le> hi" and "unat hi < 2 ^ 78"
  shows "find_optimal_input lo hi f = (0, 0) \<or>
    (\<exists>x. find_optimal_input lo hi f = (x, u256_of_i256 (f x)) \<and> 0 < f x \<and> lo \<le> x \<and> x \<le> hi)"
  by (rule find_optimal_input_result [OF assms])

theorem find_optimal_input_sound_witness:
  "find_optimal_input (10 ^ 15) (10 ^ 20) (\<lambda>x. 1) = (0, 0) \<or>
    (\<exists>x. find_optimal_input (10 ^ 15) (10 ^ 20) (\<lambda>x. 1) = (x, u256_of_i256 1) \<and>
       (0::i256) < 1 \<and> 10 ^ 15 \<le> x \<and> x \<le> 10 ^ 20)"
  using find_optimal_input_sound [of "10 ^ 15" "10 ^ 20" "\<lambda>x. 1"] by simp

text \<open>The search does not reach its tolerance on the range the engine searches: from
  \<open>10 ^ 15\<close> to \<open>10 ^ 20\<close> wei, after all forty steps and for every profit function, the
  bracket is still at least \<open>4 * 10 ^ 11\<close> wei wide.\<close>

theorem golden_search_resolution:
  "4 * 10 ^ 11 \<le> uint (g_b (gss_loop 40 f (gss_init f (10 ^ 15) (10 ^ 20))))
     - uint (g_a (gss_loop 40 f (gss_init f (10 ^ 15) (10 ^ 20))))"
proof -
  have inv: "gss_inv (10 ^ 15) (10 ^ 20) 0 (gss_init f (10 ^ 15) (10 ^ 20))"
    by (rule gss_init_inv) (simp_all add: word_le_nat_alt)
  have num: "4 * 10 ^ 11 \<le> width_after 40 0 (10 ^ 20 - 10 ^ 15)"
    by (simp add: width_after_numeral drift_def gold_def)
  have "(100000000000 :: int) \<le> 4 * 10 ^ 11" by simp
  then have "100000000000 \<le> width_after 40 0 (10 ^ 20 - 10 ^ 15)" using num by (rule order_trans)
  from gss_loop_width [OF inv _ _ _ this, of f] num show ?thesis
    by (simp add: gss_init_def Let_def drift_def)
qed

text \<open>The closed form is scaled wrongly: for two identical pools, between which no trade can
  profit, it proposes an input of more than five thousand times the reserves.\<close>

theorem equal_pools_positive_input:
  assumes "r \<noteq> 0" and "unat r < 2 ^ 96"
  shows "\<exists>x. calculate_optimal_v2_v2 r r r r 30 30 = Some x \<and> 5000 * unat r \<le> unat x"
proof -
  obtain x where x: "calculate_optimal_v2_v2 r r r r 30 30 = Some x"
    "unat x = unat r * 996900000000 div 199100900"
    using equal_pools_result [OF assms] by blast
  have "5000 * unat r \<le> unat r * 996900000000 div 199100900"
    by (simp add: less_eq_div_iff_mult_less_eq)
  with x show ?thesis by auto
qed

theorem equal_pools_positive_input_witness:
  "\<exists>x. calculate_optimal_v2_v2 (10 ^ 18) (10 ^ 18) (10 ^ 18) (10 ^ 18) 30 30 = Some x \<and>
     5000 * 10 ^ 18 \<le> unat x"
  using equal_pools_positive_input [of "10 ^ 18"] by simp

end
