(* ===== verification/Detector_Facts.thy ===== *)
theory Detector_Facts
  imports Detector Path_Facts Math_Facts
begin

text \<open>
  What the detector reports. Reading a pool only touches its access time, so every task of an
  event prices its paths on the pools the event found; an invariant of the task loop carries
  this and the shape of the reported opportunities through \<open>process_event\<close>.
\<close>

section \<open>Folds that can panic\<close>

lemma exec_fold_inv:
  assumes "exec_fold f xs s = Some s'" and "I s"
    and "\<And>x t t'. x \<in> set xs \<Longrightarrow> I t \<Longrightarrow> f x t = Some t' \<Longrightarrow> I t'"
  shows "I s'"
  using assms
proof (induction xs arbitrary: s)
  case (Cons x xs)
  then obtain t where "f x s = Some t" "exec_fold f xs t = Some s'" by (auto split: bind_splits)
  with Cons.IH [of t] Cons.prems show ?case by (meson list.set_intros)
qed simp

section \<open>Reading the mirror\<close>

definition forget_access :: "pool_state \<Rightarrow> pool_state" where
  "forget_access p = p\<lparr>ps_last_access_ts := 0\<rparr>"

definition same_pools :: "mirror \<Rightarrow> mirror \<Rightarrow> bool" where
  "same_pools m m' \<longleftrightarrow> (\<forall>a. map_option forget_access (DAList.lookup (sm_pools m') a) =
     map_option forget_access (DAList.lookup (sm_pools m) a))"

lemma same_pools_refl [simp, intro]: "same_pools m m"
  by (simp add: same_pools_def)

lemma same_pools_trans: "same_pools m m' \<Longrightarrow> same_pools m' m'' \<Longrightarrow> same_pools m m''"
  by (simp add: same_pools_def)

lemma get_pool_data_same: "same_pools m (snd (get_pool_data now a m))"
  by (auto simp: get_pool_data_def same_pools_def dm_lookups forget_access_def option.map_comp comp_def
      Let_def split: option.split)

lemma get_pool_data_Some:
  "get_pool_data now a m = (Some st, m') \<Longrightarrow>
    \<exists>p. DAList.lookup (sm_pools m) a = Some p \<and> forget_access st = forget_access p"
  by (auto simp: get_pool_data_def dm_lookups forget_access_def Let_def split: option.splits)

text \<open>The state a path is priced on: the mirrored pool with the projected reserves.\<close>

definition priced_state :: "mirror \<Rightarrow> impact \<Rightarrow> hop \<Rightarrow> pool_state \<Rightarrow> bool" where
  "priced_state m impacts h st \<longleftrightarrow> (\<exists>p. DAList.lookup (sm_pools m) (hop_pool_address h) = Some p \<and>
     forget_access st = forget_access (with_impact impacts (hop_pool_address h) p))"

lemma forget_with_impact:
  "forget_access p = forget_access q \<Longrightarrow>
    forget_access (with_impact impacts a p) = forget_access (with_impact impacts a q)"
  by (cases p; cases q) (simp add: forget_access_def with_impact_def split: option.split)

lemma priced_state_same:
  assumes "same_pools m m'" "priced_state m' impacts h st"
  shows "priced_state m impacts h st"
proof -
  from assms(2) obtain p where p: "DAList.lookup (sm_pools m') (hop_pool_address h) = Some p"
    "forget_access st = forget_access (with_impact impacts (hop_pool_address h) p)"
    by (auto simp: priced_state_def)
  with assms(1) obtain q where "DAList.lookup (sm_pools m) (hop_pool_address h) = Some q"
    "forget_access q = forget_access p"
    by (cases "DAList.lookup (sm_pools m) (hop_pool_address h)") (auto simp: same_pools_def dest: spec [of _ "hop_pool_address h"])
  with p(2) forget_with_impact [OF this(2), of impacts "hop_pool_address h"] show ?thesis
    by (auto simp: priced_state_def)
qed

lemma priced_states_same:
  assumes "same_pools m m'" "list_all2 (priced_state m' impacts) hops states"
  shows "list_all2 (priced_state m impacts) hops states"
  by (rule list_all2_mono [OF assms(2)]) (rule priced_state_same [OF assms(1)])

lemma fetch_states_same: "same_pools m (snd (fetch_states now impacts hops m))"
proof (induction hops arbitrary: m)
  case (Cons h hops)
  obtain o1 m1 where g: "get_pool_data now (hop_pool_address h) m = (o1, m1)" by fastforce
  then have m1: "same_pools m m1" using get_pool_data_same [of m now "hop_pool_address h"] by simp
  obtain sts m2 where f: "fetch_states now impacts hops m1 = (sts, m2)" by fastforce
  then have "same_pools m1 m2" using Cons.IH [of m1] by simp
  with m1 show ?case by (auto simp: g f split: option.split intro: same_pools_trans)
qed simp

lemma fetch_states_priced:
  "fetch_states now impacts hops m = (states, m') \<Longrightarrow> length states = length hops \<Longrightarrow>
    list_all2 (priced_state m impacts) hops states"
proof (induction hops arbitrary: m states m')
  case (Cons h hops)
  from Cons.prems obtain st m1 sts where st: "get_pool_data now (hop_pool_address h) m = (Some st, m1)"
    "fetch_states now impacts hops m1 = (sts, m')" "states = with_impact impacts (hop_pool_address h) st # sts"
    by (auto split: prod.splits option.splits)
  have "same_pools m m1" using get_pool_data_same [of m now "hop_pool_address h"] st(1) by simp
  moreover have "list_all2 (priced_state m1 impacts) hops sts" using Cons.IH [OF st(2)] Cons.prems(2) st(3) by simp
  ultimately have "list_all2 (priced_state m impacts) hops sts"
    by (rule priced_states_same)
  moreover from get_pool_data_Some [OF st(1)] obtain p where
    "DAList.lookup (sm_pools m) (hop_pool_address h) = Some p" "forget_access st = forget_access p" by blast
  then have "priced_state m impacts h (with_impact impacts (hop_pool_address h) st)"
    using forget_with_impact [of st p impacts "hop_pool_address h"] by (simp add: priced_state_def)
  ultimately show ?case by (simp add: st(3))
qed simp

section \<open>Pricing a path\<close>

definition named_type :: "hop \<Rightarrow> bool" where
  "named_type h \<longleftrightarrow> hop_dex_type h = dex_type_of_name (hop_dex_name h)"

lemma path_output_zero: "get_path_output_with_states guess hops 0 states = Some 0"
  by (cases hops) simp_all

lemma path_output_unpriced:
  "get_path_output_with_states guess hops amt states = Some out \<Longrightarrow> h \<in> set hops \<Longrightarrow>
    hop_dex_type h \<notin> {UniswapV2, Aerodrome} \<Longrightarrow> out = 0"
proof (induction hops arbitrary: amt states)
  case (Cons g hops)
  show ?case
  proof (cases "amt = 0")
    case False
    then obtain st sts o1 where s: "states = st # sts" "hop_output guess g amt st = Some o1"
      "get_path_output_with_states guess hops o1 sts = Some out"
      using Cons.prems(1) by (auto split: list.splits bind_splits)
    show ?thesis
    proof (cases "h = g")
      case True
      then have "o1 = 0" using s(2) Cons.prems(3) by (auto simp: hop_output_def split: dex_type.splits)
      then show ?thesis using s(3) by (simp add: path_output_zero)
    qed (use Cons s(3) in auto)
  qed (use Cons.prems(1) in simp)
qed simp

lemma hop_output_defined: "hop_dex_type h \<noteq> Aerodrome \<Longrightarrow> \<exists>out. hop_output guess h amt st = Some out"
  by (auto simp: hop_output_def split: dex_type.split)

lemma path_output_defined:
  "(\<forall>h \<in> set hops. hop_dex_type h \<noteq> Aerodrome) \<Longrightarrow> length states = length hops \<Longrightarrow>
    \<exists>out. get_path_output_with_states guess hops amt states = Some out"
proof (induction hops arbitrary: amt states)
  case (Cons h hops)
  then obtain st sts where "states = st # sts" by (cases states) auto
  with Cons hop_output_defined [of h guess amt st] show ?case by auto
qed simp

lemma sat_sub_pos: "0 < uint (sat_sub a b :: u256) \<Longrightarrow> b < a \<and> sat_sub a b = a - b"
  by (auto simp: sat_sub_def not_less le_less split: if_splits)

lemma sat_sub_zero: "sat_sub 0 x = (0 :: u256)"
  by (cases "x = 0") (simp_all add: sat_sub_def word_neq_0_conv)

lemma path_profit_pos:
  assumes "0 < path_profit guess hops states x"
  shows "\<exists>out. get_path_output_with_states guess hops x states = Some out \<and> x < out \<and>
    u256_of_i256 (path_profit guess hops states x) = out - x"
proof -
  from assms obtain out where out: "get_path_output_with_states guess hops x states = Some out"
    "path_profit guess hops states x = uint (sat_sub out x)" "0 < uint (sat_sub out x)"
    by (auto simp: path_profit_def i256_or_zero_def split: option.splits if_splits)
  with sat_sub_pos [OF out(3)] show ?thesis by (simp add: u256_of_i256_def)
qed

lemma search_range: "(10 ^ 15 :: u256) \<le> 100 * 10 ^ 18" "unat (100 * 10 ^ 18 :: u256) < 2 ^ 78"
  by (simp_all add: word_le_nat_alt)

text \<open>Pricing a path without Aerodrome pools reports nothing, or an input of the searched range
  with exactly what the path pays for it beyond the input.\<close>

lemma price_path_golden:
  assumes "\<forall>h \<in> set hops. hop_dex_name h \<noteq> NameAerodrome"
    and "price_path guess newton hops states = Some (inp, profit)" and "0 < profit"
  shows "10 ^ 15 \<le> inp \<and> inp \<le> 100 * 10 ^ 18 \<and>
    (\<exists>out. get_path_output_with_states guess hops inp states = Some out \<and> inp < out \<and> profit = out - inp)"
proof -
  have "find_optimal_input (10 ^ 15) (100 * 10 ^ 18) (path_profit guess hops states) = (inp, profit)"
    using assms(1,2) by (auto simp: price_path_def split: if_splits)
  with find_optimal_input_result [OF search_range, of "path_profit guess hops states"] assms(3)
  have "profit = u256_of_i256 (path_profit guess hops states inp)" "0 < path_profit guess hops states inp"
    "10 ^ 15 \<le> inp" "inp \<le> 100 * 10 ^ 18" by auto
  with path_profit_pos [of guess hops states inp] show ?thesis by auto
qed

lemma price_path_unpriced:
  assumes "price_path guess newton hops states = Some (inp, profit)"
    and "h \<in> set hops" and "hop_dex_type h \<notin> {UniswapV2, Aerodrome}"
  shows "profit = 0"
proof (cases "\<exists>h \<in> set hops. hop_dex_name h = NameAerodrome")
  case True
  with assms(1) obtain out where "get_path_output_with_states guess hops inp states = Some out"
    "profit = sat_sub out inp" by (auto simp: price_path_def split: bind_splits)
  with path_output_unpriced [OF this(1) assms(2,3)] show ?thesis by (simp add: sat_sub_zero)
next
  case False
  show ?thesis
  proof (rule ccontr)
    assume "profit \<noteq> 0"
    then have "0 < profit" by (simp add: word_neq_0_conv)
    with price_path_golden [OF _ assms(1)] False obtain out where
      out: "get_path_output_with_states guess hops inp states = Some out" "inp < out" by blast
    from path_output_unpriced [OF out(1) assms(2,3)] out(2) show False by simp
  qed
qed

section \<open>The shape of the paths\<close>

definition hops_named :: "dfs_state \<Rightarrow> bool" where
  "hops_named st \<longleftrightarrow> (\<forall>h \<in> set (ds_hops st). named_type h) \<and>
     (\<forall>hs \<in> set (ds_results st). hs \<noteq> [] \<and> (\<forall>h \<in> set hs. named_type h))"

lemma edge_hop_named: "edge_hop g m c e = Some h \<Longrightarrow> named_type h"
  by (auto simp: edge_hop_def named_type_def split: bind_splits)

lemma dfs_edge_named:
  assumes "dfs_edge g m t descend c i st = Some st'" and "hops_named st"
    and "\<And>n s s'. hops_named s \<Longrightarrow> descend n s = Some s' \<Longrightarrow> hops_named s'"
  shows "hops_named st'"
  using assms(1)
  by (auto simp: dfs_edge_def Let_def split: bind_splits if_splits)
    (use assms(2) in \<open>auto simp: hops_named_def dest: edge_hop_named in_set_butlastD\<close>;
     (drule assms(3) [rotated]; auto simp: hops_named_def dest: edge_hop_named in_set_butlastD))+

lemma dfs_levels_named:
  "dfs_levels g m t n c st = Some st' \<Longrightarrow> hops_named st \<Longrightarrow> hops_named st'"
proof (induction n arbitrary: c st st')
  case (Suc n)
  from Suc.prems(1) obtain lo hi where
    "exec_fold (dfs_edge g m t (\<lambda>next s. dfs_levels g m t n next s) c) [lo..<hi] st = Some st'"
    by (auto split: bind_splits)
  then show ?case
    by (rule exec_fold_inv) (use Suc.prems(2) Suc.IH dfs_edge_named in blast)+
qed simp

lemma branch_paths_named:
  assumes "branch_paths g m trigger s c k e = Some paths" and "hops \<in> set paths"
  shows "hops \<noteq> [] \<and> (\<forall>h \<in> set hops. named_type h)"
proof -
  from assms(1) obtain h v where h: "edge_hop g m c e = Some h" "named_type h"
    and p: "paths = [[h]] \<or> (\<exists>st. find_cycles_dfs (se_target_token_idx e) s g m
      \<lparr>ds_hops = [h], ds_visited = v, ds_results = []\<rparr> 2 k = Some st \<and> paths = ds_results st)"
    by (auto simp: branch_paths_def split: bind_splits if_splits dest: edge_hop_named)
  from p show ?thesis
  proof (elim disjE exE conjE)
    fix st assume "find_cycles_dfs (se_target_token_idx e) s g m
      \<lparr>ds_hops = [h], ds_visited = v, ds_results = []\<rparr> 2 k = Some st" "paths = ds_results st"
    moreover have "hops_named \<lparr>ds_hops = [h], ds_visited = v, ds_results = []\<rparr>"
      using h by (simp add: hops_named_def)
    ultimately have "hops_named st" unfolding find_cycles_dfs_def using dfs_levels_named by blast
    with \<open>paths = ds_results st\<close> assms(2) show ?thesis by (auto simp: hops_named_def)
  qed (use h assms(2) in auto)
qed

section \<open>The opportunities of an event\<close>

definition sound_opportunity :: "u256 \<Rightarrow> mirror \<Rightarrow> impact \<Rightarrow> float_guess \<Rightarrow> newton_search \<Rightarrow> opportunity \<Rightarrow> bool" where
  "sound_opportunity min_profit m impacts guess newton opp \<longleftrightarrow>
     (let hops = path_hops (op_path opp) in
      hops \<noteq> [] \<and> (\<forall>h \<in> set hops. named_type h) \<and> min_profit < op_expected_profit opp \<and>
      op_input_token opp = hop_token_in (hd hops) \<and>
      (\<exists>states. list_all2 (priced_state m impacts) hops states \<and>
         price_path guess newton hops states = Some (op_input_amount opp, op_expected_profit opp)))"

lemma sound_opportunity_same:
  "same_pools m m' \<Longrightarrow> sound_opportunity k m' impacts guess newton opp \<Longrightarrow> sound_opportunity k m impacts guess newton opp"
  unfolding sound_opportunity_def Let_def using priced_states_same by blast

lemma price_paths_sound:
  "price_paths env now config impacts ev paths (m, found) = Some (opps, m', found') \<Longrightarrow>
   \<forall>hops \<in> set paths. hops \<noteq> [] \<and> (\<forall>h \<in> set hops. named_type h) \<Longrightarrow>
   same_pools m m' \<and> (\<forall>opp \<in> set opps.
     sound_opportunity (dc_min_profit_wei config) m impacts (pr_guess env) (pr_newton env) opp)"
proof (induction paths arbitrary: m found opps)
  case (Cons hops paths)
  obtain states m1 where f: "fetch_states now impacts hops m = (states, m1)" by fastforce
  have same: "same_pools m m1" using fetch_states_same [of m now impacts hops] f by simp
  have up: "same_pools m m' \<and> (\<forall>opp \<in> set new. sound_opportunity (dc_min_profit_wei config) m impacts (pr_guess env) (pr_newton env) opp)"
    if "price_paths env now config impacts ev paths (m1, k) = Some (new, m', found')" for k new
    using Cons.IH [OF that] Cons.prems(2) same
    by (auto intro: same_pools_trans sound_opportunity_same)
  show ?case
  proof (cases "length states = length hops")
    case False
    with Cons.prems(1) have "price_paths env now config impacts ev paths (m1, found) = Some (opps, m', found')"
      by (simp add: f)
    then show ?thesis by (rule up)
  next
    case True
    have hops: "hops \<noteq> []" "\<forall>h \<in> set hops. named_type h" using Cons.prems(2) by auto
    then have first: "index hops 0 = Some (hd hops)" by (simp add: index_def hd_conv_nth)
    from Cons.prems(1) True obtain inp profit where p:
      "price_path (pr_guess env) (pr_newton env) hops states = Some (inp, profit)"
      by (auto simp: f first split: bind_splits)
    have rest: "(if dc_min_profit_wei config < profit
        then Option.bind (price_paths env now config impacts ev paths (m1, found + 1)) (\<lambda>(new, m'', k). Some (new_opportunity (found + 1) (path_new (pr_hasher env) hops 200000) profit (hop_token_in (hd hops)) inp
            (case ev_mempool_tx ev of Some tx \<Rightarrow> [tx] | None \<Rightarrow> []) (dc_chain config) (ev_sender ev) # new, m'', k))
        else price_paths env now config impacts ev paths (m1, found)) = Some (opps, m', found')"
      using Cons.prems(1) by (simp add: f first p True Let_def split: if_splits)
    show ?thesis
    proof (cases "dc_min_profit_wei config < profit")
      case False
      then show ?thesis using rest up [of found opps] by simp
    next
      case pos: True
      then obtain new where new: "price_paths env now config impacts ev paths (m1, found + 1) = Some (new, m', found')"
        "opps = new_opportunity (found + 1) (path_new (pr_hasher env) hops 200000) profit (hop_token_in (hd hops)) inp
          (case ev_mempool_tx ev of Some tx \<Rightarrow> [tx] | None \<Rightarrow> []) (dc_chain config) (ev_sender ev) # new"
        using rest by (auto split: bind_splits)
      have "list_all2 (priced_state m impacts) hops states" by (rule fetch_states_priced [OF f True])
      with up [OF new(1)] hops pos p show ?thesis
        by (auto simp: new(2) sound_opportunity_def new_opportunity_def path_new_def)
    qed
  qed
qed simp

lemma process_event_sound:
  assumes "process_event env skewed now ev d m found = Some (opps, d', m', found')"
  shows "opps = [] \<or> (\<exists>impacts. project_reserve_impact_v2 (ev_mempool_tx ev) (ev_swap_info ev) m = Some impacts \<and>
    (\<forall>opp \<in> set opps. sound_opportunity (dc_min_profit_wei (de_config d)) m impacts (pr_guess env) (pr_newton env) opp))"
proof (cases "is_congested m (si_router (ev_swap_info ev)) 3")
  case False
  with assms obtain impacts m1 tasks m2 where p:
    "project_reserve_impact_v2 (ev_mempool_tx ev) (ev_swap_info ev) m = Some impacts"
    "skew_check skewed now ev m d = Some (m1, d')"
    "exec_fold (run_task env now (de_config d) impacts ev (de_graph d)) tasks ([], m1, found) = Some (opps, m2, found')"
    by (auto simp: process_event_def split: bind_splits)
  let ?I = "\<lambda>(os, mm, k :: u64). same_pools m mm \<and> (\<forall>opp \<in> set os.
    sound_opportunity (dc_min_profit_wei (de_config d)) m impacts (pr_guess env) (pr_newton env) opp)"
  have m1: "same_pools m m1"
    using p(2) get_pool_data_same [of m now "si_router (ev_swap_info ev)"]
    by (auto simp: skew_check_def Let_def split: if_splits prod.splits option.splits bind_splits)
  have "?I (opps, m2, found')"
  proof (rule exec_fold_inv [OF p(3)])
    show "?I ([], m1, found)" using m1 by simp
    fix task st st' assume I: "?I st" and run: "run_task env now (de_config d) impacts ev (de_graph d) task st = Some st'"
    obtain s c e where task: "task = (s, c, e)" by (cases task)
    obtain os mm k where st: "st = (os, mm, k)" by (cases st)
    from run obtain paths new m3 k3 where r:
      "branch_paths (de_graph d) mm (si_router (ev_swap_info ev)) s c (unat (dc_max_path_length (de_config d))) e = Some paths"
      "price_paths env now (de_config d) impacts ev paths (mm, k) = Some (new, m3, k3)" "st' = (os @ new, m3, k3)"
      by (auto simp: run_task_def task st split: bind_splits)
    have "\<forall>hops \<in> set paths. hops \<noteq> [] \<and> (\<forall>h \<in> set hops. named_type h)"
      using branch_paths_named [OF r(1)] by blast
    from price_paths_sound [OF r(2) this] I show "?I st'"
      by (auto simp: st r(3) intro: same_pools_trans sound_opportunity_same)
  qed
  with p(1) show ?thesis by auto
qed (use assms in \<open>simp add: process_event_def\<close>)

lemma price_path_pos:
  assumes "price_path guess newton hops states = Some (inp, profit)" and "0 < profit"
  shows "\<exists>out. get_path_output_with_states guess hops inp states = Some out \<and> inp < out \<and> profit = out - inp"
proof (cases "\<exists>h \<in> set hops. hop_dex_name h = NameAerodrome")
  case True
  with assms(1) obtain out where "get_path_output_with_states guess hops inp states = Some out"
    "profit = sat_sub out inp" by (auto simp: price_path_def split: bind_splits)
  with assms(2) sat_sub_pos [of out inp] show ?thesis by (auto simp: word_less_def)
next
  case False
  with price_path_golden [OF _ assms] show ?thesis by blast
qed

text \<open>A small market for the witnesses: one Aerodrome pool between two tokens.\<close>

definition small_market :: detector where
  "small_market = (detector_new default_detector_config)\<lparr>de_graph := two_tokens
     \<lparr>sg_edges := [\<lparr>se_pool_idx = 0, se_target_token_idx = 1, se_dex_name = NameAerodrome\<rparr>,
                   \<lparr>se_pool_idx = 0, se_target_token_idx = 0, se_dex_name = NameAerodrome\<rparr>]\<rparr>\<rparr>"

definition small_mirror :: mirror where
  "small_mirror = update_pool 5 ((default_pool_state 0)\<lparr>ps_reserves0 := 10 ^ 9, ps_reserves1 := 10 ^ 6\<rparr>)
     (mirror_new None None)"

definition small_event :: swap_event where
  "small_event = (trigger_event 0 1 5)\<lparr>ev_swap_info :=
     (ev_swap_info (trigger_event 0 1 5))\<lparr>si_token_in := 10, si_token_out := 20\<rparr>\<rparr>"

definition small_env :: pricing_env where
  "small_env = \<lparr>pr_guess = (\<lambda>x a b. b), pr_newton = (\<lambda>hops states. Some 1000), pr_hasher = (\<lambda>xs. 0)\<rparr>"

lemma small_lookup:
  "DAList.lookup (sm_pools small_mirror) 5 = Some ((default_pool_state 0)\<lparr>ps_reserves0 := 10 ^ 9, ps_reserves1 := 10 ^ 6\<rparr>)"
  by (simp add: small_mirror_def update_pool_def dm_lookups)

lemma small_start:
  "\<not> is_congested small_mirror a 3"
  "project_reserve_impact_v2 (ev_mempool_tx small_event) (ev_swap_info small_event) small_mirror = Some Map.empty"
  "skew_check (\<lambda>a b. Some False) 0 small_event small_mirror small_market = Some (small_mirror, small_market)"
  "search_directions (de_pool_registry small_market) (ev_swap_info small_event) = [(10, 20), (20, 10)]"
  by (simp_all add: is_congested_def get_competition_score_def small_mirror_def update_pool_def mirror_new_def
        load_state_checkpoint_def small_event_def trigger_event_def project_reserve_impact_v2_def
        skew_check_def is_ai_swap_def is_ai_token_def TOKEN_VIRTUAL_def TOKEN_LUNA_def TOKEN_AI16Z_def search_directions_def)

abbreviation small_edge :: "u32 \<Rightarrow> static_edge" where
  "small_edge t \<equiv> \<lparr>se_pool_idx = 0, se_target_token_idx = t, se_dex_name = NameAerodrome\<rparr>"

lemma small_tasks:
  "direction_tasks (de_graph small_market) (10, 20) = Some [(0, 1, small_edge 0)]"
  "direction_tasks (de_graph small_market) (20, 10) = Some [(1, 0, small_edge 1)]"
  by (simp_all add: direction_tasks_def small_market_def two_tokens_def index_def upt_conv_Cons)

definition small_hop :: "bool \<Rightarrow> hop" where
  "small_hop zfo = \<lparr>hop_pool = 5, hop_pool_address = 5, hop_pool_address_label = None,
           hop_token_in = (if zfo then 10 else 20), hop_token_out = (if zfo then 20 else 10),
           hop_dex_type = Aerodrome, hop_dex_name = NameAerodrome,
           hop_zero_for_one = zfo, hop_is_stable = False,
           hop_fee = None, hop_static_calldata = [], hop_gas_cost = 0, hop_id = replicate 32 0,
           hop_success_prob = 0\<rparr>"

lemma small_paths:
  "DAList.lookup (sm_pools m) 5 = Some p \<Longrightarrow> \<not> ps_is_stable p \<Longrightarrow>
    branch_paths (de_graph small_market) m 5 0 1 6 (small_edge 0) = Some [[small_hop False]]"
  "DAList.lookup (sm_pools m) 5 = Some p \<Longrightarrow> \<not> ps_is_stable p \<Longrightarrow>
    branch_paths (de_graph small_market) m 5 1 0 6 (small_edge 1) = Some [[small_hop True]]"
  by (simp_all add: branch_paths_def small_market_def two_tokens_def visit_eq edge_hop_def index_def
      small_hop_def dex_type_of_name_def mirror_is_stable_def word_less_nat_alt)

lemma small_price:
  "price_path (\<lambda>x a b. b) (\<lambda>hops states. Some 1000) [small_hop False]
     [(default_pool_state 0)\<lparr>ps_reserves0 := 10 ^ 9, ps_reserves1 := 10 ^ 6, ps_last_access_ts := t\<rparr>] = Some (1000, 995006)"
  "price_path (\<lambda>x a b. b) (\<lambda>hops states. Some 1000) [small_hop True]
     [(default_pool_state 0)\<lparr>ps_reserves0 := 10 ^ 9, ps_reserves1 := 10 ^ 6, ps_last_access_ts := t\<rparr>] = Some (1000, 0)"
  by (simp_all add: price_path_def small_hop_def hop_output_def get_aerodrome_output_def default_pool_state_def
     get_v2_output_def u512_to_u256_safe_def sat_sub_def)

lemma small_fetch:
  assumes "DAList.lookup (sm_pools m) 5 = Some ((default_pool_state 0)\<lparr>ps_reserves0 := 10 ^ 9, ps_reserves1 := 10 ^ 6\<rparr>)"
  obtains m' where "fetch_states 0 Map.empty [small_hop b] m =
      ([(default_pool_state 0)\<lparr>ps_reserves0 := 10 ^ 9, ps_reserves1 := 10 ^ 6, ps_last_access_ts := 0\<rparr>], m')"
    "DAList.lookup (sm_pools m') 5 = Some ((default_pool_state 0)\<lparr>ps_reserves0 := 10 ^ 9, ps_reserves1 := 10 ^ 6\<rparr>)"
  using assms that
  by (auto simp: get_pool_data_def small_hop_def dm_lookups with_impact_def Let_def default_pool_state_def)

lemma small_run:
  obtains opp m' where "process_event small_env (\<lambda>a b. Some False) 0 small_event small_market small_mirror 0 =
     Some ([opp], small_market, m', 1)" "path_hops (op_path opp) = [small_hop False]"
proof -
  obtain m1 where m1: "fetch_states 0 Map.empty [small_hop False] small_mirror =
      ([(default_pool_state 0)\<lparr>ps_reserves0 := 10 ^ 9, ps_reserves1 := 10 ^ 6, ps_last_access_ts := 0\<rparr>], m1)"
    "DAList.lookup (sm_pools m1) 5 = Some ((default_pool_state 0)\<lparr>ps_reserves0 := 10 ^ 9, ps_reserves1 := 10 ^ 6\<rparr>)"
    using small_fetch [OF small_lookup] by metis
  obtain m2 where m2: "fetch_states 0 Map.empty [small_hop True] m1 =
      ([(default_pool_state 0)\<lparr>ps_reserves0 := 10 ^ 9, ps_reserves1 := 10 ^ 6, ps_last_access_ts := 0\<rparr>], m2)"
    using small_fetch [OF m1(2)] by metis
  have cfg: "dc_min_profit_wei (de_config small_market) = 1" "unat (dc_max_path_length (de_config small_market)) = 6"
    by (simp_all add: small_market_def detector_new_def default_detector_config_def MAX_HOPS_def)
  have router: "si_router (ev_swap_info small_event) = 5" by (simp add: small_event_def trigger_event_def)
  note paths = small_paths(1) [OF small_lookup] small_paths(2) [OF m1(2)]
  have stable: "\<not> ps_is_stable ((default_pool_state 0)\<lparr>ps_reserves0 := 10 ^ 9, ps_reserves1 := 10 ^ 6\<rparr>)"
    by (simp add: default_pool_state_def)
  have env: "pr_guess small_env = (\<lambda>x a b. b)" "pr_newton small_env = (\<lambda>hops states. Some 1000)"
    by (simp_all add: small_env_def)
  have ev: "ev_mempool_tx small_event = None" "ev_sender small_event = 0"
    "dc_chain (de_config small_market) = Base" "hop_token_in (small_hop False) = 20"
    by (simp_all add: small_event_def trigger_event_def small_market_def detector_new_def default_detector_config_def small_hop_def)
  let ?opp = "new_opportunity 1 (path_new (pr_hasher small_env) [small_hop False] 200000) 995006 20 1000 [] Base 0"
  have task1: "run_task small_env 0 (de_config small_market) Map.empty small_event (de_graph small_market)
      (0, 1, small_edge 0) ([], small_mirror, 0) = Some ([?opp], m1, 1)"
    using paths(1) [OF stable] m1(1) small_price(1) [of 0]
    by (simp add: run_task_def router cfg env ev index_def word_less_nat_alt del: fetch_states.simps)
  have task2: "run_task small_env 0 (de_config small_market) Map.empty small_event (de_graph small_market)
      (1, 0, small_edge 1) ([?opp], m1, 1) = Some ([?opp], m2, 1)"
    using paths(2) [OF stable] m2 small_price(2) [of 0]
    by (simp add: run_task_def router cfg env index_def del: fetch_states.simps)
  have "process_event small_env (\<lambda>a b. Some False) 0 small_event small_market small_mirror 0 =
      Some ([?opp], small_market, m2, 1)"
    by (simp add: process_event_def small_start small_tasks task1 task2)
  moreover have "path_hops (op_path ?opp) = [small_hop False]" by (simp add: new_opportunity_def path_new_def)
  ultimately show thesis by (rule that)
qed

section \<open>Properties\<close>

text \<open>C6 What a reported profit is. Whatever the graph, the mirror and the event, every opportunity
  the detector reports carries an input and a profit such that following its hops on the mirrored
  pools, with the projected impact of the pending swap, turns the input into exactly input plus
  profit, without wrap-around and with a profit above the configured minimum; without Aerodrome
  pools the input is also inside the searched range.\<close>

theorem opportunity_profit_exact:
  assumes "process_event env skewed now ev d m found = Some (opps, d', m', found')" and "opp \<in> set opps"
  shows "\<exists>impacts states out.
    project_reserve_impact_v2 (ev_mempool_tx ev) (ev_swap_info ev) m = Some impacts \<and>
    list_all2 (priced_state m impacts) (path_hops (op_path opp)) states \<and>
    get_path_output_with_states (pr_guess env) (path_hops (op_path opp)) (op_input_amount opp) states = Some out \<and>
    op_input_amount opp < out \<and> op_expected_profit opp = out - op_input_amount opp \<and>
    dc_min_profit_wei (de_config d) < op_expected_profit opp \<and>
    ((\<forall>h \<in> set (path_hops (op_path opp)). hop_dex_name h \<noteq> NameAerodrome) \<longrightarrow>
       10 ^ 15 \<le> op_input_amount opp \<and> op_input_amount opp \<le> 10 ^ 20)"
proof -
  from process_event_sound [OF assms(1)] assms(2) obtain impacts where i:
    "project_reserve_impact_v2 (ev_mempool_tx ev) (ev_swap_info ev) m = Some impacts"
    "sound_opportunity (dc_min_profit_wei (de_config d)) m impacts (pr_guess env) (pr_newton env) opp" by force
  then obtain states where s: "list_all2 (priced_state m impacts) (path_hops (op_path opp)) states"
    "price_path (pr_guess env) (pr_newton env) (path_hops (op_path opp)) states = Some (op_input_amount opp, op_expected_profit opp)"
    "dc_min_profit_wei (de_config d) < op_expected_profit opp"
    by (auto simp: sound_opportunity_def Let_def)
  have pos: "0 < op_expected_profit opp" using s(3) by (metis word_gt_0 word_not_simps(1))
  show ?thesis
    using i(1) s price_path_pos [OF s(2) pos] price_path_golden [OF _ s(2) pos] by auto
qed

theorem opportunity_profit_exact_witness:
  "\<exists>opp m' out. process_event small_env (\<lambda>a b. Some False) 0 small_event small_market small_mirror 0 =
     Some ([opp], small_market, m', 1) \<and> op_expected_profit opp = out - op_input_amount opp \<and> op_input_amount opp < out"
proof (rule small_run)
  fix opp m'
  assume run: "process_event small_env (\<lambda>a b. Some False) 0 small_event small_market small_mirror 0 =
     Some ([opp], small_market, m', 1)"
  show ?thesis using opportunity_profit_exact [OF run, of opp] run by auto
qed

text \<open>Pools of concentrated liquidity are never traded: although they are put into the graph
  and searched, no reported opportunity contains a Uniswap V3 hop, because the path pricing
  values every such hop at zero.\<close>

theorem v3_pools_never_traded:
  assumes "process_event env skewed now ev d m found = Some (opps, d', m', found')" and "opp \<in> set opps"
    and "h \<in> set (path_hops (op_path opp))"
  shows "hop_dex_name h \<noteq> NameUniswapV3"
proof
  assume v3: "hop_dex_name h = NameUniswapV3"
  from process_event_sound [OF assms(1)] assms(2) obtain impacts where
    i: "sound_opportunity (dc_min_profit_wei (de_config d)) m impacts (pr_guess env) (pr_newton env) opp" by force
  then have "named_type h" using assms(3) by (auto simp: sound_opportunity_def Let_def)
  then have "hop_dex_type h \<notin> {UniswapV2, Aerodrome}" by (simp add: named_type_def v3 dex_type_of_name_def)
  with i price_path_unpriced [OF _ assms(3)] have "op_expected_profit opp = 0" "dc_min_profit_wei (de_config d) < op_expected_profit opp"
    by (auto simp: sound_opportunity_def Let_def)
  then show False by simp
qed

theorem v3_pools_never_traded_witness:
  "\<exists>opp m'. process_event small_env (\<lambda>a b. Some False) 0 small_event small_market small_mirror 0 =
     Some ([opp], small_market, m', 1) \<and> hop_dex_name (hd (path_hops (op_path opp))) \<noteq> NameUniswapV3"
proof (rule small_run)
  fix opp m'
  assume run: "process_event small_env (\<lambda>a b. Some False) 0 small_event small_market small_mirror 0 =
     Some ([opp], small_market, m', 1)" and hops: "path_hops (op_path opp) = [small_hop False]"
  show ?thesis using v3_pools_never_traded [OF run, of opp "small_hop False"] run hops by auto
qed

end
