(* ===== verification/Simulator.thy ===== *)
theory Simulator
  imports State_Mirror "HOL-Library.Sublist"
begin

text \<open>
  The simulator (\<open>src/state_simulator.rs\<close>): the transactions it builds, the order it runs them
  in, and what it concludes. The virtual machine is a parameter, the operations of a database of
  type \<open>'e\<close>; so are the random addresses and the text of an address.
\<close>

section \<open>The virtual machine as a parameter\<close>

datatype spec_id = CANCUN | DefaultSpec

record evm_tx =
  et_caller :: address
  et_transact_to :: address
  et_data :: bytes
  et_gas_limit :: u64

text \<open>The environment of a transaction: no value, no gas price, no gas limit by default.\<close>

definition default_tx :: "address \<Rightarrow> address \<Rightarrow> bytes \<Rightarrow> evm_tx" where
  "default_tx caller transact_to data =
     \<lparr>et_caller = caller, et_transact_to = transact_to, et_data = data, et_gas_limit = - 1\<rparr>"

datatype exec_result = ExecSuccess u64 bytes | ExecOther

definition is_success :: "exec_result \<Rightarrow> bool" where
  "is_success r = (case r of ExecSuccess _ _ \<Rightarrow> True | ExecOther \<Rightarrow> False)"

type_synonym access_list = "(address \<times> u256 list) list"

text \<open>\<open>ev_open\<close> is the cached database over the mirror, \<open>ev_set_account\<close> inserts an account with a
  balance, \<open>ev_load\<close> reads a balance, or fails; \<open>ev_transact\<close> gives the result, the touched
  accounts and the database after a commit.\<close>

record 'e sim_env =
  ev_open :: "spec_id \<Rightarrow> mirror \<Rightarrow> 'e"
  ev_set_account :: "address \<Rightarrow> u256 \<Rightarrow> 'e \<Rightarrow> 'e"
  ev_load :: "address \<Rightarrow> 'e \<Rightarrow> u256 option"
  ev_transact :: "evm_tx \<Rightarrow> 'e \<Rightarrow> string + exec_result \<times> access_list \<times> 'e"
  rn_trigger :: "nat \<Rightarrow> address"
  rn_noise_to :: "nat \<Rightarrow> nat \<Rightarrow> address"
  rn_noise_caller :: "nat \<Rightarrow> nat \<Rightarrow> address"
  rn_executor :: address
  rn_recipient :: address
  fmt_address :: "address \<Rightarrow> string"

definition commit_quietly :: "'e sim_env \<Rightarrow> evm_tx \<Rightarrow> 'e \<Rightarrow> 'e" where
  "commit_quietly env tx e = (case ev_transact env tx e of Inl _ \<Rightarrow> e | Inr (_, _, e') \<Rightarrow> e')"

definition balance_or_zero :: "'e sim_env \<Rightarrow> address \<Rightarrow> 'e \<Rightarrow> u256" where
  "balance_or_zero env a e = (case ev_load env a e of Some b \<Rightarrow> b | None \<Rightarrow> 0)"

text \<open>The \<open>?\<close> operator of a computation that may also panic.\<close>

definition and_try :: "('x + 'a) exec \<Rightarrow> ('a \<Rightarrow> ('x + 'b) exec) \<Rightarrow> ('x + 'b) exec" where
  "and_try r f = (case r of None \<Rightarrow> None | Some (Inl x) \<Rightarrow> Some (Inl x) | Some (Inr a) \<Rightarrow> f a)"

section \<open>Branches and noise\<close>

datatype simulation_branch = Top | Mid | Tail

record sim_result =
  sr_profit :: u256
  sr_gas_used :: u64
  sr_branch :: simulation_branch
  sr_success :: bool
  sr_access_list :: access_list

text \<open>\<open>dst.copy_from_slice(src)\<close> returns the new contents of \<open>dst\<close> and panics on different
  lengths. The source is not changed.\<close>

definition copy_from_slice :: "bytes \<Rightarrow> bytes \<Rightarrow> bytes exec" where
  "copy_from_slice dst src = (if length dst = length src then Some src else None)"

definition zeros :: "nat \<Rightarrow> bytes" where
  "zeros n = replicate n 0"

definition noise_intensity :: "simulation_branch \<Rightarrow> nat" where
  "noise_intensity b = (case b of Top \<Rightarrow> 0 | Mid \<Rightarrow> 3 | Tail \<Rightarrow> 8)"

definition MAX_NOISE_LIMIT :: u256 where
  "MAX_NOISE_LIMIT = 0x3ffffffffffffffffffffffffffffffffffffffffffffffffff"

definition noise_v3_data :: "nat \<Rightarrow> address \<Rightarrow> bytes" where
  "noise_v3_data i recipient =
     (let zfo = (if i mod 3 = 0 then 1 else 0);
          amount = (ucast ((10 :: u128) ^ 17 * (of_nat (i mod 20) + 5)) :: u256);
          sqrt_limit = (if zfo = 1 then 4295128739 + 1 else MAX_NOISE_LIMIT)
      in [0x12, 0x8a, 0xa6, 0x9d] @ zeros 12 @ to_be_bytes recipient @ zeros 31 @ [zfo] @
         to_be_bytes amount @ to_be_bytes sqrt_limit @ zeros 31 @ [0xa0] @ zeros 32)"

definition noise_v2_data :: "nat \<Rightarrow> address \<Rightarrow> bytes exec" where
  "noise_v2_data i to = do {
     let amount_out = (ucast ((10 :: u128) ^ 18 * (of_nat (i mod 10) + 1)) :: u256);
     let b = zeros 32;
     _ \<leftarrow> copy_from_slice (to_be_bytes amount_out) b;
     Some ([0x02, 0x2c, 0x0d, 0x9f] @
       (if i mod 2 = 0 then b @ zeros 32 else zeros 32 @ b) @ zeros 12 @ to_be_bytes to @ zeros 64)
   }"

definition noise_data :: "nat \<Rightarrow> address \<Rightarrow> bytes exec" where
  "noise_data i to = (if i mod 2 = 0 then Some (noise_v3_data i to) else noise_v2_data i to)"

definition noise_tx :: "'e sim_env \<Rightarrow> nat \<Rightarrow> nat \<Rightarrow> hop \<Rightarrow> evm_tx exec" where
  "noise_tx env i j h = do {
     data \<leftarrow> noise_data i (rn_noise_to env i j);
     Some (default_tx (rn_noise_caller env i j) (hop_pool_address h) data\<lparr>et_gas_limit := 350000\<rparr>)
   }"

fun noise_round :: "'e sim_env \<Rightarrow> nat \<Rightarrow> nat \<Rightarrow> hop list \<Rightarrow> 'e \<Rightarrow> 'e exec" where
  "noise_round env i j [] e = Some e"
| "noise_round env i j (h # hs) e = do {
     tx \<leftarrow> noise_tx env i j h;
     noise_round env i (j + 1) hs (commit_quietly env tx e)
   }"

fun noise_rounds :: "'e sim_env \<Rightarrow> hop list \<Rightarrow> nat list \<Rightarrow> 'e \<Rightarrow> 'e exec" where
  "noise_rounds env hops [] e = Some e"
| "noise_rounds env hops (i # ks) e = do {
     e \<leftarrow> noise_round env i 0 hops e;
     noise_rounds env hops ks e
   }"

definition inject_noise_transactions :: "'e sim_env \<Rightarrow> opportunity \<Rightarrow> simulation_branch \<Rightarrow> 'e \<Rightarrow> 'e exec" where
  "inject_noise_transactions env opp branch e =
     noise_rounds env (path_hops (op_path opp)) [0..<noise_intensity branch] e"

section \<open>The strategy run\<close>

fun inject_triggers :: "'e sim_env \<Rightarrow> nat \<Rightarrow> mempool_tx list \<Rightarrow> 'e \<Rightarrow> 'e" where
  "inject_triggers env k [] e = e"
| "inject_triggers env k (tx # txs) e =
     (let to = (case tx_to tx of Some a \<Rightarrow> a | None \<Rightarrow> 0)
      in inject_triggers env (k + 1) txs (commit_quietly env (default_tx (rn_trigger env k) to (tx_data tx)) e))"

text \<open>The database before the noise: the caller with one ether for gas, the target account, the
  trigger transactions.\<close>

definition ONE_ETHER :: u256 where "ONE_ETHER = 10 ^ 18"

definition strategy_start :: "'e sim_env \<Rightarrow> mirror \<Rightarrow> opportunity \<Rightarrow> address \<Rightarrow> address \<Rightarrow> 'e" where
  "strategy_start env sm opp target_contract caller_eoa =
     (let e = ev_set_account env caller_eoa ONE_ETHER (ev_open env CANCUN sm);
          e = (case ev_load env target_contract e of
                 None \<Rightarrow> ev_set_account env target_contract 0 e | Some _ \<Rightarrow> e)
      in inject_triggers env 0 (op_pending_txs opp) e)"

text \<open>The arbitrage itself, from the measured balance on.\<close>

definition run_arbitrage ::
  "'e sim_env \<Rightarrow> bytes \<Rightarrow> address \<Rightarrow> simulation_branch \<Rightarrow> address \<Rightarrow> 'e \<Rightarrow> mev_error + sim_result" where
  "run_arbitrage env arb_data target_contract branch caller_eoa e =
     (let bal_before = balance_or_zero env target_contract e
      in case ev_transact env (default_tx caller_eoa target_contract arb_data\<lparr>et_gas_limit := SIMULATION_GAS_LIMIT\<rparr>) e of
           Inl msg \<Rightarrow> Inl (SimulationFailed msg)
         | Inr (res, touched, e') \<Rightarrow>
             let al = filter (\<lambda>(a, _). \<not> (a = 0 \<or> a = caller_eoa)) touched;
                 bal_after = balance_or_zero env target_contract e';
                 (success, gas_used) = (case res of ExecSuccess g _ \<Rightarrow> (True, g) | ExecOther \<Rightarrow> (False, 0))
             in Inr \<lparr>sr_profit = sat_sub bal_after bal_before, sr_gas_used = gas_used, sr_branch = branch,
                     sr_success = success, sr_access_list = al\<rparr>)"

definition simulate_strategy ::
  "'e sim_env \<Rightarrow> mirror \<Rightarrow> opportunity \<Rightarrow> bytes \<Rightarrow> address \<Rightarrow> simulation_branch \<Rightarrow> address \<Rightarrow> (mev_error + sim_result) exec" where
  "simulate_strategy env sm opp arb_data target_contract branch caller_eoa = do {
     e \<leftarrow> inject_noise_transactions env opp branch (strategy_start env sm opp target_contract caller_eoa);
     Some (run_arbitrage env arb_data target_contract branch caller_eoa e)
   }"

fun run_branches :: "(simulation_branch \<Rightarrow> (mev_error + sim_result) exec) \<Rightarrow> simulation_branch list \<Rightarrow> sim_result list exec" where
  "run_branches sim [] = Some []"
| "run_branches sim (b # bs) = do {
     r \<leftarrow> sim b;
     rs \<leftarrow> run_branches sim bs;
     Some (case r of Inr res \<Rightarrow> res # rs | Inl _ \<Rightarrow> rs)
   }"

definition run_branch_simulation ::
  "'e sim_env \<Rightarrow> mirror \<Rightarrow> opportunity \<Rightarrow> bytes \<Rightarrow> address \<Rightarrow> address \<Rightarrow> sim_result list exec" where
  "run_branch_simulation env sm opp data target_contract caller_eoa =
     run_branches (\<lambda>b. simulate_strategy env sm opp data target_contract b caller_eoa) [Top, Mid, Tail]"

definition simulate_multiverse ::
  "'e sim_env \<Rightarrow> mirror \<Rightarrow> opportunity \<Rightarrow> bytes \<Rightarrow> address \<Rightarrow> address \<Rightarrow> (mev_error + u256 \<times> u64 \<times> bool) exec" where
  "simulate_multiverse env sm opp arb_data target_contract caller_eoa =
     and_try (simulate_strategy env sm opp arb_data target_contract Top caller_eoa)
       (\<lambda>r. Some (Inr (sr_profit r, sr_gas_used r, sr_success r)))"

section \<open>Traps\<close>

definition honeypot :: "string \<Rightarrow> (mev_error + 'a) exec" where
  "honeypot msg = Some (Inl (HoneypotDetected msg))"

definition detect_wash_trap :: "'e sim_env \<Rightarrow> mirror \<Rightarrow> address \<Rightarrow> mev_error + unit" where
  "detect_wash_trap env sm pool =
     (case DAList.lookup (sm_trader_registry sm) pool of
        None \<Rightarrow> Inr ()
      | Some traders \<Rightarrow>
          let unique_count = card traders in
          if unique_count > 0 \<and> unique_count < unat MIN_UNIQUE_TRADERS
          then Inl (HoneypotDetected (''WASH_TRAP: Pool '' @ fmt_address env pool @ '' has only '' @
            decimal unique_count @ '' unique traders''))
          else Inr ())"

text \<open>The scan, byte by byte, with the two flags of its sequence detector.\<close>

fun xray_loop :: "nat \<Rightarrow> bool \<Rightarrow> bool \<Rightarrow> bytes \<Rightarrow> mev_error + unit" where
  "xray_loop code_len has_caller has_sload [] = Inr ()"
| "xray_loop code_len has_caller has_sload (opcode # code) =
     (if opcode = 0xff then Inl (HoneypotDetected ''XRAY: SELFDESTRUCT pattern found'')
      else if opcode = 0xf4 \<and> code_len < 5000
      then Inl (HoneypotDetected ''XRAY: Suspicious DELEGATECALL in small contract'')
      else
        let has_caller = has_caller \<or> opcode = 0x33;
            has_sload = has_sload \<or> (has_caller \<and> opcode = 0x54)
        in if has_sload \<and> (opcode = 0xfd \<or> opcode = 0xfe) \<and> code_len < 4000
           then Inl (HoneypotDetected ''XRAY: Hidden Blacklist/Jail pattern detected'')
           else if opcode = 0x32 \<and> code_len < 3000
           then Inl (HoneypotDetected ''XRAY: Origin-dependent logic trap'')
           else xray_loop code_len has_caller has_sload code)"

definition xray_scan_bytecode :: "mirror \<Rightarrow> address \<Rightarrow> mev_error + unit" where
  "xray_scan_bytecode sm token =
     (case get_bytecode sm token of
        None \<Rightarrow> Inr ()
      | Some code \<Rightarrow> xray_loop (length code) False False code)"

definition transfer_data :: "address \<Rightarrow> u256 \<Rightarrow> bytes exec" where
  "transfer_data to amount = do {
     let amt_bytes = zeros 32;
     _ \<leftarrow> copy_from_slice (to_be_bytes amount) amt_bytes;
     Some ([0xa9, 0x05, 0x9c, 0xbb] @ zeros 12 @ to_be_bytes to @ amt_bytes)
   }"

definition simulate_transfer ::
  "'e sim_env \<Rightarrow> address \<Rightarrow> address \<Rightarrow> address \<Rightarrow> u256 \<Rightarrow> 'e \<Rightarrow> (mev_error + exec_result \<times> 'e) exec" where
  "simulate_transfer env token src dst amount e = do {
     data \<leftarrow> transfer_data dst amount;
     Some (case ev_transact env (default_tx src token data) e of
         Inl msg \<Rightarrow> Inl (SimulationFailed msg)
       | Inr (res, _, e') \<Rightarrow> Inr (res, e'))
   }"

definition balance_of_data :: "address \<Rightarrow> bytes" where
  "balance_of_data account = [0x70, 0xa0, 0x82, 0x31] @ zeros 12 @ to_be_bytes account"

text \<open>\<open>from_be_slice\<close> panics on more than 32 bytes.\<close>

definition from_be_slice :: "bytes \<Rightarrow> u256 exec" where
  "from_be_slice bs = (if length bs > 32 then None else Some (from_be_bytes bs))"

definition get_erc20_balance :: "'e sim_env \<Rightarrow> address \<Rightarrow> address \<Rightarrow> 'e \<Rightarrow> (mev_error + u256) exec" where
  "get_erc20_balance env token account e =
     (case ev_transact env (default_tx account token (balance_of_data account)) e of
        Inl msg \<Rightarrow> Some (Inl (SimulationFailed msg))
      | Inr (ExecSuccess _ output, _, _) \<Rightarrow> map_option Inr (from_be_slice output)
      | Inr (ExecOther, _, _) \<Rightarrow> Some (Inr 0))"


section \<open>The honeypot check\<close>

definition is_ai_tax_token :: "address \<Rightarrow> bool" where
  "is_ai_tax_token token \<longleftrightarrow> token = TOKEN_VIRTUAL \<or> token = TOKEN_LUNA \<or> token = TOKEN_AI16Z"

text \<open>Step 3: the tax of a transfer from the executor to a third account.\<close>

definition tax_check :: "'e sim_env \<Rightarrow> address \<Rightarrow> address \<Rightarrow> u256 \<Rightarrow> 'e \<Rightarrow> (mev_error + u64) exec" where
  "tax_check env token pool amount e =
     and_try (simulate_transfer env token pool (rn_executor env) amount e) (\<lambda>(_, e).
     and_try (simulate_transfer env token (rn_executor env) (rn_recipient env) amount e) (\<lambda>(tax_res, e).
     if \<not> is_success tax_res then Some (Inr 0)
     else and_try (get_erc20_balance env token (rn_recipient env) e) (\<lambda>received. do {
       tax_bps \<leftarrow> u_div (sat_sub amount received * 10000) (max amount 1);
       tax_u64 \<leftarrow> narrow tax_bps;
       let max_tax = (if is_ai_tax_token token then MAX_AI_TAX_BPS else MAX_ALLOWED_TAX_BPS);
       if tax_u64 > max_tax
       then honeypot (''HIGH_TAX: '' @ decimal (unat tax_u64) @ '' BPS detected (Max: '' @ decimal (unat max_tax) @ '')'')
       else Some (Inr tax_u64)
     })))"

text \<open>Step 2: the sale back to the pool, which must raise the WETH balance of the executor.\<close>

definition sell_check :: "'e sim_env \<Rightarrow> address \<Rightarrow> address \<Rightarrow> u256 \<Rightarrow> u256 \<Rightarrow> 'e \<Rightarrow> (mev_error + u64) exec" where
  "sell_check env token pool amount balance_received e =
     and_try (get_erc20_balance env TOKEN_WETH (rn_executor env) e) (\<lambda>before.
     and_try (simulate_transfer env token (rn_executor env) pool balance_received e) (\<lambda>(sell_res, e).
     if \<not> is_success sell_res then honeypot ''SELL_FAILED: Token cannot be sold back to pool''
     else and_try (get_erc20_balance env TOKEN_WETH (rn_executor env) e) (\<lambda>after_sale.
     if after_sale \<le> before \<and> balance_received \<noteq> 0
     then honeypot ''LIQUIDATION_FAILED: Sell successful but no base asset received''
     else case sell_res of
       ExecSuccess gas_used _ \<Rightarrow>
         if gas_used > 150000
         then honeypot (''GAS_TRAP: Abnormal sell gas ('' @ decimal (unat gas_used) @ '')'')
         else tax_check env token pool amount e
     | ExecOther \<Rightarrow> tax_check env token pool amount e)))"

text \<open>Step 1: the purchase, the depth of the pool, the balance and the approval.\<close>

definition approve_data :: "address \<Rightarrow> bytes \<Rightarrow> bytes" where
  "approve_data spender amt_bytes = [0x09, 0x5e, 0xa7, 0xb3] @ zeros 12 @ to_be_bytes spender @ amt_bytes"

definition too_shallow :: "mirror \<Rightarrow> address \<Rightarrow> u256 \<Rightarrow> bool" where
  "too_shallow sm pool amount =
     (case DAList.lookup (sm_pools sm) pool of
        Some p \<Rightarrow> amount > max (ps_reserves0 p) (ps_reserves1 p) div 10
      | None \<Rightarrow> False)"

definition buy_check :: "'e sim_env \<Rightarrow> mirror \<Rightarrow> address \<Rightarrow> address \<Rightarrow> u256 \<Rightarrow> 'e \<Rightarrow> (mev_error + u64) exec" where
  "buy_check env sm token pool amount e = do {
     let amt_bytes = zeros 32;
     _ \<leftarrow> copy_from_slice (to_be_bytes amount) amt_bytes;
     and_try (simulate_transfer env token pool (rn_executor env) amount e) (\<lambda>(buy_res, e).
     if \<not> is_success buy_res then honeypot ''BUY_FAILED: Token cannot be moved from pool''
     else if too_shallow sm pool amount then honeypot ''LIQUIDITY_DEPTH_TOO_SHALLOW: High price impact risk''
     else and_try (get_erc20_balance env token (rn_executor env) e) (\<lambda>balance_received.
     if balance_received = 0 then honeypot ''GHOST_TOKEN: Reported success but zero balance''
     else case ev_transact env (default_tx (rn_executor env) token (approve_data (rn_recipient env) amt_bytes)) e of
       Inl msg \<Rightarrow> Some (Inl (SimulationFailed msg))
     | Inr (app_res, _, e) \<Rightarrow>
         if \<not> is_success app_res then honeypot ''APPROVE_FAILED: Token blocks approval logic''
         else sell_check env token pool amount balance_received e))
   }"

definition check_honeypot :: "'e sim_env \<Rightarrow> mirror \<Rightarrow> address \<Rightarrow> address \<Rightarrow> u256 \<Rightarrow> (mev_error + u64) exec" where
  "check_honeypot env sm token pool amount_in_wei =
     (if token \<in> CORE_TOKENS then Some (Inr 0)
      else if is_poisoned sm token \<or> is_poisoned sm pool
      then honeypot ''Static analysis flagged this pool/token''
      else and_try (Some (xray_scan_bytecode sm token)) (\<lambda>_.
        if (case BLACKLISTED_TOKENS Base of Some bl \<Rightarrow> token \<in> bl | None \<Rightarrow> False)
        then honeypot (''Token '' @ fmt_address env token @ '' is manually blacklisted'')
        else buy_check env sm token pool amount_in_wei
          (ev_set_account env (rn_executor env) ONE_ETHER (ev_open env DefaultSpec sm))))"

section \<open>Facts\<close>

named_theorems try_simps \<open>evaluating the \<open>?\<close> operator\<close>

lemma and_try_simps [try_simps]:
  "and_try None f = None" "and_try (Some (Inl x)) f = Some (Inl x)" "and_try (Some (Inr a)) f = f a"
  by (simp_all add: and_try_def)

lemma and_try_Some_Inr:
  "and_try r f = Some (Inr b) \<longleftrightarrow> (\<exists>a. r = Some (Inr a) \<and> f a = Some (Inr b))"
  by (auto simp: and_try_def split: option.splits sum.splits)

lemma honeypot_not_Inr [simp]: "honeypot msg \<noteq> Some (Inr a)" "honeypot msg \<noteq> None"
  by (simp_all add: honeypot_def)

lemma copy_from_slice_amount [simp]: "copy_from_slice (to_be_bytes (a :: u256)) (zeros 32) = Some (zeros 32)"
  by (simp add: copy_from_slice_def zeros_def)

text \<open>Whatever amount is asked for, the calldata carries amount zero.\<close>

lemma transfer_data_zero:
  "transfer_data to amount = Some ([0xa9, 0x05, 0x9c, 0xbb] @ zeros 12 @ to_be_bytes to @ zeros 32)"
  by (simp add: transfer_data_def Let_def)

text \<open>What the flags of the scan still wait for.\<close>

definition awaited :: "bool \<Rightarrow> bool \<Rightarrow> bytes" where
  "awaited has_caller has_sload = (if has_sload then [] else if has_caller then [0x54] else [0x33, 0x54])"

lemma awaited_step:
  assumes "r \<noteq> 0x33" and "r \<noteq> 0x54"
  shows "subseq (awaited c s @ [r]) (opcode # code) \<longleftrightarrow>
    subseq (awaited (c \<or> opcode = 0x33) (s \<or> ((c \<or> opcode = 0x33) \<and> opcode = 0x54)) @ [r]) code \<or>
    s \<and> opcode = r"
  using assms by (cases s; cases c; cases "opcode = 0x33"; cases "opcode = 0x54")
    (simp_all add: awaited_def subseq_Cons2_iff)

lemma xray_loop_iff:
  "xray_loop n c s code = Inr () \<longleftrightarrow>
     0xff \<notin> set code \<and> (n < 5000 \<longrightarrow> 0xf4 \<notin> set code) \<and> (n < 3000 \<longrightarrow> 0x32 \<notin> set code) \<and>
     (n < 4000 \<longrightarrow> \<not> subseq (awaited c s @ [0xfd]) code \<and> \<not> subseq (awaited c s @ [0xfe]) code)"
proof (induction code arbitrary: c s)
  case (Cons opcode code)
  let ?c = "c \<or> opcode = 0x33"
  let ?s = "s \<or> (?c \<and> opcode = 0x54)"
  have s: "?s \<and> (opcode = 0xfd \<or> opcode = 0xfe) \<longleftrightarrow> s \<and> (opcode = 0xfd \<or> opcode = 0xfe)" by auto
  have "xray_loop n c s (opcode # code) = Inr () \<longleftrightarrow>
      opcode \<noteq> 0xff \<and> (n < 5000 \<longrightarrow> opcode \<noteq> 0xf4) \<and> (n < 3000 \<longrightarrow> opcode \<noteq> 0x32) \<and>
      (n < 4000 \<longrightarrow> \<not> (s \<and> (opcode = 0xfd \<or> opcode = 0xfe))) \<and> xray_loop n ?c ?s code = Inr ()"
    unfolding s [symmetric] by (auto simp: Let_def simp del: not_less)
  then show ?case
    unfolding Cons.IH awaited_step [of "0xfd", simplified] awaited_step [of "0xfe", simplified] list.set
    by blast
qed (simp add: awaited_def)

end
