(* ===== verification/Bidding.thy ===== *)
theory Bidding
  imports State_Mirror
begin

text \<open>
  The bidding engine (\<open>src/bidding_engine.rs\<close>): the share of the profit offered to the builder
  and the priority fee. Instants are nanoseconds; the readings of the clock, the mirror and the
  floating-point comparison of two heat scores are arguments.
\<close>

section \<open>State\<close>

type_synonym instant = nat

text \<open>\<open>duration_since(..).as_secs()\<close> saturates at zero.\<close>

definition secs_since :: "instant \<Rightarrow> instant \<Rightarrow> nat" where
  "secs_since now earlier = (now - earlier) div 10 ^ 9"

record builder_stats =
  bs_builder_name :: string
  bs_avg_tip_percent :: u32
  bs_inclusion_rate :: u64

record bidder =
  be_stats :: "b256 \<rightharpoonup> builder_stats"
  be_default_bribe :: u32
  be_last_success :: "(instant \<times> u32) option"
  be_predator_hits :: u64
  be_predator_pressure :: u64
  be_wins :: u64
  be_losses :: u64
  be_consecutive_losses :: u64
  be_last_heat_score :: u64
  be_last_pressure_update :: instant
  be_competitor_history :: "(address, u64 \<times> u64) dmap"

definition bidder_new :: "instant \<Rightarrow> bidder" where
  "bidder_new now =
     \<lparr>be_stats = Map.empty, be_default_bribe = 50, be_last_success = None, be_predator_hits = 0,
      be_predator_pressure = 0, be_wins = 0, be_losses = 0, be_consecutive_losses = 0,
      be_last_heat_score = 0, be_last_pressure_update = now, be_competitor_history = DAList.empty\<rparr>"

section \<open>The bribe\<close>

definition is_predator_active :: "opportunity \<Rightarrow> bool" where
  "is_predator_active opp = (case op_trigger_sender opp of Some s \<Rightarrow> s \<in> KNOWN_COMPETITORS | None \<Rightarrow> False)"

definition decay_pressure :: "instant \<Rightarrow> bidder \<Rightarrow> bidder" where
  "decay_pressure now b =
     (if secs_since now (be_last_pressure_update b) > 60
      then b\<lparr>be_predator_pressure := sat_sub (be_predator_pressure b) 1, be_last_pressure_update := now\<rparr>
      else b)"

definition path_contains_ai :: "hop list \<Rightarrow> bool" where
  "path_contains_ai hops =
     list_ex (\<lambda>h. hop_token_in h = TOKEN_VIRTUAL \<or> hop_token_out h = TOKEN_VIRTUAL \<or>
       hop_token_in h = TOKEN_LUNA \<or> hop_token_out h = TOKEN_LUNA \<or>
       hop_token_in h = TOKEN_AI16Z \<or> hop_token_out h = TOKEN_AI16Z) hops"

definition predator_bribe :: "instant \<Rightarrow> opportunity \<Rightarrow> bidder \<Rightarrow> u32 \<times> bidder" where
  "predator_bribe now opp b =
     (let b = b\<lparr>be_predator_hits := be_predator_hits b + 1,
                be_predator_pressure := be_predator_pressure b + 1, be_last_pressure_update := now\<rparr>;
          frequent_winner =
            (case op_trigger_sender opp of
               Some s \<Rightarrow> (case DAList.lookup (be_competitor_history b) s of
                   Some (wins, losses) \<Rightarrow> wins > losses | None \<Rightarrow> False)
             | None \<Rightarrow> False)
      in (if frequent_winner then min 98 MAX_BRIBE_PCT else min 92 MAX_BRIBE_PCT, b))"

text \<open>The loop over the tiers, with its \<open>break\<close>.\<close>

fun tier_bribe :: "u128 \<Rightarrow> (u128 \<times> u64) list \<Rightarrow> u32 \<Rightarrow> u32" where
  "tier_bribe profit [] bribe_pct = bribe_pct"
| "tier_bribe profit ((threshold, pct) # tiers) bribe_pct =
     (if profit \<ge> threshold then tier_bribe profit tiers (ucast pct) else bribe_pct)"

definition streak_bribe :: "u64 \<Rightarrow> u32 \<Rightarrow> u32" where
  "streak_bribe loss_streak bribe_pct =
     (if loss_streak > 2 then min (bribe_pct + ucast loss_streak * 8) (MAX_BRIBE_PCT - 9) else bribe_pct)"

definition heat_of :: "u64 \<Rightarrow> u128 \<Rightarrow> u64" where
  "heat_of pressure base_fee = pressure * 15 + ucast (base_fee div 1000000000)"

definition recent_bribe :: "instant \<Rightarrow> bidder \<Rightarrow> u32 \<Rightarrow> u32" where
  "recent_bribe now b bribe_pct =
     (case be_last_success b of
        Some (ts, lb) \<Rightarrow> if secs_since now ts < 60 then (bribe_pct + lb) div 2 else bribe_pct
      | None \<Rightarrow> bribe_pct)"

text \<open>\<open>rises current prev\<close> is the float test \<open>current / prev - 1 > 0.15\<close>; \<open>now\<close> and \<open>later\<close> are
  the two readings of the clock.\<close>

definition calculate_bribe ::
  "(u64 \<Rightarrow> u64 \<Rightarrow> bool) \<Rightarrow> instant \<Rightarrow> instant \<Rightarrow> mirror \<Rightarrow> opportunity \<Rightarrow> bidder \<Rightarrow> (u32 \<times> bidder) exec" where
  "calculate_bribe rises now later sm opp b =
     (let b = decay_pressure now b in
      if path_contains_ai (path_hops (op_path opp)) then Some (min 95 MAX_BRIBE_PCT, b)
      else if is_predator_active opp then Some (predator_bribe now opp b)
      else do {
        profit_val \<leftarrow> narrow (op_expected_profit opp);
        if profit_val < MICRO_PROFIT_THRESHOLD_WEI then Some (5, b)
        else do {
          let bribe_pct = tier_bribe profit_val BIDDING_TIERS (be_default_bribe b);
          let loss_streak = be_consecutive_losses b;
          let bribe_pct = streak_bribe loss_streak bribe_pct;
          base_fee \<leftarrow> narrow (current_base_fee sm);
          let current_heat = heat_of (be_predator_pressure b) base_fee;
          let prev_heat = be_last_heat_score b;
          let b = b\<lparr>be_last_heat_score := current_heat\<rparr>;
          let bribe_pct = (if (prev_heat > 0 \<and> rises current_heat prev_heat) \<or> loss_streak > 5
                           then max bribe_pct 94 else bribe_pct);
          let bribe_pct = (if op_is_whale_trigger opp then min (bribe_pct + 10) MAX_BRIBE_PCT else bribe_pct);
          let bribe_pct = recent_bribe later b bribe_pct;
          Some (max (min bribe_pct MAX_BRIBE_PCT) 10, b)
        }
      })"

section \<open>The priority fee\<close>

definition is_mafia :: "bidder \<Rightarrow> bool" where
  "is_mafia b \<longleftrightarrow> be_last_heat_score b > 50 \<or> be_consecutive_losses b > 3"

definition overshoot_fee :: "opportunity \<Rightarrow> bidder \<Rightarrow> u256 \<Rightarrow> u256 exec" where
  "overshoot_fee opp b suggested =
     (case op_trigger_gas_price opp of
        None \<Rightarrow> Some suggested
      | Some comp_gas \<Rightarrow>
          let adjustment = (if is_mafia b then 4000000000 else 2000000000) in
          if op_chain opp = Base then do {
            let profit_limit_factor = (if is_mafia b then 1 else 2);
            max_allowed \<leftarrow> u_div (op_expected_profit opp) (max (op_gas_estimate opp) 1 * profit_limit_factor);
            Some (min (sat_add comp_gas adjustment) max_allowed)
          }
          else Some (sat_add comp_gas adjustment))"

definition suggest_priority_fee :: "mirror \<Rightarrow> opportunity \<Rightarrow> bidder \<Rightarrow> u256 \<Rightarrow> u256 exec" where
  "suggest_priority_fee sm opp b current_priority =
     (let base_fee = current_base_fee sm in
      if base_fee > 100000000 then Some 0
      else do {
        suggested \<leftarrow> overshoot_fee opp b current_priority;
        let congestion_multiplier = (if base_fee > 500000000 then 120 else 100);
        let suggested = (suggested * congestion_multiplier) div 100;
        if base_fee > 1000000000 \<and> op_chain opp = Base then Some 0
        else Some (max suggested (ucast MIN_BUILDER_TIP_WEI))
      })"

section \<open>Outcomes\<close>

definition count_outcome :: "address option \<Rightarrow> bool \<Rightarrow> (address, u64 \<times> u64) dmap \<Rightarrow> (address, u64 \<times> u64) dmap" where
  "count_outcome sender won history =
     (case sender of
        None \<Rightarrow> history
      | Some s \<Rightarrow>
          let (w, l) = (case DAList.lookup history s of Some st \<Rightarrow> st | None \<Rightarrow> (0, 0))
          in DAList.update s (if won then (w + 1, l) else (w, l + 1)) history)"

definition bid_record_success :: "instant \<Rightarrow> opportunity \<Rightarrow> u32 \<Rightarrow> bidder \<Rightarrow> bidder" where
  "bid_record_success now opp bribe_pct b =
     b\<lparr>be_wins := be_wins b + 1, be_consecutive_losses := 0,
       be_competitor_history := count_outcome (op_trigger_sender opp) True (be_competitor_history b),
       be_last_success := Some (now, bribe_pct)\<rparr>"

definition bid_record_failure :: "opportunity \<Rightarrow> bidder \<Rightarrow> bidder" where
  "bid_record_failure opp b =
     b\<lparr>be_losses := be_losses b + 1, be_consecutive_losses := be_consecutive_losses b + 1,
       be_competitor_history := count_outcome (op_trigger_sender opp) False (be_competitor_history b)\<rparr>"

definition reset_pressure :: "bidder \<Rightarrow> bidder" where
  "reset_pressure b = b\<lparr>be_predator_pressure := 0\<rparr>"

definition update_stats :: "(b256 \<rightharpoonup> builder_stats) \<Rightarrow> bidder \<Rightarrow> bidder" where
  "update_stats new_stats b = b\<lparr>be_stats := new_stats\<rparr>"

section \<open>Facts\<close>

text \<open>What the loop over the tiers computes: the percentage of the last tier in the leading run of
  tiers that the profit reaches.\<close>

lemma tier_bribe_run:
  "tier_bribe profit tiers d =
     last (d # map (\<lambda>(_, pct). ucast pct) (takeWhile (\<lambda>(t, _). t \<le> profit) tiers))"
  by (induction profit tiers d rule: tier_bribe.induct) auto

text \<open>The tiers of the program: the default is never used.\<close>

lemma program_tiers:
  "tier_bribe profit BIDDING_TIERS d =
     (if profit < 1000000000000000 then 5 else if profit < 10000000000000000 then 10
      else if profit < 100000000000000000 then 20 else if profit < 1000000000000000000 then 40 else 60)"
  by (auto simp: BIDDING_TIERS_def not_le not_less intro: less_le_trans)

lemma tier_bound: "tier_bribe profit BIDDING_TIERS d \<le> 60"
  by (simp add: program_tiers)

lemma decay_fields [simp]:
  "be_consecutive_losses (decay_pressure now b) = be_consecutive_losses b"
  "be_last_heat_score (decay_pressure now b) = be_last_heat_score b"
  "be_last_success (decay_pressure now b) = be_last_success b"
  "be_default_bribe (decay_pressure now b) = be_default_bribe b"
  "be_competitor_history (decay_pressure now b) = be_competitor_history b"
  by (simp_all add: decay_pressure_def)

lemma recent_bribe_cold: "be_last_success b = None \<Longrightarrow> recent_bribe now b pct = pct"
  by (simp add: recent_bribe_def)

text \<open>The record of a competitor after a series of outcomes against the same sender.\<close>

fun outcomes :: "instant \<Rightarrow> opportunity \<Rightarrow> bool list \<Rightarrow> bidder \<Rightarrow> bidder" where
  "outcomes now opp [] b = b"
| "outcomes now opp (won # ws) b =
     outcomes now opp ws (if won then bid_record_success now opp 50 b else bid_record_failure opp b)"

lemma outcomes_history:
  assumes "op_trigger_sender opp = Some s"
  shows "DAList.lookup (be_competitor_history (outcomes now opp ws b)) s =
    (case DAList.lookup (be_competitor_history b) s of
       Some (w, l) \<Rightarrow> Some (w + of_nat (length (filter id ws)), l + of_nat (length (filter Not ws)))
     | None \<Rightarrow> if ws = [] then None
         else Some (of_nat (length (filter id ws)), of_nat (length (filter Not ws))))"
proof (induction ws arbitrary: b)
  case (Cons won ws)
  then show ?case
    using assms
    by (cases won; cases "DAList.lookup (be_competitor_history b) s")
      (auto simp: bid_record_success_def bid_record_failure_def count_outcome_def lookup_update)
qed (auto split: option.splits)

text \<open>An opportunity without a path, for the concrete instances.\<close>

definition plain_opportunity :: "u256 \<Rightarrow> u256 \<Rightarrow> address option \<Rightarrow> u256 option \<Rightarrow> opportunity" where
  "plain_opportunity profit gas sender gas_price =
     \<lparr>op_id = ''op'', op_path = \<lparr>path_hops = [], path_hash = 0, path_total_gas = 0\<rparr>,
      op_expected_profit = profit, op_gas_cost = 0, op_gas_estimate = gas, op_base_fee = 0,
      op_priority_fee = 0, op_input_token = TOKEN_WETH, op_input_amount = 0, op_profit_details = None,
      op_executor_address = 0, op_is_whale_trigger = False, op_chain = Base,
      op_trigger_gas_price = gas_price, op_trigger_sender = sender, op_pending_txs = [],
      op_success_prob = 0, op_static_calldata = []\<rparr>"

definition fresh_mirror :: mirror where
  "fresh_mirror = mirror_new None None"

lemma fresh_mirror_simps [simp]:
  "current_base_fee fresh_mirror = 0" "sm_pools fresh_mirror = DAList.empty"
  "get_bytecode fresh_mirror a = None" "is_poisoned fresh_mirror a = False"
  "sm_trader_registry fresh_mirror = DAList.empty" "sm_last_block_timestamp fresh_mirror = 0"
  "sm_gas_state fresh_mirror = default_gas_state"
  by (simp_all add: fresh_mirror_def mirror_new_def current_base_fee_def default_gas_state_def
      load_state_checkpoint_def load_bytecode_cache_def get_bytecode_def is_poisoned_def dm_contains_def)

section \<open>Properties\<close>

text \<open>The bid is total and bounded: when the expected profit and the base fee fit 128 bits,
  \<open>calculate_bribe\<close> returns, with 5 per cent or a share between 10 and 99 per cent; 5 per cent is
  offered only for a profit below the micro-profit threshold.\<close>

theorem bribe_bounded:
  assumes "unat (op_expected_profit opp) < 2 ^ 128" and "unat (current_base_fee sm) < 2 ^ 128"
  shows "\<exists>pct b'. calculate_bribe rises now later sm opp b = Some (pct, b') \<and>
    (pct = 5 \<and> op_expected_profit opp < ucast MICRO_PROFIT_THRESHOLD_WEI \<or> 10 \<le> pct \<and> pct \<le> 99)"
proof -
  obtain profit where profit: "narrow (op_expected_profit opp) = Some (profit :: u128)"
      "unat profit = unat (op_expected_profit opp)"
    using assms(1) by (simp add: narrow_def unat_ucast_le)
  obtain fee where fee: "narrow (current_base_fee sm) = Some (fee :: u128)"
    using assms(2) by (simp add: narrow_def)
  have micro: "profit < MICRO_PROFIT_THRESHOLD_WEI \<longleftrightarrow> op_expected_profit opp < ucast MICRO_PROFIT_THRESHOLD_WEI"
    using profit(2) by (simp add: word_less_nat_alt MICRO_PROFIT_THRESHOLD_WEI_def)
  show ?thesis
    using profit(1) fee micro
    by (auto simp: calculate_bribe_def predator_bribe_def Let_def MAX_BRIBE_PCT_def max_def min_def not_le split: if_splits)
qed


theorem bribe_bounded_witness:
  "\<exists>pct b'. calculate_bribe (\<lambda>_ _. False) 0 0 fresh_mirror (plain_opportunity (10 ^ 15) 0 None None) (bidder_new 0) =
      Some (pct, b') \<and> (pct = 5 \<or> 10 \<le> pct \<and> pct \<le> 99)"
  using bribe_bounded [of "plain_opportunity (10 ^ 15) 0 None None" fresh_mirror "\<lambda>_ _. False" 0 0 "bidder_new 0"]
  by (auto simp: plain_opportunity_def)

text \<open>C35 The schedule of a calm market for an ordinary path: when no hop touches one of the AI tokens
  (VIRTUAL, LUNA, AI16Z), there is no competitor, whale, losing streak of more than two, recent win or
  earlier heat score, and profit and base fee fit 128 bits, the bid takes the tier of the profit, except
  that the lowest tier of 5 per cent is raised to 10; below \<open>10 ^ 13\<close> wei it is 5. The default of 50 per
  cent is never offered.\<close>

theorem bribe_schedule:
  assumes "\<not> path_contains_ai (path_hops (op_path opp))" and "\<not> is_predator_active opp"
    and "\<not> op_is_whale_trigger opp" and "be_consecutive_losses b \<le> 2" and "be_last_heat_score b = 0"
    and "be_last_success b = None"
    and profit: "unat (op_expected_profit opp) < 2 ^ 128" and fee: "unat (current_base_fee sm) < 2 ^ 128"
  shows "map_option fst (calculate_bribe rises now later sm opp b) =
    Some (let p = unat (op_expected_profit opp) in
      if p < 10 ^ 13 then 5 else if p < 10 ^ 16 then 10 else if p < 10 ^ 17 then 20
      else if p < 10 ^ 18 then 40 else 60)"
proof -
  obtain v where v: "narrow (op_expected_profit opp) = Some (v :: u128)" "unat v = unat (op_expected_profit opp)"
    using profit by (simp add: narrow_def unat_ucast_le)
  obtain f where f: "narrow (current_base_fee sm) = Some (f :: u128)"
    using fee by (simp add: narrow_def)
  have calm: "\<not> 2 < be_consecutive_losses b" "\<not> 5 < be_consecutive_losses b"
    using assms(4) by (auto simp: not_less intro: order_trans)
  have "map_option fst (calculate_bribe rises now later sm opp b) =
    Some (if v < MICRO_PROFIT_THRESHOLD_WEI then 5
      else max (min (tier_bribe v BIDDING_TIERS (be_default_bribe b)) MAX_BRIBE_PCT) 10)"
    using assms(1-6) v(1) f calm
    by (simp add: calculate_bribe_def Let_def streak_bribe_def recent_bribe_cold)
  also have "(if v < MICRO_PROFIT_THRESHOLD_WEI then 5
      else max (min (tier_bribe v BIDDING_TIERS (be_default_bribe b)) MAX_BRIBE_PCT) 10) =
    (let p = unat v in
      if p < 10 ^ 13 then 5 else if p < 10 ^ 16 then 10 else if p < 10 ^ 17 then 20
      else if p < 10 ^ 18 then 40 else 60)"
    unfolding program_tiers
    by (auto simp: MICRO_PROFIT_THRESHOLD_WEI_def MAX_BRIBE_PCT_def word_less_nat_alt max_def min_def)
  finally show ?thesis by (simp only: v(2))
qed

theorem bribe_schedule_witness:
  "map_option fst (calculate_bribe (\<lambda>_ _. True) 0 0 fresh_mirror (plain_opportunity (2 * 10 ^ 16) 0 None None) (bidder_new 0)) = Some 20"
  using bribe_schedule [of "plain_opportunity (2 * 10 ^ 16) 0 None None" "bidder_new 0" fresh_mirror "\<lambda>_ _. True" 0 0]
  by (simp add: plain_opportunity_def path_contains_ai_def is_predator_active_def bidder_new_def)

text \<open>C36 The profit cap of the priority fee has no effect: when a competitor triggered the
  opportunity, the base fee is at most 0.1 gwei, the gas estimate is from 1 to below \<open>2 ^ 200\<close> and the
  expected profit is below 10^12 wei per unit of gas, the suggestion is the
  minimum tip, and paying it costs more than the whole profit.\<close>

theorem profit_cap_ineffective:
  assumes "op_trigger_gas_price opp = Some comp_gas" and "current_base_fee sm \<le> 100000000"
    and gas: "0 < unat (op_gas_estimate opp)" "unat (op_gas_estimate opp) < 2 ^ 200"
    and low: "unat (op_expected_profit opp) < 10 ^ 12 * unat (op_gas_estimate opp)"
  shows "suggest_priority_fee sm opp b current_priority = Some (ucast MIN_BUILDER_TIP_WEI) \<and>
    unat (op_expected_profit opp) < unat (ucast MIN_BUILDER_TIP_WEI * op_gas_estimate opp)"
proof -
  let ?k = "if is_mafia b then 1 else 2 :: u256"
  let ?cap = "op_expected_profit opp div (op_gas_estimate opp * ?k)"
  have g1: "max (op_gas_estimate opp) 1 = op_gas_estimate opp"
    using gas(1) by (intro max_absorb1) (simp add: word_le_nat_alt Suc_le_eq)
  have gk: "unat (op_gas_estimate opp * ?k) = unat (op_gas_estimate opp) * unat ?k"
    using gas(2) by (intro unat_mult_nowrap) (auto simp: word_of_nat_eq_0_iff)
  have "unat ?cap \<le> unat (op_expected_profit opp) div unat (op_gas_estimate opp)"
    unfolding unat_div_distrib gk by (intro div_le_mono2) (use gas(1) in auto)
  also have "\<dots> < 10 ^ 12" using low gas(1) by (simp add: div_less_iff_less_mult)
  finally have cap: "unat ?cap < 10 ^ 12" .
  have "0 < unat (op_gas_estimate opp * ?k)" unfolding gk using gas(1) by simp
  then have "op_gas_estimate opp * ?k \<noteq> 0" by (simp only: unat_gt_0 not_False_eq_True)
  moreover obtain s where s: "s = min (sat_add comp_gas (if is_mafia b then 4000000000 else 2000000000)) ?cap" by blast
  ultimately have over: "overshoot_fee opp b current_priority = Some s"
    using assms(1) g1 by (cases "op_chain opp") (simp add: overshoot_fee_def Let_def u_div_def)
  have "unat s < 10 ^ 12" using cap by (auto simp: s min_def word_le_nat_alt)
  moreover from this have "unat ((s * 100) div 100) \<le> unat s"
    by (simp add: unat_div_distrib unat_mult_nowrap)
  ultimately have "(s * 100) div 100 \<le> ucast MIN_BUILDER_TIP_WEI"
    by (simp add: word_le_nat_alt MIN_BUILDER_TIP_WEI_def)
  moreover have "\<not> current_base_fee sm > 100000000" "\<not> current_base_fee sm > 500000000" "\<not> current_base_fee sm > 1000000000"
    using assms(2) by (auto simp: not_less intro: order_trans)
  ultimately have "suggest_priority_fee sm opp b current_priority = Some (ucast MIN_BUILDER_TIP_WEI)"
    using over by (simp add: suggest_priority_fee_def Let_def max_def)
  moreover have "unat (ucast MIN_BUILDER_TIP_WEI * op_gas_estimate opp) = 10 ^ 12 * unat (op_gas_estimate opp)"
    using gas(2) by (subst unat_mult_nowrap) (simp_all add: MIN_BUILDER_TIP_WEI_def)
  ultimately show ?thesis using low by simp
qed

theorem profit_cap_ineffective_witness:
  "suggest_priority_fee fresh_mirror (plain_opportunity (10 ^ 16) 600000 None (Some 5)) (bidder_new 0) 7 =
      Some (ucast MIN_BUILDER_TIP_WEI) \<and>
    unat ((10 :: u256) ^ 16) < unat (ucast MIN_BUILDER_TIP_WEI * 600000 :: u256)"
  using profit_cap_ineffective [of "plain_opportunity (10 ^ 16) 600000 None (Some 5)" 5 fresh_mirror "bidder_new 0" 7]
  by (simp add: plain_opportunity_def)

text \<open>Against a known competitor the engine bids 98 per cent exactly when it has itself won
  more often than lost on that competitor's transactions, and 92 per cent otherwise: the history
  counts the engine's outcomes, not the competitor's.\<close>

theorem predator_bid_counts_own_wins:
  assumes "op_trigger_sender opp = Some s" and "s \<in> KNOWN_COMPETITORS"
    and "\<not> path_contains_ai (path_hops (op_path opp))" and "length ws < 2 ^ 64"
  shows "map_option fst (calculate_bribe rises now later sm opp (outcomes t opp ws (bidder_new t))) =
    Some (if length (filter Not ws) < length (filter id ws) then 98 else 92)"
proof -
  let ?b = "outcomes t opp ws (bidder_new t)"
  let ?w = "length (filter id ws)" and ?l = "length (filter Not ws)"
  have small: "?w < 2 ^ 64" "?l < 2 ^ 64"
    using assms(4) length_filter_le [of id ws] length_filter_le [of Not ws] by linarith+
  have "DAList.lookup (be_competitor_history ?b) s = (if ws = [] then None else Some (of_nat ?w, of_nat ?l))"
    using outcomes_history [OF assms(1), where ws = ws and b = "bidder_new t"] by (simp add: bidder_new_def)
  moreover have "(of_nat ?l < (of_nat ?w :: u64)) = (?l < ?w)"
    using small by (simp add: word_less_nat_alt unat_of_nat_nowrap)
  ultimately show ?thesis
    using assms(1-3)
    by (auto simp: calculate_bribe_def predator_bribe_def is_predator_active_def Let_def MAX_BRIBE_PCT_def)
qed

theorem predator_bid_counts_own_wins_witness:
  "map_option fst (calculate_bribe (\<lambda>_ _. False) 0 0 fresh_mirror
      (plain_opportunity 0 0 (Some 0x84e0ad24b420f9bdb26b6fb0d0f) None)
      (outcomes 0 (plain_opportunity 0 0 (Some 0x84e0ad24b420f9bdb26b6fb0d0f) None) [True, True, False] (bidder_new 0))) = Some 98"
  using predator_bid_counts_own_wins [of "plain_opportunity 0 0 (Some 0x84e0ad24b420f9bdb26b6fb0d0f) None"
      "0x84e0ad24b420f9bdb26b6fb0d0f" "[True, True, False]" "\<lambda>_ _. False" 0 0 fresh_mirror 0]
  by (simp add: plain_opportunity_def path_contains_ai_def KNOWN_COMPETITORS_def)

end
