(* ===== verification/Circuit_Breaker.thy ===== *)
theory Circuit_Breaker
  imports Shadow_Constants
begin

text \<open>
  The circuit breaker and the L1 fee calculator of \<open>src/utils.rs\<close>. The clock is an
  argument; the global pause flag, a static of \<open>src/constants.rs\<close>, is returned beside the
  breaker by the one operation that sets it.
\<close>

section \<open>The breaker\<close>

datatype failure_type = OutOfGas | Slippage | Revert | OtherFailure

definition failure_index :: "failure_type \<Rightarrow> nat" where
  "failure_index f = (case f of OutOfGas \<Rightarrow> 0 | Slippage \<Rightarrow> 1 | Revert \<Rightarrow> 2 | OtherFailure \<Rightarrow> 3)"

record breaker =
  cb_failure_counts :: "u64 list"
  cb_last_failure_time :: u64
  cb_base_cooldown_secs :: u64
  cb_max_failures :: u64
  cb_last_latency_ms :: u64
  cb_current_balance :: u256
  cb_manual_kill_switch :: bool
  cb_atomic_shield_active :: bool
  cb_sequencer_stalled :: bool

definition breaker_new :: "u64 \<Rightarrow> u64 \<Rightarrow> breaker" where
  "breaker_new max_failures base_cooldown_secs =
     \<lparr>cb_failure_counts = [0, 0, 0, 0], cb_last_failure_time = 0,
      cb_base_cooldown_secs = base_cooldown_secs, cb_max_failures = max_failures,
      cb_last_latency_ms = 0, cb_current_balance = 0, cb_manual_kill_switch = False,
      cb_atomic_shield_active = True, cb_sequencer_stalled = False\<rparr>"

definition total_failures :: "breaker \<Rightarrow> u64" where
  "total_failures b = sum_list (cb_failure_counts b)"

definition cooldown_of :: "breaker \<Rightarrow> u64" where
  "cooldown_of b = cb_base_cooldown_secs b * (1 + cb_failure_counts b ! 0)"

definition is_open :: "u64 \<Rightarrow> breaker \<Rightarrow> bool" where
  "is_open now b =
     (if cb_manual_kill_switch b then True
      else if cb_sequencer_stalled b then True
      else if cb_last_latency_ms b > MAX_BUILDER_LATENCY_MS \<and> cb_last_latency_ms b \<noteq> 0 then True
      else if cb_current_balance b < ucast MIN_SEARCHER_BALANCE_WEI \<and> cb_current_balance b \<noteq> 0 then True
      else if total_failures b < cb_max_failures b then False
      else sat_sub now (cb_last_failure_time b) < cooldown_of b)"

definition record_sequencer_drift :: "u64 \<Rightarrow> u64 \<Rightarrow> breaker \<Rightarrow> breaker" where
  "record_sequencer_drift now block_timestamp b =
     (let drift = sat_sub now block_timestamp in
      if drift > MAX_NODE_LAG_SECONDS then b\<lparr>cb_sequencer_stalled := True\<rparr>
      else b\<lparr>cb_sequencer_stalled := False\<rparr>)"

definition trigger_kill_switch :: "breaker \<Rightarrow> breaker" where
  "trigger_kill_switch b = b\<lparr>cb_manual_kill_switch := True\<rparr>"

definition reset_kill_switch :: "breaker \<Rightarrow> breaker" where
  "reset_kill_switch b = b\<lparr>cb_manual_kill_switch := False\<rparr>"

definition record_failure :: "u64 \<Rightarrow> failure_type \<Rightarrow> breaker \<times> bool \<Rightarrow> breaker \<times> bool" where
  "record_failure now f = (\<lambda>(b, global_pause).
     let i = failure_index f;
         b = b\<lparr>cb_failure_counts := (cb_failure_counts b)[i := cb_failure_counts b ! i + 1],
               cb_last_failure_time := now\<rparr>
     in (b, if total_failures b > 20 then True else global_pause))"

definition record_latency :: "u64 \<Rightarrow> breaker \<Rightarrow> breaker" where
  "record_latency ms b = b\<lparr>cb_last_latency_ms := ms\<rparr>"

definition get_cached_balance :: "breaker \<Rightarrow> u256" where
  "get_cached_balance b = cb_current_balance b"

definition update_balance :: "u256 \<Rightarrow> breaker \<Rightarrow> breaker" where
  "update_balance balance b = b\<lparr>cb_current_balance := balance\<rparr>"

definition record_success :: "breaker \<Rightarrow> breaker" where
  "record_success b = b\<lparr>cb_failure_counts := map (\<lambda>_. 0) (cb_failure_counts b)\<rparr>"

section \<open>The L1 data fee\<close>

record ecotone_scalars =
  ec_base_fee_scalar :: u32
  ec_blob_fee_scalar :: u32
  ec_l1_base_fee :: u256
  ec_l1_blob_fee :: u256
  ec_decimals :: u256
  ec_last_updated :: u64

definition initial_scalars :: ecotone_scalars where
  "initial_scalars = \<lparr>ec_base_fee_scalar = 0, ec_blob_fee_scalar = 0, ec_l1_base_fee = 0,
     ec_l1_blob_fee = 0, ec_decimals = 6, ec_last_updated = 0\<rparr>"

text \<open>Each oracle answer may be missing.\<close>

definition refresh_scalars ::
  "u32 option \<Rightarrow> u32 option \<Rightarrow> u256 option \<Rightarrow> u256 option \<Rightarrow> u256 option \<Rightarrow> u64 \<Rightarrow> ecotone_scalars" where
  "refresh_scalars base blob l1_base l1_blob decimals now =
     \<lparr>ec_base_fee_scalar = (case base of Some x \<Rightarrow> x | None \<Rightarrow> 0),
      ec_blob_fee_scalar = (case blob of Some x \<Rightarrow> x | None \<Rightarrow> 0),
      ec_l1_base_fee = (case l1_base of Some x \<Rightarrow> x | None \<Rightarrow> 0),
      ec_l1_blob_fee = (case l1_blob of Some x \<Rightarrow> x | None \<Rightarrow> 0),
      ec_decimals = (case decimals of Some x \<Rightarrow> x | None \<Rightarrow> 6),
      ec_last_updated = now\<rparr>"

definition calldata_gas :: "bytes \<Rightarrow> u64" where
  "calldata_gas payload = foldl (\<lambda>g b. g + (if b = 0 then 4 else 16)) (133 * 16) payload"

definition l1_divisor :: "u64 \<Rightarrow> u256" where
  "l1_divisor dec = 16 * ucast ((10 :: u128) ^ unat (min dec 18))"

definition estimate_l1_fee :: "ecotone_scalars \<Rightarrow> chain \<Rightarrow> bytes \<Rightarrow> (mev_error + u256) exec" where
  "estimate_l1_fee sc c payload =
     (if c \<noteq> Base then Some (Inr 0)
      else if ec_last_updated sc = 0 then Some (Inl (Other ''L1 Scalars not yet initialized''))
      else do {
        let scaled_base = 16 * ucast (ec_base_fee_scalar sc) * ec_l1_base_fee sc;
        let scaled_blob = ucast (ec_blob_fee_scalar sc) * ec_l1_blob_fee sc;
        let total_l1_gas_price = scaled_base + scaled_blob;
        dec \<leftarrow> narrow (ec_decimals sc);
        let divisor = l1_divisor dec;
        if divisor = 0 then Some (Inr 0)
        else do {
          fee \<leftarrow> u_div (total_l1_gas_price * ucast (calldata_gas payload)) divisor;
          Some (Inr ((fee * 110) div 100))
        }
      })"

section \<open>Facts\<close>

definition breaker_wf :: "breaker \<Rightarrow> bool" where
  "breaker_wf b \<longleftrightarrow> length (cb_failure_counts b) = 4"

lemma failure_index_less: "failure_index f < 4"
  by (cases f) (simp_all add: failure_index_def)

lemma four_counts: "breaker_wf b \<Longrightarrow> \<exists>w x y z. cb_failure_counts b = [w, x, y, z]"
  by (auto simp: breaker_wf_def numeral_eq_Suc length_Suc_conv)

lemma total_record_failure:
  "breaker_wf b \<Longrightarrow> total_failures (fst (record_failure now f (b, p))) = total_failures b + 1"
  using four_counts [of b]
  by (cases f) (auto simp: record_failure_def total_failures_def failure_index_def Let_def)

inductive breaker_step :: "breaker \<times> bool \<Rightarrow> breaker \<times> bool \<Rightarrow> bool" where
  fail: "breaker_step s (record_failure now f s)"
| success: "breaker_step (b, p) (record_success b, p)"
| drift: "breaker_step (b, p) (record_sequencer_drift now ts b, p)"
| latency: "breaker_step (b, p) (record_latency ms b, p)"
| balance: "breaker_step (b, p) (update_balance v b, p)"
| kill: "breaker_step (b, p) (trigger_kill_switch b, p)"
| revive: "breaker_step (b, p) (reset_kill_switch b, p)"

inductive breaker_run :: "breaker \<times> bool \<Rightarrow> nat \<Rightarrow> breaker \<times> bool \<Rightarrow> bool" where
  refl: "breaker_run s 0 s"
| step: "breaker_run s n t \<Longrightarrow> breaker_step t u \<Longrightarrow> breaker_run s (Suc n) u"

inductive_simps breaker_run_0: "breaker_run s 0 t"

lemma step_wf: "breaker_step s t \<Longrightarrow> breaker_wf (fst s) \<Longrightarrow> breaker_wf (fst t)"
  by (induction rule: breaker_step.induct)
    (auto simp: record_failure_def record_success_def record_sequencer_drift_def record_latency_def
      update_balance_def trigger_kill_switch_def reset_kill_switch_def breaker_wf_def Let_def
      split: prod.split)

lemma step_pause: "breaker_step s t \<Longrightarrow> snd s \<Longrightarrow> snd t"
  by (induction rule: breaker_step.induct) (auto simp: record_failure_def Let_def split: prod.split)

lemma run_wf: "breaker_run s n t \<Longrightarrow> breaker_wf (fst s) \<Longrightarrow> breaker_wf (fst t)"
  by (induction rule: breaker_run.induct) (auto intro: step_wf)

lemma run_pause: "breaker_run s n t \<Longrightarrow> snd s \<Longrightarrow> snd t"
  by (induction rule: breaker_run.induct) (auto intro: step_pause)

text \<open>Twenty-one failures in a row, whatever their kinds and times.\<close>

lemma failures_fold:
  "breaker_wf b \<Longrightarrow> unat (total_failures b) + length fs < 2 ^ 64 \<Longrightarrow>
    breaker_wf (fst (fold (\<lambda>(t, f). record_failure t f) fs (b, p))) \<and>
    unat (total_failures (fst (fold (\<lambda>(t, f). record_failure t f) fs (b, p)))) =
      unat (total_failures b) + length fs \<and>
    (snd (fold (\<lambda>(t, f). record_failure t f) fs (b, p)) \<longleftrightarrow>
      p \<or> (fs \<noteq> [] \<and> unat (total_failures b) + length fs > 20))"
proof (induction fs arbitrary: b p)
  case (Cons tf fs)
  obtain t f where tf: "tf = (t, f)" by (cases tf)
  obtain b' p' where r: "record_failure t f (b, p) = (b', p')" by (cases "record_failure t f (b, p)")
  have wf: "breaker_wf b'"
    using step_wf [OF breaker_step.fail [of "(b, p)" t f]] Cons.prems(1) by (simp add: r)
  have "total_failures b' = total_failures b + 1"
    using total_record_failure [OF Cons.prems(1), of t f p] by (simp add: r)
  moreover have "unat (total_failures b) + 1 < 2 ^ 64" using Cons.prems(2) by simp
  ultimately have tot: "unat (total_failures b') = unat (total_failures b) + 1"
    by (simp add: unat_add_nowrap)
  have p': "p' \<longleftrightarrow> p \<or> unat (total_failures b') > 20"
    using r by (auto simp: record_failure_def Let_def word_less_nat_alt split: if_splits)
  show ?case
    using Cons.IH [OF wf, of p'] Cons.prems(2) tot p' by (auto simp: tf r)
qed simp

section \<open>Properties\<close>

text \<open>The emergency pause: starting from any breaker whose failures were just cleared, a run of
  failures of any kinds at any times sets the global pause exactly when there are more than
  twenty of them, or it was set before.\<close>

theorem pause_after_twenty_failures:
  assumes "length (cb_failure_counts b) = 4" and "length fs < 2 ^ 64"
  shows "snd (fold (\<lambda>(t, f). record_failure t f) fs (record_success b, p)) \<longleftrightarrow> p \<or> length fs > 20"
proof -
  have wf: "breaker_wf b" using assms(1) by (simp add: breaker_wf_def)
  then have "breaker_wf (record_success b)" "total_failures (record_success b) = 0"
    using four_counts [OF wf] by (auto simp: breaker_wf_def record_success_def total_failures_def)
  with failures_fold [of "record_success b" fs p] assms(2) show ?thesis by auto
qed

theorem pause_after_twenty_failures_witness:
  "snd (fold (\<lambda>(t, f). record_failure t f) (replicate 21 (5, Slippage)) (record_success (breaker_new 3 60), False))"
  using pause_after_twenty_failures [of "breaker_new 3 60" "replicate 21 (5, Slippage)" False]
  by (simp add: breaker_new_def)

text \<open>Once the global pause is set nothing in the breaker clears it: it survives every
  sequence of operations, successes and the reset of the kill switch included.\<close>

theorem pause_is_permanent:
  assumes "breaker_run (b, True) n (b', p)"
  shows "p"
  using run_pause [OF assms] by simp

theorem pause_is_permanent_witness:
  "snd (record_success (breaker_new 3 60), True)"
  using pause_is_permanent [OF breaker_run.step [OF breaker_run.refl breaker_step.success]] by simp

text \<open>The breaker opens for exactly four reasons in a fixed order of priority, and otherwise
  only while the failure count has reached its maximum and the time since the last failure is
  below the cooldown, which grows with the out-of-gas failures.\<close>

theorem breaker_open_exactly:
  "is_open now b \<longleftrightarrow>
     cb_manual_kill_switch b \<or> cb_sequencer_stalled b \<or> 100 < unat (cb_last_latency_ms b) \<or>
     (cb_current_balance b \<noteq> 0 \<and> unat (cb_current_balance b) < 5 * 10 ^ 14) \<or>
     (unat (cb_max_failures b) \<le> unat (sum_list (cb_failure_counts b)) \<and>
      unat now - unat (cb_last_failure_time b)
        < unat (cb_base_cooldown_secs b * (1 + cb_failure_counts b ! 0)))"
proof -
  have lat: "cb_last_latency_ms b > MAX_BUILDER_LATENCY_MS \<and> cb_last_latency_ms b \<noteq> 0 \<longleftrightarrow>
      100 < unat (cb_last_latency_ms b)"
    by (auto simp: MAX_BUILDER_LATENCY_MS_def word_less_nat_alt)
  have bal: "cb_current_balance b < ucast MIN_SEARCHER_BALANCE_WEI \<longleftrightarrow>
      unat (cb_current_balance b) < 5 * 10 ^ 14"
    by (simp add: MIN_SEARCHER_BALANCE_WEI_def word_less_nat_alt)
  have cool: "sat_sub now (cb_last_failure_time b) < cooldown_of b \<longleftrightarrow>
      unat now - unat (cb_last_failure_time b)
        < unat (cb_base_cooldown_secs b * (1 + cb_failure_counts b ! 0))"
    by (simp only: word_less_nat_alt unat_sat_sub cooldown_of_def)
  show ?thesis
    unfolding is_open_def lat bal cool total_failures_def
    by (auto simp: word_less_nat_alt not_less)
qed

end
