(* ===== verification/Rpc_Services.thy ===== *)
theory Rpc_Services
  imports Models "HOL-Library.Sublist"
begin

text \<open>
  The small shared services: the rotating provider pool of \<open>src/lib.rs\<close>, the nonce counter of
  \<open>src/nonce_manager.rs\<close>, the fee feed of \<open>src/gas_feed.rs\<close> and the block tracker of
  \<open>src/bundle_builder.rs\<close>. Providers are opaque; the clock and the answers of a provider are
  arguments.
\<close>

section \<open>The provider pool\<close>

record 'p provider_pool =
  pp_providers :: "'p list"
  pp_next :: usize
  pp_health :: "u64 list"
  pp_usage_stats :: "u64 list"

definition pool_new :: "'p list \<Rightarrow> 'p provider_pool" where
  "pool_new providers =
     \<lparr>pp_providers = providers, pp_next = 0, pp_health = replicate (length providers) 0,
      pp_usage_stats = replicate (length providers) 0\<rparr>"

text \<open>The loop of \<open>next\<close>, with the number of turns that are left.\<close>

fun next_turns :: "nat \<Rightarrow> u64 \<Rightarrow> 'p provider_pool \<Rightarrow> ((nat \<times> 'p) \<times> 'p provider_pool) exec" where
  "next_turns 0 now p = do { first \<leftarrow> index (pp_providers p) 0; Some ((0, first), p) }"
| "next_turns (Suc n) now p = do {
     let idx = unat (pp_next p) mod length (pp_providers p);
     let p' = p\<lparr>pp_next := pp_next p + 1\<rparr>;
     h \<leftarrow> index (pp_health p') idx;
     if h \<le> now then do {
       u \<leftarrow> index (pp_usage_stats p') idx;
       prov \<leftarrow> index (pp_providers p') idx;
       Some ((idx, prov), p'\<lparr>pp_usage_stats := (pp_usage_stats p')[idx := u + 1]\<rparr>)
     }
     else next_turns n now p'
   }"

definition pool_next :: "u64 \<Rightarrow> 'p provider_pool \<Rightarrow> ((nat \<times> 'p) \<times> 'p provider_pool) exec" where
  "pool_next now p =
     (if pp_providers p = [] then None else next_turns (length (pp_providers p)) now p)"

definition get_head :: "'p provider_pool \<Rightarrow> usize \<Rightarrow> (nat \<times> 'p) exec" where
  "get_head p i =
     (if pp_providers p = [] then None
      else let target = unat i mod length (pp_providers p)
        in map_option (Pair target) (index (pp_providers p) target))"

definition mark_unhealthy :: "u64 \<Rightarrow> nat \<Rightarrow> u64 \<Rightarrow> 'p provider_pool \<Rightarrow> 'p provider_pool exec" where
  "mark_unhealthy now provider_idx duration_secs p =
     (let resume_at = now + max duration_secs 120 in do {
        _ \<leftarrow> index (pp_health p) provider_idx;
        Some (p\<lparr>pp_health := (pp_health p)[provider_idx := resume_at]\<rparr>)
      })"

section \<open>Nonces and blocks\<close>

record nonce_manager =
  nm_current :: u64
  nm_address :: address

text \<open>The transaction count is the answer of the node, or its error.\<close>

definition nonce_new :: "string + u64 \<Rightarrow> address \<Rightarrow> mev_error + nonce_manager" where
  "nonce_new count a =
     (case count of Inl e \<Rightarrow> Inl (Other e) | Inr n \<Rightarrow> Inr \<lparr>nm_current = n, nm_address = a\<rparr>)"

definition nonce_next :: "nonce_manager \<Rightarrow> u64 \<times> nonce_manager" where
  "nonce_next m = (nm_current m, m\<lparr>nm_current := nm_current m + 1\<rparr>)"

definition nonce_resync :: "string + u64 \<Rightarrow> nonce_manager \<Rightarrow> (mev_error + unit) \<times> nonce_manager" where
  "nonce_resync count m =
     (case count of Inl e \<Rightarrow> (Inl (Other e), m) | Inr n \<Rightarrow> (Inr (), m\<lparr>nm_current := n\<rparr>))"

record block_tracker =
  bt_current_block :: u64

definition tracker_new :: block_tracker where
  "tracker_new = \<lparr>bt_current_block = 0\<rparr>"

definition tracker_update :: "u64 \<Rightarrow> block_tracker \<Rightarrow> block_tracker" where
  "tracker_update block t = t\<lparr>bt_current_block := block\<rparr>"

definition tracker_current :: "block_tracker \<Rightarrow> u64" where
  "tracker_current t = bt_current_block t"

section \<open>The fee feed\<close>

record gas_feed =
  gf_base_fee :: u256
  gf_priority_fee :: u256
  gf_l1_fee :: u256
  gf_priority_history :: "u256 list"
  gf_block_count :: i32

definition feed_new :: gas_feed where
  "feed_new = \<lparr>gf_base_fee = 0, gf_priority_fee = 0, gf_l1_fee = 0, gf_priority_history = [], gf_block_count = 0\<rparr>"

definition push_priority :: "u256 \<Rightarrow> u256 list \<Rightarrow> u256 list" where
  "push_priority p h = (if length h \<ge> 5 then tl h else h) @ [p]"

definition overshoot_median :: "u256 list \<Rightarrow> u256" where
  "overshoot_median h = (let sorted = sort h; median = sorted ! (length sorted div 2) in (median * 112) div 100)"

definition feed_priority :: "u128 option \<Rightarrow> gas_feed \<Rightarrow> gas_feed" where
  "feed_priority estimate f =
     (case estimate of
        Some p \<Rightarrow>
          let h = push_priority (ucast p) (gf_priority_history f)
          in f\<lparr>gf_priority_history := h, gf_priority_fee := overshoot_median h\<rparr>
      | None \<Rightarrow> f)"

text \<open>One block: the base fee, the priority estimate and, on every fifth block, the answer of
  the L1 oracle. The block count is per subscription.\<close>

definition feed_block :: "u128 option \<Rightarrow> u128 option \<Rightarrow> u256 option \<Rightarrow> gas_feed \<Rightarrow> gas_feed" where
  "feed_block base_fee_per_gas estimate l1_val f =
     (let base_fee = (case base_fee_per_gas of Some b \<Rightarrow> b | None \<Rightarrow> 0);
          f = feed_priority estimate (f\<lparr>gf_base_fee := ucast base_fee\<rparr>);
          count = wrap_i32 (gf_block_count f + 1);
          f = f\<lparr>gf_block_count := count\<rparr>
      in if count mod 5 = 0
         then (case l1_val of Some v \<Rightarrow> f\<lparr>gf_l1_fee := v\<rparr> | None \<Rightarrow> f)
         else f)"

text \<open>A lost subscription restarts the count, and nothing else.\<close>

definition feed_reconnect :: "gas_feed \<Rightarrow> gas_feed" where
  "feed_reconnect f = f\<lparr>gf_block_count := 0\<rparr>"

definition feed_current :: "gas_feed \<Rightarrow> u256 \<times> u256 \<times> u256" where
  "feed_current f = (gf_base_fee f, gf_priority_fee f, gf_l1_fee f)"

section \<open>Facts\<close>

definition pool_ok :: "'p provider_pool \<Rightarrow> bool" where
  "pool_ok p \<longleftrightarrow> pp_providers p \<noteq> [] \<and> length (pp_health p) = length (pp_providers p) \<and>
     length (pp_usage_stats p) = length (pp_providers p)"

lemma pool_new_ok: "providers \<noteq> [] \<Longrightarrow> pool_ok (pool_new providers)"
  by (simp add: pool_ok_def pool_new_def)

text \<open>Head of the turn \<open>k\<close> from the cursor on, and the first turn with a healthy one.\<close>

definition turn_head :: "'p provider_pool \<Rightarrow> nat \<Rightarrow> nat" where
  "turn_head p k = (unat (pp_next p) + k) mod length (pp_providers p)"

definition healthy_turn :: "u64 \<Rightarrow> 'p provider_pool \<Rightarrow> nat \<Rightarrow> bool" where
  "healthy_turn now p k \<longleftrightarrow> pp_health p ! turn_head p k \<le> now"

lemma find_map_Suc: "find P (map Suc ks) = map_option Suc (find (\<lambda>k. P (Suc k)) ks)"
  by (induction ks) auto

lemma find_upt_Suc:
  "find P [0..<Suc n] = (if P 0 then Some 0 else map_option Suc (find (\<lambda>k. P (Suc k)) [0..<n]))"
  by (simp add: upt_conv_Cons map_Suc_upt [symmetric] find_map_Suc del: upt_Suc map_Suc_upt)

lemma next_turns_spec:
  assumes "pool_ok p" and "unat (pp_next p) + n < 2 ^ 64"
  shows "\<exists>p'. next_turns n now p =
      Some ((case find (healthy_turn now p) [0..<n] of
          Some k \<Rightarrow> (turn_head p k, pp_providers p ! turn_head p k)
        | None \<Rightarrow> (0, pp_providers p ! 0)), p') \<and>
    pool_ok p' \<and> pp_health p' = pp_health p \<and> pp_providers p' = pp_providers p"
  using assms
proof (induction n arbitrary: p)
  case 0
  then show ?case by (auto simp: pool_ok_def index_def)
next
  case (Suc n)
  let ?p = "p\<lparr>pp_next := pp_next p + 1\<rparr>"
  have i: "turn_head p 0 < length (pp_providers p)" "turn_head p 0 < length (pp_health p)"
      "turn_head p 0 < length (pp_usage_stats p)"
    using Suc.prems(1) by (auto simp: pool_ok_def turn_head_def)
  have nxt: "unat (pp_next p + 1) = unat (pp_next p) + 1"
    using unat_add_nowrap [of "pp_next p" 1] Suc.prems(2) by simp
  have cur: "unat (pp_next p) mod length (pp_providers p) = turn_head p 0" by (simp add: turn_head_def)
  show ?case
  proof (cases "healthy_turn now p 0")
    case True
    then show ?thesis
      using i Suc.prems(1) unfolding next_turns.simps cur
      by (simp add: healthy_turn_def find_upt_Suc index_def Let_def pool_ok_def del: upt_Suc)
  next
    case False
    then have step: "next_turns (Suc n) now p = next_turns n now ?p"
      using i unfolding next_turns.simps cur by (simp add: healthy_turn_def index_def Let_def)
    have shift: "turn_head ?p k = turn_head p (Suc k)" "healthy_turn now ?p k = healthy_turn now p (Suc k)" for k
      by (simp_all add: nxt turn_head_def healthy_turn_def)
    have ok: "pool_ok ?p" "unat (pp_next ?p) + n < 2 ^ 64" using Suc.prems nxt by (auto simp: pool_ok_def)
    have *: "healthy_turn now ?p = (\<lambda>k. healthy_turn now p (Suc k))" using shift(2) by (rule ext)
    show ?thesis
      using Suc.IH [OF ok] False unfolding step find_upt_Suc * shift(1)
      by (cases "find (\<lambda>k. healthy_turn now p (Suc k)) [0..<n]") simp_all
  qed
qed

lemma round_covers:
  assumes "pp_providers p \<noteq> []" and "i < length (pp_providers p)"
  shows "\<exists>k < length (pp_providers p). turn_head p k = i"
proof -
  define len m where "len = length (pp_providers p)" and "m = unat (pp_next p) mod len"
  have i: "i < len" and "m < len" using assms by (auto simp: len_def m_def)
  have "(unat (pp_next p) + (i + len - m) mod len) mod len = (m + (i + len - m)) mod len"
    unfolding m_def by (simp only: mod_add_left_eq mod_add_right_eq)
  also have "m + (i + len - m) = i + len" using \<open>m < len\<close> by linarith
  also have "(i + len) mod len = i" using i by simp
  finally show ?thesis
    unfolding turn_head_def len_def [symmetric] using i by (intro exI [of _ "(i + len - m) mod len"]) simp
qed

section \<open>Sources of consecutive numbers\<close>

lemma distinct_subseq: "subseq xs ys \<Longrightarrow> distinct ys \<Longrightarrow> distinct xs"
  by (auto simp: subseq_conv_nths distinct_nthsI)

text \<open>What the senders of transactions rely on: a draw takes the number under the cursor.\<close>

locale ticket_source =
  fixes draw :: "'m \<Rightarrow> u64 \<times> 'm" and cursor :: "'m \<Rightarrow> u64"
  assumes draw_value: "fst (draw m) = cursor m"
    and draw_advance: "cursor (snd (draw m)) = cursor m + 1"
begin

text \<open>The \<open>k\<close> numbers from the cursor on, and a stretch of \<open>k\<close> draws of which one sender, among
  others that draw from the same source, got the numbers \<open>ns\<close>.\<close>

definition tickets :: "'m \<Rightarrow> nat \<Rightarrow> u64 list" where
  "tickets m k = map (\<lambda>i. cursor m + of_nat i) [0..<k]"

definition drawn :: "'m \<Rightarrow> u64 list \<Rightarrow> nat \<Rightarrow> 'm \<Rightarrow> bool" where
  "drawn m ns k m' \<longleftrightarrow> subseq ns (tickets m k) \<and> cursor m' = cursor m + of_nat k"

lemma drawn_none: "drawn m [] 0 m"
  by (simp add: drawn_def)

lemma drawn_one: "draw m = (n, m') \<Longrightarrow> drawn m [n] 1 m'"
  using draw_value [of m] draw_advance [of m] by (simp add: drawn_def tickets_def)

lemma tickets_append:
  assumes "cursor m' = cursor m + of_nat j"
  shows "tickets m (j + k) = tickets m j @ tickets m' k"
proof -
  have "[j..<j + k] = map (\<lambda>i. j + i) [0..<k]" by (simp add: map_add_upt add.commute)
  then show ?thesis
    using assms upt_add_eq_append [of 0 j k] by (simp add: tickets_def comp_def ac_simps)
qed

lemma drawn_append: "drawn m xs j m' \<Longrightarrow> drawn m' ys k m'' \<Longrightarrow> drawn m (xs @ ys) (j + k) m''"
  by (auto simp: drawn_def tickets_append list_emb_append_mono ac_simps)

lemma drawn_others: "drawn m [] k (((\<lambda>m. snd (draw m)) ^^ k) m)"
proof (induction k)
  case (Suc k)
  then show ?case using draw_advance by (simp add: drawn_def ac_simps)
qed (simp add: drawn_none)

text \<open>Without other draws the numbers are all there are; at fewer than \<open>2 ^ 64\<close> draws none repeats.\<close>

lemma drawn_alone: "drawn m ns (length ns) m' \<Longrightarrow> ns = tickets m (length ns)"
  using subseq_same_length [of ns "tickets m (length ns)"] by (simp add: drawn_def tickets_def)

lemma drawn_distinct:
  assumes "drawn m ns k m'" and "k \<le> 2 ^ 64"
  shows "distinct ns"
proof -
  have "inj_on (\<lambda>i. cursor m + of_nat i) {..<k}"
  proof (rule inj_onI)
    fix i j assume i: "i \<in> {..<k}" and j: "j \<in> {..<k}" and eq: "cursor m + of_nat i = cursor m + (of_nat j :: u64)"
    have "unat (of_nat i :: u64) = i" "unat (of_nat j :: u64) = j"
      using i j assms(2) by (simp_all add: unat_of_nat take_bit_nat_eq_self_iff)
    with eq show "i = j" by (metis add_left_cancel)
  qed
  then have "distinct (tickets m k)" by (simp add: tickets_def distinct_map atLeast0LessThan)
  then show ?thesis using assms(1) by (auto simp: drawn_def intro: distinct_subseq)
qed

lemma nth_draw: "fst (draw (((\<lambda>m. snd (draw m)) ^^ n) m)) = cursor m + of_nat n"
proof -
  have "cursor (((\<lambda>m. snd (draw m)) ^^ n) m) = cursor m + of_nat n"
    by (induction n) (simp_all add: draw_advance ac_simps)
  then show ?thesis by (simp add: draw_value)
qed

end

interpretation nonces: ticket_source nonce_next nm_current
  by unfold_locales (simp_all add: nonce_next_def)

section \<open>Properties\<close>

text \<open>C25 The rotation finds a healthy provider whenever there is one: while the cursor does not overflow, \<open>next\<close> returns, in at most
  one round from the cursor, the first head whose cooldown is over, and head 0 only if every head
  is on cooldown.\<close>

theorem next_finds_healthy:
  assumes "pool_ok p" and "unat (pp_next p) + length (pp_providers p) < 2 ^ 64"
  shows "\<exists>idx p'. pool_next now p = Some ((idx, pp_providers p ! idx), p') \<and> pool_ok p' \<and>
    pp_health p' = pp_health p \<and>
    (if \<exists>i < length (pp_providers p). pp_health p ! i \<le> now
     then \<exists>k < length (pp_providers p). idx = turn_head p k \<and> pp_health p ! idx \<le> now \<and>
       (\<forall>j < k. now < pp_health p ! turn_head p j)
     else idx = 0)"
proof (cases "find (healthy_turn now p) [0..<length (pp_providers p)]")
  case None
  have ne: "pp_providers p \<noteq> []" using assms(1) by (simp add: pool_ok_def)
  then have "\<not> (\<exists>i < length (pp_providers p). pp_health p ! i \<le> now)"
    using None round_covers [OF ne] by (auto simp: find_None_iff healthy_turn_def)
  then show ?thesis
    using next_turns_spec [OF assms, of now] None ne by (auto simp: pool_next_def)
next
  case (Some k)
  then have k: "k < length (pp_providers p)" "healthy_turn now p k" "\<forall>j < k. \<not> healthy_turn now p j"
    by (auto simp: find_Some_iff)
  have ne: "pp_providers p \<noteq> []" using assms(1) by (simp add: pool_ok_def)
  then have "turn_head p k < length (pp_providers p)" by (simp add: turn_head_def)
  then have "\<exists>i < length (pp_providers p). pp_health p ! i \<le> now"
    using k(2) by (auto simp: healthy_turn_def)
  then show ?thesis
    using next_turns_spec [OF assms, of now] Some k ne by (auto simp: pool_next_def healthy_turn_def not_le)
qed

theorem next_finds_healthy_witness:
  "\<exists>idx p'. pool_next 100 ((pool_new [''a'', ''b''])\<lparr>pp_health := [200, 50]\<rparr>) = Some ((idx, [''a'', ''b''] ! idx), p') \<and>
     [200, 50 :: u64] ! idx \<le> 100"
proof -
  let ?p = "(pool_new [''a'', ''b''])\<lparr>pp_health := [200, 50]\<rparr>"
  have ok: "pool_ok ?p" by (simp add: pool_ok_def pool_new_def)
  have len: "unat (pp_next ?p) + length (pp_providers ?p) < 2 ^ 64" by (simp add: pool_new_def)
  have healthy: "\<exists>i < length (pp_providers ?p). pp_health ?p ! i \<le> 100"
    by (intro exI [of _ 1]) (simp add: pool_new_def)
  from next_finds_healthy [OF ok len, of 100] show ?thesis
    unfolding if_P [OF healthy] by (auto simp: pool_new_def)
qed

text \<open>Nonces are handed out consecutively and never twice between two resyncs.\<close>

theorem nonces_consecutive:
  "fst (nonce_next (((\<lambda>m. snd (nonce_next m)) ^^ n) m)) = nm_current m + of_nat n"
  by (rule nonces.nth_draw)

text \<open>The fee feed keeps at most five estimates.\<close>

theorem feed_history_bounded:
  "length (gf_priority_history f) \<le> 5 \<Longrightarrow> length (gf_priority_history (feed_block b e l f)) \<le> 5"
  by (auto simp: feed_block_def feed_priority_def push_priority_def Let_def split: option.split)

end
