(* ===== verification/Flash_Executor.thy ===== *)
theory Flash_Executor
  imports Simulator Bidding Circuit_Breaker Rpc_Services
begin

text \<open>
  The flash-loan executor (\<open>src/flash_loan_executor.rs\<close>): locking of pools, validation,
  simulation with two lenders, the profit guards, and the broadcast with its one retry. The state
  it shares with other components is the record \<open>world\<close>; signing, the relays, the call encoding,
  one float product and the formatting of results are arguments.
\<close>

section \<open>State\<close>

record 'p executor =
  fx_contract_address :: address
  fx_min_profit_wei :: u256
  fx_chain :: chain
  fx_has_builder :: bool
  fx_bribe_percent :: u64
  fx_occupied_pools :: "(u64 \<times> address, string) dmap"
  fx_http_pool :: "'p provider_pool option"
  fx_vetted_tokens :: "(address, bool) dmap"

definition executor_new ::
  "string + u64 \<Rightarrow> address \<Rightarrow> u256 \<Rightarrow> bool \<Rightarrow> u64 \<Rightarrow> 'p provider_pool option \<Rightarrow> mev_error + 'p executor" where
  "executor_new chain_id_reply contract_address min_profit_wei has_builder bribe_percent http_pool =
     (case chain_id_reply of
        Inl e \<Rightarrow> Inl (Other e)
      | Inr i \<Rightarrow> Inr \<lparr>fx_contract_address = contract_address, fx_min_profit_wei = min_profit_wei,
          fx_chain = (case chain_try_from_id i of Some c \<Rightarrow> c | None \<Rightarrow> Base), fx_has_builder = has_builder,
          fx_bribe_percent = bribe_percent, fx_occupied_pools = DAList.empty, fx_http_pool = http_pool,
          fx_vetted_tokens = DAList.empty\<rparr>)"

definition prune_sequencer :: "u64 \<Rightarrow> 'p executor \<Rightarrow> 'p executor" where
  "prune_sequencer current_block x =
     x\<lparr>fx_occupied_pools := dm_retain (\<lambda>(block, _) _. block \<ge> current_block) (fx_occupied_pools x)\<rparr>"

text \<open>\<open>wd_sent\<close> is the record of the bundles given to the relays.\<close>

record 'p world =
  wd_executor :: "'p executor"
  wd_bidder :: bidder
  wd_breaker :: breaker
  wd_global_pause :: bool
  wd_nonces :: nonce_manager
  wd_mirror :: mirror
  wd_scalars :: ecotone_scalars
  wd_tracker :: block_tracker
  wd_sent :: "mev_bundle list"

record tx_request =
  tq_to :: address
  tq_from :: address
  tq_input :: bytes
  tq_nonce :: u64
  tq_access_list :: access_list
  tq_gas_limit :: u128
  tq_max_fee :: u128
  tq_max_priority_fee :: u128
  tq_chain_id :: u64

type_synonym broadcast_reply = "(string + unit) list"

text \<open>\<open>xe_scale g\<close> is the float product \<open>g * 1.1\<close> as an integer, \<open>xe_instant k\<close> the \<open>k\<close>-th reading
  of the monotonic clock, \<open>xe_show\<close> the debug text of the replies.\<close>

record 'e exec_env =
  xe_now :: u64
  xe_instant :: "nat \<Rightarrow> instant"
  xe_rises :: "u64 \<Rightarrow> u64 \<Rightarrow> bool"
  xe_sim :: "lender \<Rightarrow> 'e sim_env"
  xe_check :: "hop \<Rightarrow> 'e sim_env"
  xe_code :: "address \<Rightarrow> bytes option"
  xe_scale :: "u64 \<Rightarrow> u64"
  xe_abi :: "bytes \<Rightarrow> bytes"
  xe_signer :: address
  xe_chain_id :: u64
  xe_sign :: "tx_request \<Rightarrow> string + bytes \<times> b256"
  xe_relays :: "mev_bundle \<Rightarrow> broadcast_reply"
  xe_show :: "broadcast_reply \<Rightarrow> string"

section \<open>Collision locks and validation\<close>

fun collides :: "u64 \<Rightarrow> hop list \<Rightarrow> (u64 \<times> address, string) dmap \<Rightarrow> bool" where
  "collides block [] m = False"
| "collides block (h # hs) m = (dm_contains m (block, hop_pool_address h) \<or> collides block hs m)"

fun lock_pools :: "u64 \<Rightarrow> string \<Rightarrow> hop list \<Rightarrow> (u64 \<times> address, string) dmap \<Rightarrow> (u64 \<times> address, string) dmap" where
  "lock_pools block opp_id [] m = m"
| "lock_pools block opp_id (h # hs) m =
     lock_pools block opp_id hs (DAList.update (block, hop_pool_address h) opp_id m)"

fun wash_check :: "'e sim_env \<Rightarrow> mirror \<Rightarrow> hop list \<Rightarrow> mev_error + unit" where
  "wash_check env sm [] = Inr ()"
| "wash_check env sm (h # hs) =
     (case detect_wash_trap env sm (hop_pool_address h) of Inl e \<Rightarrow> Inl e | Inr _ \<Rightarrow> wash_check env sm hs)"

text \<open>The tasks are collected first, then run.\<close>

fun fetch_tasks :: "mirror \<Rightarrow> hop list \<Rightarrow> address list" where
  "fetch_tasks sm [] = []"
| "fetch_tasks sm (h # hs) =
     (if get_bytecode sm (hop_token_out h) = None then [hop_token_out h] else []) @
     (if get_bytecode sm (hop_pool_address h) = None then [hop_pool_address h] else []) @
     fetch_tasks sm hs"

definition run_fetches :: "(address \<Rightarrow> bytes option) \<Rightarrow> address list \<Rightarrow> mirror \<Rightarrow> mirror" where
  "run_fetches code tasks sm = fold (\<lambda>a. fetch_and_cache_bytecode (code a) a) tasks sm"

fun validate_hops :: "'e exec_env \<Rightarrow> mirror \<Rightarrow> (address, bool) dmap \<Rightarrow> u256 \<Rightarrow> hop list \<Rightarrow> (mev_error + u64) list exec" where
  "validate_hops env sm vetted amount [] = Some []"
| "validate_hops env sm vetted amount (h # hs) = do {
     rs \<leftarrow> validate_hops env sm vetted amount hs;
     if dm_contains vetted (hop_token_out h) \<or> hop_token_out h \<in> CORE_TOKENS then Some rs
     else do {
       r \<leftarrow> check_honeypot (xe_check env h) sm (hop_token_out h) (hop_pool_address h) amount;
       Some (r # rs)
     }
   }"

fun first_error :: "('x + 'a) list \<Rightarrow> 'x option" where
  "first_error [] = None"
| "first_error (r # rs) = (case r of Inl e \<Rightarrow> Some e | Inr _ \<Rightarrow> first_error rs)"

definition vet_tokens :: "hop list \<Rightarrow> (address, bool) dmap \<Rightarrow> (address, bool) dmap" where
  "vet_tokens hops m = fold (\<lambda>h. DAList.update (hop_token_out h) True) hops m"

section \<open>Simulation and the choice of the lender\<close>

definition build_calldata_with_lender :: "'e exec_env \<Rightarrow> u256 \<Rightarrow> opportunity \<Rightarrow> lender \<Rightarrow> bytes" where
  "build_calldata_with_lender env min_profit_wei opp l =
     (let loans = [(op_input_token opp, op_input_amount opp)];
          p = \<lparr>ap_hops = path_hops (op_path opp), ap_loans = loans, ap_lender = l\<rparr>
      in xe_abi env (encode_ghost_multi p loans min_profit_wei))"

record candidate =
  cd_lender :: lender
  cd_sim :: sim_result
  cd_calldata :: bytes
  cd_net_profit :: u256
  cd_l1_fee :: u256
  cd_l2_fee :: u256
  cd_adjusted :: u256

definition is_robust :: "u256 \<Rightarrow> sim_result \<Rightarrow> sim_result list \<Rightarrow> bool" where
  "is_robust min_profit top_sim rest =
     list_all (\<lambda>r. sr_success r \<and> sr_profit r \<ge> min_profit \<and>
       (sat_sub (sr_profit top_sim) (sr_profit r) * 10000) div max (sr_profit top_sim) 1 \<le> ucast MAX_BRANCH_LOSS_BPS) rest"

definition l1_fee_or_zero :: "ecotone_scalars \<Rightarrow> chain \<Rightarrow> bytes \<Rightarrow> u256 exec" where
  "l1_fee_or_zero sc c payload =
     map_option (\<lambda>r. case r of Inl _ \<Rightarrow> 0 | Inr fee \<Rightarrow> fee) (estimate_l1_fee sc c payload)"

definition consider_result ::
  "u256 \<Rightarrow> (bytes \<Rightarrow> u256 exec) \<Rightarrow> u256 \<Rightarrow> lender \<Rightarrow> bytes \<Rightarrow> sim_result list \<Rightarrow> candidate option \<Rightarrow> candidate option exec" where
  "consider_result min_profit l1 total_gas_price l calldata results best =
     (case results of
        [] \<Rightarrow> Some best
      | top_sim # rest \<Rightarrow>
          if sr_success top_sim \<and> sr_profit top_sim \<ge> min_profit \<and> is_robust min_profit top_sim rest
          then do {
            l1_fee \<leftarrow> l1 calldata;
            let l2_fee = ucast (sr_gas_used top_sim) * total_gas_price;
            let total_cost = l1_fee + l2_fee;
            let net_profit = sat_sub (sr_profit top_sim) total_cost;
            let adjusted = (if l = LBalancer then net_profit + 50000000000000 else net_profit);
            Some (if (case best of None \<Rightarrow> True | Some b \<Rightarrow> adjusted > cd_adjusted b)
              then Some \<lparr>cd_lender = l, cd_sim = top_sim, cd_calldata = calldata, cd_net_profit = net_profit,
                         cd_l1_fee = l1_fee, cd_l2_fee = l2_fee, cd_adjusted = adjusted\<rparr>
              else best)
          }
          else Some best)"

text \<open>Both lenders are simulated before the results are read.\<close>

definition best_candidate ::
  "'e exec_env \<Rightarrow> 'p world \<Rightarrow> opportunity \<Rightarrow> candidate option exec" where
  "best_candidate env w opp =
     (let x = wd_executor w; min_profit = fx_min_profit_wei x;
          calldata = build_calldata_with_lender env min_profit opp;
          simulate = (\<lambda>l. run_branch_simulation (xe_sim env l) (wd_mirror w) opp (calldata l)
            (fx_contract_address x) (nm_address (wd_nonces w)));
          (base_fee, priority_fee, _) = current_fees (sm_gas_state (wd_mirror w));
          total_gas_price = base_fee + priority_fee;
          l1 = l1_fee_or_zero (wd_scalars w) (fx_chain x)
      in do {
        balancer \<leftarrow> simulate LBalancer;
        aave \<leftarrow> simulate LAaveV3;
        best \<leftarrow> consider_result min_profit l1 total_gas_price LBalancer (calldata LBalancer) balancer None;
        consider_result min_profit l1 total_gas_price LAaveV3 (calldata LAaveV3) aave best
      })"

section \<open>The guards\<close>

definition adjusted_cost :: "candidate \<Rightarrow> u256" where
  "adjusted_cost c = (cd_l1_fee c * 120) div 100 + cd_l2_fee c"

definition over_budget :: "u256 \<Rightarrow> u256 \<Rightarrow> bool" where
  "over_budget balance cost \<longleftrightarrow> balance \<noteq> 0 \<and> cost > balance div 10"

definition bribe_of :: "u256 \<Rightarrow> u32 \<Rightarrow> u256" where
  "bribe_of net_profit bribe_pct = (net_profit * ucast bribe_pct) div 100"

definition MIN_NET_PROFIT :: u256 where "MIN_NET_PROFIT = 200000000000000"

definition execution_guards ::
  "'e exec_env \<Rightarrow> opportunity \<Rightarrow> candidate \<Rightarrow> 'p world \<Rightarrow> ('p world \<times> (mev_error + unit)) exec" where
  "execution_guards env opp c w =
     (let cost = adjusted_cost c in
      if over_budget (get_cached_balance (wd_breaker w)) cost
      then Some (w, Inl (SimulationFailed ''Gas cost exceeds safety budget cap''))
      else do {
        (bribe_pct, b) \<leftarrow> calculate_bribe (xe_rises env) (xe_instant env 0) (xe_instant env 1) (wd_mirror w) opp (wd_bidder w);
        let w = w\<lparr>wd_bidder := b\<rparr>;
        let execution_cost = cost + bribe_of (cd_net_profit c) bribe_pct;
        Some (w,
          if sr_profit (cd_sim c) \<le> execution_cost
          then Inl (SimulationFailed (''PROTECTION: Profit '' @ decimal (unat (sr_profit (cd_sim c))) @
            '' <= Total Cost '' @ decimal (unat execution_cost) @ '' (L1+L2+Bribe). Dropping to save gas budget.''))
          else if \<not> sr_success (cd_sim c)
          then Inl (SimulationFailed ''Local EVM Revert detected. Dropping bundle.'')
          else if cd_net_profit c < MIN_NET_PROFIT
          then Inl (SimulationFailed (''Scavenger Veto: Net profit '' @ decimal (unat (cd_net_profit c)) @
            '' < dynamic threshold''))
          else Inr ())
      })"

section \<open>Submission\<close>

definition str_contains :: "string \<Rightarrow> string \<Rightarrow> bool" where
  "str_contains hay needle = sublist needle hay"

definition ascii_lower :: "char \<Rightarrow> char" where
  "ascii_lower ch = (let n = of_char ch :: nat in if 65 \<le> n \<and> n \<le> 90 then char_of (n + 32) else ch)"

definition is_stale :: "string \<Rightarrow> bool" where
  "is_stale msg \<longleftrightarrow> str_contains msg ''already passed'' \<or> str_contains msg ''stale'' \<or> str_contains msg ''expired''"

definition rejection_kind :: "string \<Rightarrow> failure_type" where
  "rejection_kind msg =
     (if str_contains msg ''0x937c4424'' \<or> str_contains (map ascii_lower msg) ''zerolossshield''
      then Slippage else OtherFailure)"

definition accepted_by :: "broadcast_reply \<Rightarrow> nat" where
  "accepted_by replies = length (filter (\<lambda>r. case r of Inr _ \<Rightarrow> True | Inl _ \<Rightarrow> False) replies)"

definition MAX_RESILIENCE_ATTEMPTS :: nat where "MAX_RESILIENCE_ATTEMPTS = 2"

record submission =
  sb_rlp :: bytes
  sb_hash :: b256
  sb_bribe_wei :: u256
  sb_bribe_pct :: u32

definition bundle_for :: "submission \<Rightarrow> u64 \<Rightarrow> mev_bundle" where
  "bundle_for sb target_block =
     set_bribe (sb_bribe_wei sb) (bundle_new\<lparr>bu_target_block := target_block, bu_transactions := [sb_rlp sb]\<rparr>)"

function broadcast_loop ::
  "'e exec_env \<Rightarrow> opportunity \<Rightarrow> submission \<Rightarrow> u64 \<Rightarrow> nat \<Rightarrow> 'p world \<Rightarrow> 'p world \<times> (mev_error + b256)" where
  "broadcast_loop env opp sb target_block attempts w =
     (let bundle = bundle_for sb target_block;
          replies = xe_relays env bundle;
          w = w\<lparr>wd_sent := wd_sent w @ [bundle]\<rparr>
      in if accepted_by replies > 0
         then (w\<lparr>wd_bidder := bid_record_success (xe_instant env 4) opp (sb_bribe_pct sb) (wd_bidder w),
                 wd_breaker := record_success (wd_breaker w)\<rparr>, Inr (sb_hash sb))
         else
           let err_msg = xe_show env replies in
           if is_stale err_msg \<and> attempts < MAX_RESILIENCE_ATTEMPTS - 1
           then broadcast_loop env opp sb (target_block + 1) (attempts + 1) w
           else
             let (breaker, pause) = record_failure (xe_now env) (rejection_kind err_msg) (wd_breaker w, wd_global_pause w)
             in (w\<lparr>wd_breaker := breaker, wd_global_pause := pause,
                   wd_bidder := bid_record_failure opp (wd_bidder w)\<rparr>, Inl NoRelayAccepted))"
  by pat_completeness auto

termination
  by (relation "measure (\<lambda>(_, _, _, _, attempts, _). MAX_RESILIENCE_ATTEMPTS - attempts)") (auto simp: MAX_RESILIENCE_ATTEMPTS_def)

declare broadcast_loop.simps [simp del]

text \<open>The transaction: the bid is computed a second time, and raised by ten points against a known
  competitor; a nonce is taken.\<close>

definition prepare_tx ::
  "'e exec_env \<Rightarrow> opportunity \<Rightarrow> candidate \<Rightarrow> 'p world \<Rightarrow> (tx_request \<times> u32 \<times> 'p world) exec" where
  "prepare_tx env opp c w = do {
     let (base_fee, priority_fee, _) = current_fees (sm_gas_state (wd_mirror w));
     (bribe_pct, b) \<leftarrow> calculate_bribe (xe_rises env) (xe_instant env 2) (xe_instant env 3) (wd_mirror w) opp (wd_bidder w);
     let bribe_pct = (if is_predator_active opp then min MAX_BRIBE_PCT (bribe_pct + 10) else bribe_pct);
     suggested_priority \<leftarrow> suggest_priority_fee (wd_mirror w) opp b priority_fee;
     let max_fee = base_fee + suggested_priority;
     let (nonce, nonces) = nonce_next (wd_nonces w);
     max_fee_u128 \<leftarrow> narrow max_fee;
     priority_u128 \<leftarrow> narrow suggested_priority;
     Some (\<lparr>tq_to = fx_contract_address (wd_executor w), tq_from = xe_signer env, tq_input = cd_calldata c,
            tq_nonce = nonce, tq_access_list = sr_access_list (cd_sim c),
            tq_gas_limit = ucast (xe_scale env (sr_gas_used (cd_sim c)) + 10000),
            tq_max_fee = max_fee_u128, tq_max_priority_fee = priority_u128, tq_chain_id = xe_chain_id env\<rparr>,
          bribe_pct, w\<lparr>wd_bidder := b, wd_nonces := nonces\<rparr>)
   }"

definition submit ::
  "'e exec_env \<Rightarrow> opportunity \<Rightarrow> candidate \<Rightarrow> u64 \<Rightarrow> 'p world \<Rightarrow> ('p world \<times> (mev_error + b256)) exec" where
  "submit env opp c target_block w = do {
     (tx, bribe_pct, w) \<leftarrow> prepare_tx env opp c w;
     let bribe_wei = bribe_of (cd_net_profit c) bribe_pct;
     Some (case xe_sign env tx of
         Inl e \<Rightarrow> (w, Inl (Other (''FlashLoan Signing Failed: '' @ e)))
       | Inr (rlp, hash) \<Rightarrow>
           broadcast_loop env opp \<lparr>sb_rlp = rlp, sb_hash = hash, sb_bribe_wei = bribe_wei, sb_bribe_pct = bribe_pct\<rparr>
             target_block 0 w)
   }"

section \<open>The whole handler\<close>

definition lock_world :: "u64 \<Rightarrow> opportunity \<Rightarrow> 'p world \<Rightarrow> 'p world" where
  "lock_world target_block opp w =
     w\<lparr>wd_executor := (wd_executor w)\<lparr>fx_occupied_pools :=
         lock_pools target_block (op_id opp) (path_hops (op_path opp)) (fx_occupied_pools (wd_executor w))\<rparr>\<rparr>"

definition fetch_world :: "'e exec_env \<Rightarrow> opportunity \<Rightarrow> 'p world \<Rightarrow> 'p world" where
  "fetch_world env opp w =
     w\<lparr>wd_mirror := run_fetches (xe_code env) (fetch_tasks (wd_mirror w) (path_hops (op_path opp))) (wd_mirror w)\<rparr>"

definition vet_world :: "opportunity \<Rightarrow> 'p world \<Rightarrow> 'p world" where
  "vet_world opp w =
     w\<lparr>wd_executor := (wd_executor w)\<lparr>fx_vetted_tokens :=
         vet_tokens (path_hops (op_path opp)) (fx_vetted_tokens (wd_executor w))\<rparr>\<rparr>"

text \<open>From the validated tokens on: simulate, choose, guard, submit.\<close>

definition simulate_and_submit ::
  "'e exec_env \<Rightarrow> opportunity \<Rightarrow> u64 \<Rightarrow> 'p world \<Rightarrow> ('p world \<times> (mev_error + b256)) exec" where
  "simulate_and_submit env opp target_block w = do {
     best \<leftarrow> best_candidate env w opp;
     case best of
       None \<Rightarrow> Some (w, Inl (SimulationFailed ''No lender provided profitable/robust results''))
     | Some c \<Rightarrow> do {
         (w, guard) \<leftarrow> execution_guards env opp c w;
         case guard of
           Inl e \<Rightarrow> Some (w, Inl e)
         | Inr _ \<Rightarrow> submit env opp c target_block w
       }
   }"

text \<open>Freshness, wash trades, bytecodes, tokens.\<close>

definition validate_and_submit ::
  "'e exec_env \<Rightarrow> opportunity \<Rightarrow> u64 \<Rightarrow> 'p world \<Rightarrow> ('p world \<times> (mev_error + b256)) exec" where
  "validate_and_submit env opp target_block w =
     (let x = wd_executor w; hops = path_hops (op_path opp) in
      case verify_state_freshness (xe_now env) (wd_mirror w) of
        Inl e \<Rightarrow> Some (w, Inl e)
      | Inr _ \<Rightarrow>
        (case wash_check (xe_sim env LBalancer) (wd_mirror w) hops of
           Inl e \<Rightarrow> Some (w, Inl e)
         | Inr _ \<Rightarrow> do {
             _ \<leftarrow> (case fx_http_pool x of Some p \<Rightarrow> map_option (\<lambda>_. ()) (get_head p 1) | None \<Rightarrow> Some ());
             let w = fetch_world env opp w;
             validations \<leftarrow> validate_hops env (wd_mirror w) (fx_vetted_tokens x) (op_input_amount opp) hops;
             case first_error validations of
               Some e \<Rightarrow> Some (w, Inl e)
             | None \<Rightarrow> simulate_and_submit env opp target_block (vet_world opp w)
           }))"

definition simulate_and_execute ::
  "'e exec_env \<Rightarrow> opportunity \<Rightarrow> 'p world \<Rightarrow> ('p world \<times> (mev_error + b256)) exec" where
  "simulate_and_execute env opp w =
     (let x = wd_executor w; target_block = tracker_current (wd_tracker w) + 1 in
      if \<not> fx_has_builder x then Some (w, Inl (Other ''BundleBuilder missing''))
      else if is_open (xe_now env) (wd_breaker w) then Some (w, Inl CircuitBreakerOpen)
      else if collides target_block (path_hops (op_path opp)) (fx_occupied_pools x)
      then Some (w, Inl (Other ''Self-collision detected''))
      else validate_and_submit env opp target_block (lock_world target_block opp w))"

end
