(* ===== verification/Simulator_Facts.thy ===== *)
theory Simulator_Facts
  imports Simulator Bidding
begin

text \<open>
  What the simulator of \<open>Simulator\<close> concludes: the bytecode scan against the pattern it looks
  for, the guarantees of an accepted token, and two consequences of how the transactions are
  built, under documented behaviour of tokens and of the virtual machine.
\<close>

section \<open>Documented behaviour of the parameters\<close>

text \<open>A conforming token: \<open>balanceOf\<close> answers the balance as one word; a successful transfer
  moves the amount of its calldata between two accounts, an unsuccessful one nothing.\<close>

definition transfer_call :: "address \<Rightarrow> u256 \<Rightarrow> bytes" where
  "transfer_call to amount = [0xa9, 0x05, 0x9c, 0xbb] @ zeros 12 @ to_be_bytes to @ to_be_bytes amount"

definition moved :: "address \<Rightarrow> address \<Rightarrow> u256 \<Rightarrow> (address \<Rightarrow> u256) \<Rightarrow> address \<Rightarrow> u256" where
  "moved src dst amount bal a =
     (if src = dst then bal a else if a = src then bal a - amount else if a = dst then bal a + amount else bal a)"

definition conforming_token :: "'e sim_env \<Rightarrow> address \<Rightarrow> ('e \<Rightarrow> address \<Rightarrow> u256) \<Rightarrow> bool" where
  "conforming_token env token bal \<longleftrightarrow>
     (\<forall>account e. \<exists>gas al e'. ev_transact env (default_tx account token (balance_of_data account)) e =
        Inr (ExecSuccess gas (to_be_bytes (bal e account)), al, e')) \<and>
     (\<forall>src dst amount e res al e'.
        ev_transact env (default_tx src token (transfer_call dst amount)) e = Inr (res, al, e') \<longrightarrow>
        bal e' = (if is_success res then moved src dst amount (bal e) else bal e))"

text \<open>Accounts without code: a call without value to one leaves its balance alone; the database
  over the mirror has code exactly where the mirror does; setting an account or committing a
  transaction gives no code to the account \<open>a\<close>.\<close>

definition codeless_inert :: "'e sim_env \<Rightarrow> ('e \<Rightarrow> address \<Rightarrow> bool) \<Rightarrow> mirror \<Rightarrow> address \<Rightarrow> bool" where
  "codeless_inert env has_code sm a \<longleftrightarrow>
     (\<forall>spec. has_code (ev_open env spec sm) a \<longrightarrow> get_bytecode sm a \<noteq> None) \<and>
     (\<forall>e b w. has_code (ev_set_account env b w e) a \<longrightarrow> has_code e a) \<and>
     (\<forall>tx e. has_code (commit_quietly env tx e) a \<longrightarrow> has_code e a) \<and>
     (\<forall>tx e res al e'. et_transact_to tx = a \<longrightarrow> \<not> has_code e a \<longrightarrow> ev_transact env tx e = Inr (res, al, e') \<longrightarrow>
        balance_or_zero env a e' = balance_or_zero env a e)"

lemma codeless_inertD:
  assumes "codeless_inert env has_code sm a"
  shows "get_bytecode sm a = None \<Longrightarrow> \<not> has_code (ev_open env spec sm) a"
    and "\<not> has_code e a \<Longrightarrow> \<not> has_code (ev_set_account env b w e) a"
    and "\<not> has_code e a \<Longrightarrow> \<not> has_code (commit_quietly env tx e) a"
    and "et_transact_to tx = a \<Longrightarrow> \<not> has_code e a \<Longrightarrow> ev_transact env tx e = Inr (res, al, e') \<Longrightarrow>
      balance_or_zero env a e' = balance_or_zero env a e"
proof -
  note all = assms [unfolded codeless_inert_def]
  note facts = all [THEN conjunct1] all [THEN conjunct2, THEN conjunct1]
    all [THEN conjunct2, THEN conjunct2, THEN conjunct1] all [THEN conjunct2, THEN conjunct2, THEN conjunct2]
  show "get_bytecode sm a = None \<Longrightarrow> \<not> has_code (ev_open env spec sm) a" using facts(1) by blast
  show "\<not> has_code e a \<Longrightarrow> \<not> has_code (ev_set_account env b w e) a" using facts(2) by blast
  show "\<not> has_code e a \<Longrightarrow> \<not> has_code (commit_quietly env tx e) a" using facts(3) by blast
  show "et_transact_to tx = a \<Longrightarrow> \<not> has_code e a \<Longrightarrow> ev_transact env tx e = Inr (res, al, e') \<Longrightarrow>
      balance_or_zero env a e' = balance_or_zero env a e" using facts(4) by blast
qed

section \<open>Lemmas\<close>

lemma to_be_bytes_zero: "to_be_bytes (0 :: u256) = zeros 32"
proof -
  have "be_digits n 0 = replicate n 0" for n by (induction n) (simp_all add: replicate_append_same)
  then show ?thesis by (simp add: to_be_bytes_def zeros_def)
qed

lemma moved_zero: "moved src dst 0 bal = bal"
  by (simp add: moved_def fun_eq_iff)

lemma transfer_data_call: "transfer_data to amount = Some (transfer_call to 0)"
  by (simp add: transfer_data_zero transfer_call_def to_be_bytes_zero)

lemma conforming_balance:
  assumes "conforming_token env token bal"
  shows "get_erc20_balance env token account e = Some (Inr (bal e account))"
proof -
  obtain gas al e' where "ev_transact env (default_tx account token (balance_of_data account)) e =
      Inr (ExecSuccess gas (to_be_bytes (bal e account)), al, e')"
    using assms unfolding conforming_token_def by blast
  then show ?thesis by (simp add: get_erc20_balance_def from_be_slice_def)
qed

text \<open>A simulated transfer moves nothing of a conforming token.\<close>

lemma conforming_transfer:
  assumes "conforming_token env token bal"
    and "simulate_transfer env token src dst amount e = Some (Inr (res, e'))"
  shows "bal e' = bal e"
proof -
  obtain al where tx: "ev_transact env (default_tx src token (transfer_call dst 0)) e = Inr (res, al, e')"
    using assms(2) by (auto simp: simulate_transfer_def transfer_data_call split: sum.splits)
  have "\<forall>src dst amount e res al e'.
      ev_transact env (default_tx src token (transfer_call dst amount)) e = Inr (res, al, e') \<longrightarrow>
      bal e' = (if is_success res then moved src dst amount (bal e) else bal e)"
    using assms(1) unfolding conforming_token_def by (rule conjunct2)
  with tx have "bal e' = (if is_success res then moved src dst 0 (bal e) else bal e)" by blast
  then show ?thesis by (simp add: moved_zero)
qed

lemma simulate_transfer_Some: "simulate_transfer env token src dst amount e \<noteq> None"
  by (simp add: simulate_transfer_def transfer_data_call)

lemma noise_data_Some: "noise_data i to \<noteq> None"
  by (simp add: noise_data_def noise_v2_data_def Let_def)

text \<open>Noise and triggers are commits only.\<close>

lemma noise_round_keeps:
  assumes "\<forall>tx e. P e \<longrightarrow> P (commit_quietly env tx e)"
  shows "noise_round env i j hs e = Some e' \<Longrightarrow> P e \<Longrightarrow> P e'"
proof (induction hs arbitrary: j e)
  case (Cons h hs)
  then obtain tx where "noise_round env i (j + 1) hs (commit_quietly env tx e) = Some e'"
    by (auto simp: bind_eq_Some_conv)
  then show ?case using Cons.IH Cons.prems(2) assms by blast
qed simp

lemma noise_rounds_keeps:
  assumes "\<forall>tx e. P e \<longrightarrow> P (commit_quietly env tx e)"
  shows "noise_rounds env hops ks e = Some e' \<Longrightarrow> P e \<Longrightarrow> P e'"
proof (induction ks arbitrary: e)
  case (Cons i ks)
  then obtain e1 where e1: "noise_round env i 0 hops e = Some e1" "noise_rounds env hops ks e1 = Some e'"
    by (auto simp: bind_eq_Some_conv)
  have "P e1" by (rule noise_round_keeps [where P = P, OF assms e1(1) Cons.prems(2)])
  with e1(2) show ?case by (rule Cons.IH)
qed simp

lemma inject_triggers_keeps:
  "\<forall>tx e. P e \<longrightarrow> P (commit_quietly env tx e) \<Longrightarrow> P e \<Longrightarrow> P (inject_triggers env k txs e)"
  by (induction env k txs e rule: inject_triggers.induct) (auto simp: Let_def)

text \<open>The balance of an account without code does not move during a strategy run.\<close>

lemma earns_nothing:
  assumes "get_bytecode sm target = None" and "codeless_inert env has_code sm target"
    and "simulate_strategy env sm opp arb_data target branch eoa = Some (Inr r)"
  shows "sr_profit r = 0"
proof -
  let ?P = "\<lambda>e. \<not> has_code e target"
  note inert = codeless_inertD [OF assms(2)]
  have keep: "\<forall>tx e. ?P e \<longrightarrow> ?P (commit_quietly env tx e)" using inert(3) by blast
  have "?P (strategy_start env sm opp target eoa)"
    unfolding strategy_start_def Let_def
    by (rule inject_triggers_keeps [OF keep])
      (auto intro!: inert(1,2) assms(1) split: option.split)
  moreover from assms(3) obtain e where
    e: "inject_noise_transactions env opp branch (strategy_start env sm opp target eoa) = Some e"
       "run_arbitrage env arb_data target branch eoa e = Inr r"
    by (auto simp: simulate_strategy_def bind_eq_Some_conv)
  ultimately have "?P e"
    by (intro noise_rounds_keeps [where P = ?P, OF keep e(1) [unfolded inject_noise_transactions_def]])
  then have "balance_or_zero env target e' = balance_or_zero env target e"
    if "ev_transact env (default_tx eoa target arb_data\<lparr>et_gas_limit := SIMULATION_GAS_LIMIT\<rparr>) e = Inr (res, al, e')"
    for res al e'
    by (intro inert(4) [OF _ _ that]) (simp_all add: default_tx_def)
  with e(2) show ?thesis
    by (auto simp: run_arbitrage_def Let_def sat_sub_def split: sum.splits prod.splits exec_result.splits)
qed

section \<open>Concrete machines for the instances\<close>

text \<open>One conforming token: the database is its ledger, account 7 holds all of it.\<close>

definition ledger_env :: "(address \<Rightarrow> u256) sim_env" where
  "ledger_env =
     \<lparr>ev_open = (\<lambda>_ _ a. if a = 7 then 1000 else 0), ev_set_account = (\<lambda>_ _ e. e),
      ev_load = (\<lambda>_ _. Some 0),
      ev_transact = (\<lambda>tx e.
        let d = et_data tx; a = from_be_bytes (take 20 (drop 16 d)); amount = from_be_bytes (drop 36 d) in
        if take 4 d = [0x70, 0xa0, 0x82, 0x31] then Inr (ExecSuccess 0 (to_be_bytes (e a)), [], e)
        else if take 4 d = [0xa9, 0x05, 0x9c, 0xbb] \<and> amount \<le> e (et_caller tx)
        then Inr (ExecSuccess 21000 [], [], moved (et_caller tx) a amount e)
        else Inr (ExecOther, [], e)),
      rn_trigger = (\<lambda>_. 0), rn_noise_to = (\<lambda>_ _. 0), rn_noise_caller = (\<lambda>_ _. 0), rn_executor = 1,
      rn_recipient = 2, fmt_address = (\<lambda>_. [])\<rparr>"

lemma ledger_conforming: "conforming_token ledger_env token (\<lambda>e. e)"
proof -
  have call: "take 20 (drop 16 (balance_of_data a)) = to_be_bytes a" "take 4 (balance_of_data a) = [0x70, 0xa0, 0x82, 0x31]"
      "take 20 (drop 16 (transfer_call a w)) = to_be_bytes a" "drop 36 (transfer_call a w) = to_be_bytes w"
      "take 4 (transfer_call a w) = [0xa9, 0x05, 0x9c, 0xbb]" for a w
    by (simp_all add: balance_of_data_def transfer_call_def zeros_def)
  show ?thesis
    unfolding conforming_token_def
    by (auto simp: ledger_env_def default_tx_def Let_def call is_success_def split: if_splits)
qed

text \<open>A machine that only knows the code of the mirror, and whose calls change nothing.\<close>

definition inert_env :: "(address \<Rightarrow> bool) sim_env" where
  "inert_env =
     \<lparr>ev_open = (\<lambda>_ sm a. get_bytecode sm a \<noteq> None), ev_set_account = (\<lambda>_ _ e. e),
      ev_load = (\<lambda>_ _. Some 0), ev_transact = (\<lambda>_ e. Inr (ExecSuccess 21000 [], [(9, [])], e)),
      rn_trigger = (\<lambda>_. 0), rn_noise_to = (\<lambda>_ _. 0), rn_noise_caller = (\<lambda>_ _. 0), rn_executor = 1,
      rn_recipient = 2, fmt_address = (\<lambda>_. [])\<rparr>"

lemma inert_codeless: "codeless_inert inert_env (\<lambda>e. e) sm a"
  by (simp add: codeless_inert_def inert_env_def commit_quietly_def balance_or_zero_def)

section \<open>Properties\<close>

text \<open>C16 The bytecode scan accepts exactly the code without a \<open>SELFDESTRUCT\<close> byte, without a
  \<open>DELEGATECALL\<close> byte below 5000 bytes, without an \<open>ORIGIN\<close> byte below 3000 bytes, and, below 4000
  bytes, without the subsequence \<open>CALLER\<close>, \<open>SLOAD\<close>, \<open>REVERT\<close> or \<open>INVALID\<close>.\<close>

theorem xray_scan_exact:
  "xray_scan_bytecode sm token = Inr () \<longleftrightarrow>
     (case get_bytecode sm token of
        None \<Rightarrow> True
      | Some code \<Rightarrow>
          0xff \<notin> set code \<and> \<not> (length code < 5000 \<and> 0xf4 \<in> set code) \<and>
          \<not> (length code < 3000 \<and> 0x32 \<in> set code) \<and>
          \<not> (length code < 4000 \<and> (subseq [0x33, 0x54, 0xfd] code \<or> subseq [0x33, 0x54, 0xfe] code)))"
  by (auto simp: xray_scan_bytecode_def xray_loop_iff awaited_def split: option.split)

text \<open>C12 The honeypot check rejects every honest token: for a token outside the core list that
  conforms to the standard, whose fresh simulated account starts empty, \<open>check_honeypot\<close> always
  returns an error, whatever the pool and the amount. The simulated transfers carry amount zero,
  since the amount is never copied into the calldata.\<close>

theorem honest_token_rejected:
  assumes "token \<notin> CORE_TOKENS" and "conforming_token env token bal"
    and "bal (ev_set_account env (rn_executor env) ONE_ETHER (ev_open env DefaultSpec sm)) (rn_executor env) = 0"
  shows "\<exists>err. check_honeypot env sm token pool amount = Some (Inl err)"
proof -
  let ?e = "ev_set_account env (rn_executor env) ONE_ETHER (ev_open env DefaultSpec sm)"
  have "\<exists>err. buy_check env sm token pool amount ?e = Some (Inl err)"
  proof (cases "simulate_transfer env token pool (rn_executor env) amount ?e")
    case None
    then show ?thesis by (simp add: simulate_transfer_Some)
  next
    case (Some r)
    show ?thesis
    proof (cases r)
      case (Inl err)
      then show ?thesis using Some by (simp add: buy_check_def Let_def try_simps)
    next
      case (Inr re)
      then obtain res e' where re: "re = (res, e')" by (cases re)
      then have "bal e' (rn_executor env) = 0"
        using conforming_transfer [OF assms(2)] Some Inr assms(3) by simp
      then show ?thesis
        using Some Inr re conforming_balance [OF assms(2)]
        by (simp add: buy_check_def Let_def try_simps honeypot_def)
    qed
  qed
  then show ?thesis
    using assms(1) by (cases "xray_scan_bytecode sm token")
      (auto simp: check_honeypot_def honeypot_def try_simps)
qed


theorem honest_token_rejected_witness:
  "\<exists>err. check_honeypot ledger_env (mirror_new None None) 5 7 100 = Some (Inl err)"
  using honest_token_rejected [OF _ ledger_conforming, of 5 "mirror_new None None" 7 100]
  by (simp add: ledger_env_def CORE_TOKENS_def TOKEN_WETH_def TOKEN_USDC_def TOKEN_DAI_def)

text \<open>A simulation cannot see a profit of an executor contract whose code is not cached: when
  calls to accounts without code are inert, every branch reports profit zero.\<close>

theorem uncached_executor_earns_nothing:
  assumes "get_bytecode sm target = None" and "codeless_inert env has_code sm target"
    and "simulate_strategy env sm opp arb_data target branch eoa = Some (Inr r)"
  shows "sr_profit r = 0"
  using assms by (rule earns_nothing)

theorem uncached_executor_earns_nothing_witness:
  "\<exists>r. simulate_strategy inert_env fresh_mirror (plain_opportunity 1 0 None None) [1] 9 Tail 3 = Some (Inr r) \<and>
     sr_success r \<and> sr_profit r = 0"
proof -
  let ?sim = "simulate_strategy inert_env fresh_mirror (plain_opportunity 1 0 None None) [1] 9 Tail 3"
  have rounds: "noise_rounds env [] ks e = Some e" for env ks and e :: "address \<Rightarrow> bool" by (induction ks) simp_all
  obtain r where r: "?sim = Some (Inr r)" "sr_success r"
    by (simp add: simulate_strategy_def strategy_start_def inject_noise_transactions_def run_arbitrage_def
        rounds plain_opportunity_def inert_env_def Let_def)
  have "sr_profit r = 0"
    by (rule uncached_executor_earns_nothing [OF _ inert_codeless r(1)]) simp
  with r show ?thesis by blast
qed

text \<open>C37 An accepted token has been vetted: outside the core list neither the token nor the pool
  is poisoned, the scan has passed, the pool is deep enough, and the tax is at most 300 basis
  points, or 100 for the three AI tokens.\<close>

theorem accepted_token_vetted:
  assumes "check_honeypot env sm token pool amount = Some (Inr tax)"
  shows "tax \<le> MAX_ALLOWED_TAX_BPS \<and> (token \<in> CORE_TOKENS \<and> tax = 0 \<or>
    \<not> is_poisoned sm token \<and> \<not> is_poisoned sm pool \<and> xray_scan_bytecode sm token = Inr () \<and>
    \<not> too_shallow sm pool amount \<and> (is_ai_tax_token token \<longrightarrow> tax \<le> MAX_AI_TAX_BPS))"
proof (cases "token \<in> CORE_TOKENS")
  case True
  then show ?thesis using assms by (simp add: check_honeypot_def)
next
  case False
  let ?e = "ev_set_account env (rn_executor env) ONE_ETHER (ev_open env DefaultSpec sm)"
  from False assms have vetted: "\<not> is_poisoned sm token" "\<not> is_poisoned sm pool" "xray_scan_bytecode sm token = Inr ()"
      and buy: "buy_check env sm token pool amount ?e = Some (Inr tax)"
    by (auto simp: check_honeypot_def and_try_Some_Inr split: if_splits)
  from buy obtain r e where deep: "\<not> too_shallow sm pool amount" and sell: "sell_check env token pool amount r e = Some (Inr tax)"
    by (auto simp: buy_check_def Let_def and_try_Some_Inr split: if_splits sum.splits prod.splits)
  from sell obtain e' where "tax_check env token pool amount e' = Some (Inr tax)"
    by (auto simp: sell_check_def and_try_Some_Inr split: if_splits exec_result.splits)
  then have "tax \<le> (if is_ai_tax_token token then MAX_AI_TAX_BPS else MAX_ALLOWED_TAX_BPS)"
    by (auto simp: tax_check_def and_try_Some_Inr bind_eq_Some_conv Let_def not_less split: if_splits)
  then show ?thesis
    using vetted deep by (auto simp: MAX_AI_TAX_BPS_def MAX_ALLOWED_TAX_BPS_def split: if_splits intro: order_trans)
qed

text \<open>A machine that counts its committed transactions and answers every call with the count.\<close>

definition counter_env :: "nat sim_env" where
  "counter_env =
     \<lparr>ev_open = (\<lambda>_ _. 0), ev_set_account = (\<lambda>_ _ e. e), ev_load = (\<lambda>_ _. Some 0),
      ev_transact = (\<lambda>_ e. Inr (ExecSuccess 0 (to_be_bytes (of_nat (e + 1) :: u256)), [], e + 1)),
      rn_trigger = (\<lambda>_. 0), rn_noise_to = (\<lambda>_ _. 0), rn_noise_caller = (\<lambda>_ _. 0), rn_executor = 1,
      rn_recipient = 2, fmt_address = (\<lambda>_. [])\<rparr>"

theorem accepted_token_vetted_witness:
  "\<exists>tax. check_honeypot counter_env fresh_mirror 5 7 1 = Some (Inr tax) \<and> tax \<le> MAX_ALLOWED_TAX_BPS"
proof -
  have get: "get_erc20_balance counter_env t a e = Some (Inr (of_nat (e + 1)))" for t a e
    by (simp add: get_erc20_balance_def counter_env_def from_be_slice_def)
  have tr: "simulate_transfer counter_env t a b w e = Some (Inr (ExecSuccess 0 (to_be_bytes (of_nat (e + 1) :: u256)), e + 1))"
    for t a b w e by (simp add: simulate_transfer_def transfer_data_call counter_env_def)
  have "tax_check counter_env 5 7 1 3 = Some (Inr 0)"
    by (simp add: tax_check_def tr get try_simps is_success_def sat_sub_def u_div_def narrow_def Let_def MAX_ALLOWED_TAX_BPS_def MAX_AI_TAX_BPS_def)
  then have "sell_check counter_env 5 7 1 2 2 = Some (Inr 0)"
    by (simp add: sell_check_def tr get try_simps is_success_def)
  moreover have "ev_transact counter_env tx e = Inr (ExecSuccess 0 (to_be_bytes (of_nat (e + 1) :: u256)), [], e + 1)" for tx e
    by (simp add: counter_env_def)
  ultimately have "buy_check counter_env fresh_mirror 5 7 1 0 = Some (Inr 0)"
    by (simp add: buy_check_def tr get try_simps is_success_def Let_def too_shallow_def numeral_2_eq_2 [symmetric])
  moreover have "(5 :: address) \<notin> CORE_TOKENS"
    by (simp add: CORE_TOKENS_def TOKEN_WETH_def TOKEN_USDC_def TOKEN_DAI_def)
  moreover have "ev_set_account counter_env a w (ev_open counter_env spec m) = 0" for a w spec m
    by (simp add: counter_env_def)
  ultimately have ok: "check_honeypot counter_env fresh_mirror 5 7 1 = Some (Inr 0)"
    by (simp add: check_honeypot_def xray_scan_bytecode_def try_simps BLACKLISTED_TOKENS_def)
  then show ?thesis using accepted_token_vetted [OF ok] by blast
qed

text \<open>A token can end the process: if the simulated purchase succeeds and \<open>balanceOf\<close> then
  answers more than 32 bytes, the honeypot check panics instead of rejecting the token.\<close>

theorem long_balance_panics:
  assumes "token \<notin> CORE_TOKENS" and "\<not> is_poisoned sm token" and "\<not> is_poisoned sm pool"
    and "xray_scan_bytecode sm token = Inr ()" and "\<not> too_shallow sm pool amount"
    and "ev_transact env (default_tx pool token (transfer_call (rn_executor env) 0))
        (ev_set_account env (rn_executor env) ONE_ETHER (ev_open env DefaultSpec sm)) = Inr (ExecSuccess gas out, al, e1)"
    and "ev_transact env (default_tx (rn_executor env) token (balance_of_data (rn_executor env))) e1 =
        Inr (ExecSuccess gas' answer, al', e2)"
    and "length answer > 32"
  shows "check_honeypot env sm token pool amount = None"
proof -
  let ?e = "ev_set_account env (rn_executor env) ONE_ETHER (ev_open env DefaultSpec sm)"
  have "simulate_transfer env token pool (rn_executor env) amount ?e = Some (Inr (ExecSuccess gas out, e1))"
    using assms(6) by (simp add: simulate_transfer_def transfer_data_call)
  moreover have "get_erc20_balance env token (rn_executor env) e1 = None"
    using assms(7,8) by (simp add: get_erc20_balance_def from_be_slice_def)
  ultimately have "buy_check env sm token pool amount ?e = None"
    using assms(5) by (simp add: buy_check_def Let_def try_simps is_success_def)
  then show ?thesis
    using assms(1-4) by (simp add: check_honeypot_def try_simps BLACKLISTED_TOKENS_def)
qed

theorem long_balance_panics_witness:
  "check_honeypot (counter_env\<lparr>ev_transact := (\<lambda>_ e. Inr (ExecSuccess 0 (zeros 64), [], e + 1))\<rparr>)
     fresh_mirror 5 7 1 = None"
  by (rule long_balance_panics [where answer = "zeros 64" and gas = 0 and out = "zeros 64" and al = "[]" and ?e1.0 = 1
        and gas' = 0 and al' = "[]" and ?e2.0 = 2])
    (simp_all add: counter_env_def CORE_TOKENS_def TOKEN_WETH_def TOKEN_USDC_def TOKEN_DAI_def
      xray_scan_bytecode_def too_shallow_def zeros_def)

end
