(* ===== verification/Executor_Facts.thy ===== *)
theory Executor_Facts
  imports Flash_Executor Simulator_Facts
begin

text \<open>
  What the executor of \<open>Flash_Executor\<close> guarantees about every bundle it sends, what it leaves
  behind on its error paths, and how its guards compose with the simulator.
\<close>

section \<open>The broadcast\<close>

text \<open>Everything but the outcome, the bidder and the log of bundles is untouched.\<close>

definition same_frame :: "'p world \<Rightarrow> 'p world \<Rightarrow> bool" where
  "same_frame w w' \<longleftrightarrow> wd_executor w' = wd_executor w \<and> wd_mirror w' = wd_mirror w \<and>
     wd_tracker w' = wd_tracker w \<and> wd_scalars w' = wd_scalars w"

lemma same_frame_trans [trans]: "same_frame w1 w2 \<Longrightarrow> same_frame w2 w3 \<Longrightarrow> same_frame w1 w3"
  by (simp add: same_frame_def)

text \<open>A first broadcast ends the loop, or a second one at the next block does.\<close>

definition broadcast_end :: "'e exec_env \<Rightarrow> opportunity \<Rightarrow> submission \<Rightarrow> u64 \<Rightarrow> 'p world \<Rightarrow> 'p world \<times> (mev_error + b256)" where
  "broadcast_end env opp sb target_block w =
     (let replies = xe_relays env (bundle_for sb target_block);
          w = w\<lparr>wd_sent := wd_sent w @ [bundle_for sb target_block]\<rparr>
      in if accepted_by replies > 0
         then (w\<lparr>wd_bidder := bid_record_success (xe_instant env 4) opp (sb_bribe_pct sb) (wd_bidder w),
                 wd_breaker := record_success (wd_breaker w)\<rparr>, Inr (sb_hash sb))
         else
           let (breaker, pause) = record_failure (xe_now env) (rejection_kind (xe_show env replies))
                 (wd_breaker w, wd_global_pause w)
           in (w\<lparr>wd_breaker := breaker, wd_global_pause := pause,
                 wd_bidder := bid_record_failure opp (wd_bidder w)\<rparr>, Inl NoRelayAccepted))"

lemma broadcast_loop_cases:
  "broadcast_loop env opp sb tb 0 w =
     (let replies = xe_relays env (bundle_for sb tb) in
      if accepted_by replies = 0 \<and> is_stale (xe_show env replies)
      then broadcast_end env opp sb (tb + 1) (w\<lparr>wd_sent := wd_sent w @ [bundle_for sb tb]\<rparr>)
      else broadcast_end env opp sb tb w)"
proof -
  have last: "broadcast_loop env opp sb t (Suc 0) v = broadcast_end env opp sb t v" for t v
    by (subst broadcast_loop.simps) (simp add: broadcast_end_def Let_def MAX_RESILIENCE_ATTEMPTS_def)
  show ?thesis
    by (subst broadcast_loop.simps)
      (auto simp: last broadcast_end_def Let_def MAX_RESILIENCE_ATTEMPTS_def)
qed

lemma broadcast_end_frame:
  "same_frame w (fst (broadcast_end env opp sb tb w)) \<and>
   wd_nonces (fst (broadcast_end env opp sb tb w)) = wd_nonces w \<and>
   wd_sent (fst (broadcast_end env opp sb tb w)) = wd_sent w @ [bundle_for sb tb]"
  by (auto simp: broadcast_end_def same_frame_def Let_def split: prod.split)

lemma broadcast_frame:
  "same_frame w (fst (broadcast_loop env opp sb tb 0 w)) \<and>
   wd_nonces (fst (broadcast_loop env opp sb tb 0 w)) = wd_nonces w \<and>
   (wd_sent (fst (broadcast_loop env opp sb tb 0 w)) = wd_sent w @ [bundle_for sb tb] \<or>
    wd_sent (fst (broadcast_loop env opp sb tb 0 w)) = wd_sent w @ [bundle_for sb tb, bundle_for sb (tb + 1)])"
proof (cases "accepted_by (xe_relays env (bundle_for sb tb)) = 0 \<and> is_stale (xe_show env (xe_relays env (bundle_for sb tb)))")
  case True
  let ?w = "w\<lparr>wd_sent := wd_sent w @ [bundle_for sb tb]\<rparr>"
  have "broadcast_loop env opp sb tb 0 w = broadcast_end env opp sb (tb + 1) ?w"
    unfolding broadcast_loop_cases Let_def using True by (rule if_P)
  then show ?thesis
    using broadcast_end_frame [of ?w env opp sb "tb + 1"] by (simp add: same_frame_def)
next
  case False
  have "broadcast_loop env opp sb tb 0 w = broadcast_end env opp sb tb w"
    unfolding broadcast_loop_cases Let_def using False by (rule if_not_P)
  then show ?thesis
    using broadcast_end_frame [of w env opp sb tb] by simp
qed

lemma broadcast_sends: "wd_sent (fst (broadcast_loop env opp sb tb 0 w)) \<noteq> []"
  using broadcast_frame [of w env opp sb tb] by (metis append_is_Nil_conv list.distinct(1))

section \<open>Guards and submission\<close>

lemma guards_frame:
  assumes "execution_guards env opp c w = Some (w', g)"
  shows "same_frame w w' \<and> wd_nonces w' = wd_nonces w \<and> wd_sent w' = wd_sent w \<and> wd_breaker w' = wd_breaker w"
  using assms
  by (auto simp: execution_guards_def same_frame_def Let_def bind_eq_Some_conv split: if_splits)

lemma guards_pass:
  assumes "execution_guards env opp c w = Some (w', Inr ())"
  shows "\<not> over_budget (cb_current_balance (wd_breaker w)) (adjusted_cost c) \<and> sr_success (cd_sim c) \<and>
    MIN_NET_PROFIT \<le> cd_net_profit c \<and>
    (\<exists>pct b. calculate_bribe (xe_rises env) (xe_instant env 0) (xe_instant env 1) (wd_mirror w) opp (wd_bidder w) = Some (pct, b) \<and>
       adjusted_cost c + bribe_of (cd_net_profit c) pct < sr_profit (cd_sim c))"
  using assms
  by (auto simp: execution_guards_def get_cached_balance_def Let_def bind_eq_Some_conv not_le not_less split: if_splits)

lemma prepare_frame:
  "prepare_tx env opp c w = Some (tx, pct, v) \<Longrightarrow>
     same_frame w v \<and> nm_current (wd_nonces v) = nm_current (wd_nonces w) + 1 \<and> wd_sent v = wd_sent w \<and>
     tq_nonce tx = nm_current (wd_nonces w) \<and> tq_to tx = fx_contract_address (wd_executor w)"
  by (auto simp: prepare_tx_def nonce_next_def same_frame_def Let_def bind_eq_Some_conv split: prod.splits)

lemma submit_outcome:
  assumes "submit env opp c tb w = Some (w', r)"
  shows "same_frame w w' \<and> nm_current (wd_nonces w') = nm_current (wd_nonces w) + 1 \<and>
    (wd_sent w' = wd_sent w \<or> (\<exists>sb. wd_sent w' = wd_sent w @ [bundle_for sb tb] \<or>
      wd_sent w' = wd_sent w @ [bundle_for sb tb, bundle_for sb (tb + 1)]))"
proof -
  from assms obtain tx pct v where v: "prepare_tx env opp c w = Some (tx, pct, v)"
      and r: "(w', r) = (case xe_sign env tx of
         Inl e \<Rightarrow> (v, Inl (Other (''FlashLoan Signing Failed: '' @ e)))
       | Inr (rlp, hash) \<Rightarrow> broadcast_loop env opp \<lparr>sb_rlp = rlp, sb_hash = hash,
           sb_bribe_wei = bribe_of (cd_net_profit c) pct, sb_bribe_pct = pct\<rparr> tb 0 v)"
    by (auto simp: submit_def bind_eq_Some_conv)
  note frame = prepare_frame [OF v]
  show ?thesis
  proof (cases "xe_sign env tx")
    case (Inl e)
    then show ?thesis using r frame by simp
  next
    case (Inr p)
    then obtain sb where "(w', r) = broadcast_loop env opp sb tb 0 v"
      using r by (cases p) simp
    then have w': "w' = fst (broadcast_loop env opp sb tb 0 v)" by (metis fst_conv)
    show ?thesis
      using broadcast_frame [of v env opp sb tb] frame unfolding w' [symmetric]
      by (auto intro: same_frame_trans)
  qed
qed

section \<open>The candidate\<close>

definition candidate_ok :: "u256 \<Rightarrow> candidate \<Rightarrow> bool" where
  "candidate_ok min_profit c \<longleftrightarrow> sr_success (cd_sim c) \<and> min_profit \<le> sr_profit (cd_sim c) \<and>
     cd_net_profit c = sat_sub (sr_profit (cd_sim c)) (cd_l1_fee c + cd_l2_fee c)"

lemma consider_result_ok:
  assumes "consider_result min_profit l1 price l calldata results best = Some (Some c)"
    and "\<forall>b. best = Some b \<longrightarrow> candidate_ok min_profit b"
  shows "candidate_ok min_profit c"
  using assms
  by (auto simp: consider_result_def candidate_ok_def Let_def bind_eq_Some_conv split: list.splits if_splits option.splits)

lemma consider_result_none:
  assumes "\<And>r. r \<in> set results \<Longrightarrow> sr_profit r < min_profit"
  shows "consider_result min_profit l1 price l calldata results best = Some best"
  using assms by (auto simp: consider_result_def not_less [symmetric] split: list.splits)

lemma best_candidate_ok:
  assumes "best_candidate env w opp = Some (Some c)"
  shows "candidate_ok (fx_min_profit_wei (wd_executor w)) c"
proof -
  obtain base_fee priority_fee mx where fees: "current_fees (sm_gas_state (wd_mirror w)) = (base_fee, priority_fee, mx)"
    by (cases "current_fees (sm_gas_state (wd_mirror w))") auto
  from assms obtain l1 price d d' rs rs' best where
    first: "consider_result (fx_min_profit_wei (wd_executor w)) l1 price LBalancer d rs None = Some best" and
    second: "consider_result (fx_min_profit_wei (wd_executor w)) l1 price LAaveV3 d' rs' best = Some (Some c)"
    by (auto simp: best_candidate_def fees Let_def bind_eq_Some_conv)
  from first have "\<forall>b. best = Some b \<longrightarrow> candidate_ok (fx_min_profit_wei (wd_executor w)) b"
    using consider_result_ok [where best = None] by blast
  with second show ?thesis by (rule consider_result_ok)
qed

lemma best_candidate_none:
  assumes "\<And>l d a rs q. run_branch_simulation (xe_sim env l) (wd_mirror w) opp d (fx_contract_address (wd_executor w)) a = Some rs \<Longrightarrow>
      q \<in> set rs \<Longrightarrow> sr_profit q < fx_min_profit_wei (wd_executor w)"
    and "best_candidate env w opp = Some best"
  shows "best = None"
proof -
  obtain base_fee priority_fee mx where fees: "current_fees (sm_gas_state (wd_mirror w)) = (base_fee, priority_fee, mx)"
    by (cases "current_fees (sm_gas_state (wd_mirror w))") auto
  from assms(2) obtain d d' a rs rs' l1 price mid where
    rs: "run_branch_simulation (xe_sim env LBalancer) (wd_mirror w) opp d (fx_contract_address (wd_executor w)) a = Some rs"
    "run_branch_simulation (xe_sim env LAaveV3) (wd_mirror w) opp d' (fx_contract_address (wd_executor w)) a = Some rs'"
    "consider_result (fx_min_profit_wei (wd_executor w)) l1 price LBalancer d rs None = Some mid"
    "consider_result (fx_min_profit_wei (wd_executor w)) l1 price LAaveV3 d' rs' mid = Some best"
    by (auto simp: best_candidate_def fees Let_def bind_eq_Some_conv)
  then have "mid = None" using consider_result_none assms(1) [OF rs(1)] by (metis option.inject)
  with rs show ?thesis using consider_result_none assms(1) [OF rs(2)] by (metis option.inject)
qed

section \<open>The stages of the handler\<close>

definition target_of :: "'p world \<Rightarrow> u64" where
  "target_of w = tracker_current (wd_tracker w) + 1"

definition opp_hops :: "opportunity \<Rightarrow> hop list" where
  "opp_hops opp = path_hops (op_path opp)"

definition admitted :: "'e exec_env \<Rightarrow> opportunity \<Rightarrow> 'p world \<Rightarrow> bool" where
  "admitted env opp w \<longleftrightarrow> fx_has_builder (wd_executor w) \<and> \<not> is_open (xe_now env) (wd_breaker w) \<and>
     \<not> collides (target_of w) (opp_hops opp) (fx_occupied_pools (wd_executor w))"

definition ready_world :: "'e exec_env \<Rightarrow> opportunity \<Rightarrow> 'p world \<Rightarrow> 'p world" where
  "ready_world env opp w = vet_world opp (fetch_world env opp (lock_world (target_of w) opp w))"

definition vetted_path :: "'e exec_env \<Rightarrow> opportunity \<Rightarrow> 'p world \<Rightarrow> bool" where
  "vetted_path env opp w \<longleftrightarrow> verify_state_freshness (xe_now env) (wd_mirror w) = Inr () \<and>
     wash_check (xe_sim env LBalancer) (wd_mirror w) (opp_hops opp) = Inr () \<and>
     (\<exists>vs. validate_hops env (wd_mirror (ready_world env opp w)) (fx_vetted_tokens (wd_executor w))
        (op_input_amount opp) (opp_hops opp) = Some vs \<and> first_error vs = None)"

lemma lock_world_simps [simp]:
  "wd_mirror (lock_world tb opp w) = wd_mirror w" "wd_breaker (lock_world tb opp w) = wd_breaker w"
  "wd_nonces (lock_world tb opp w) = wd_nonces w" "wd_sent (lock_world tb opp w) = wd_sent w"
  "wd_tracker (lock_world tb opp w) = wd_tracker w"
  "fx_has_builder (wd_executor (lock_world tb opp w)) = fx_has_builder (wd_executor w)"
  by (simp_all add: lock_world_def)

lemma ready_world_simps [simp]:
  "wd_breaker (ready_world env opp w) = wd_breaker w" "wd_nonces (ready_world env opp w) = wd_nonces w"
  "wd_sent (ready_world env opp w) = wd_sent w" "wd_tracker (ready_world env opp w) = wd_tracker w"
  "wd_bidder (ready_world env opp w) = wd_bidder w"
  "fx_has_builder (wd_executor (ready_world env opp w)) = fx_has_builder (wd_executor w)"
  "fx_min_profit_wei (wd_executor (ready_world env opp w)) = fx_min_profit_wei (wd_executor w)"
  "fx_contract_address (wd_executor (ready_world env opp w)) = fx_contract_address (wd_executor w)"
  "fx_occupied_pools (wd_executor (ready_world env opp w)) =
     lock_pools (target_of w) (op_id opp) (opp_hops opp) (fx_occupied_pools (wd_executor w))"
  by (simp_all add: ready_world_def vet_world_def fetch_world_def lock_world_def opp_hops_def)

lemma ready_mirror:
  "wd_mirror (ready_world env opp w) = run_fetches (xe_code env) (fetch_tasks (wd_mirror w) (opp_hops opp)) (wd_mirror w)"
  by (simp add: ready_world_def vet_world_def fetch_world_def lock_world_def opp_hops_def)

text \<open>Either nothing happens, or the pools are locked and nothing else of interest happens, or the
  simulation starts.\<close>

lemma execute_stages:
  assumes "simulate_and_execute env opp w = Some (w', r)"
  shows "\<not> admitted env opp w \<and> w' = w \<and>
      r \<in> {Inl (Other ''BundleBuilder missing''), Inl CircuitBreakerOpen, Inl (Other ''Self-collision detected'')} \<or>
    admitted env opp w \<and> (\<exists>m e. w' = (lock_world (target_of w) opp w)\<lparr>wd_mirror := m\<rparr> \<and> r = Inl e \<and>
      m \<in> {wd_mirror w, wd_mirror (ready_world env opp w)}) \<or>
    admitted env opp w \<and> vetted_path env opp w \<and>
      simulate_and_submit env opp (target_of w) (ready_world env opp w) = Some (w', r)"
proof (cases "admitted env opp w")
  case False
  then show ?thesis
    using assms by (auto simp: simulate_and_execute_def admitted_def target_of_def opp_hops_def Let_def split: if_splits)
next
  case True
  let ?l = "lock_world (target_of w) opp w"
  have run: "validate_and_submit env opp (target_of w) ?l = Some (w', r)"
    using assms True by (simp add: simulate_and_execute_def admitted_def target_of_def opp_hops_def Let_def)
  have keep: "?l = ?l\<lparr>wd_mirror := wd_mirror w\<rparr>"
      "fetch_world env opp ?l = ?l\<lparr>wd_mirror := wd_mirror (ready_world env opp w)\<rparr>"
    by (simp_all add: fetch_world_def ready_world_def vet_world_def lock_world_def)
  have vetted: "fx_vetted_tokens (wd_executor ?l) = fx_vetted_tokens (wd_executor w)"
    by (simp add: lock_world_def)
  from run consider
      e where "w' = ?l" "r = Inl e"
    | e where "w' = fetch_world env opp ?l" "r = Inl e"
    | vs where "verify_state_freshness (xe_now env) (wd_mirror w) = Inr ()"
        "wash_check (xe_sim env LBalancer) (wd_mirror w) (opp_hops opp) = Inr ()"
        "validate_hops env (wd_mirror (fetch_world env opp ?l)) (fx_vetted_tokens (wd_executor w))
           (op_input_amount opp) (opp_hops opp) = Some vs" "first_error vs = None"
        "simulate_and_submit env opp (target_of w) (vet_world opp (fetch_world env opp ?l)) = Some (w', r)"
  proof -
    let ?hops = "path_hops (op_path opp)" and ?f = "fetch_world env opp ?l"
    show ?thesis
    proof (cases "verify_state_freshness (xe_now env) (wd_mirror w)"; cases "wash_check (xe_sim env LBalancer) (wd_mirror w) ?hops")
      fix u v
      assume fresh: "verify_state_freshness (xe_now env) (wd_mirror w) = Inr u"
        and wash: "wash_check (xe_sim env LBalancer) (wd_mirror w) ?hops = Inr v"
      with run obtain vs where
        vs: "validate_hops env (wd_mirror ?f) (fx_vetted_tokens (wd_executor w)) (op_input_amount opp) ?hops = Some vs"
        and rest: "(case first_error vs of Some e \<Rightarrow> Some (?f, Inl e)
           | None \<Rightarrow> simulate_and_submit env opp (target_of w) (vet_world opp ?f)) = Some (w', r)"
        by (auto simp: validate_and_submit_def vetted Let_def bind_eq_Some_conv)
      show ?thesis
      proof (cases "first_error vs")
        case None
        then show ?thesis using fresh wash vs rest by (intro that(3)) (simp_all add: opp_hops_def)
      next
        case (Some e)
        then show ?thesis using rest by (intro that(2)) auto
      qed
    qed (use run in \<open>auto simp: validate_and_submit_def intro: that(1)\<close>)
  qed
  then show ?thesis
  proof cases
    case 1
    then show ?thesis using True keep(1) by blast
  next
    case 2
    then show ?thesis using True keep(2) by blast
  next
    case 3
    have "wd_mirror (ready_world env opp w) = wd_mirror (fetch_world env opp ?l)"
      by (simp add: ready_world_def vet_world_def)
    with 3 have "vetted_path env opp w" by (auto simp: vetted_path_def)
    with 3(5) True show ?thesis by (simp add: ready_world_def)
  qed
qed

lemma simulate_and_submit_stages:
  assumes "simulate_and_submit env opp tb w = Some (w', r)"
  shows "same_frame w w' \<and>
    ((\<exists>e. r = Inl e) \<and> wd_sent w' = wd_sent w \<and> wd_nonces w' = wd_nonces w \<or>
     (\<exists>c v. best_candidate env w opp = Some (Some c) \<and> execution_guards env opp c w = Some (v, Inr ()) \<and>
        submit env opp c tb v = Some (w', r)))"
proof -
  from assms consider e where "w' = w" "r = Inl e"
    | c e where "best_candidate env w opp = Some (Some c)" "execution_guards env opp c w = Some (w', Inl e)" "r = Inl e"
    | c v where "best_candidate env w opp = Some (Some c)" "execution_guards env opp c w = Some (v, Inr ())"
        "submit env opp c tb v = Some (w', r)"
  proof -
    from assms obtain best where best: "best_candidate env w opp = Some best"
      by (auto simp: simulate_and_submit_def bind_eq_Some_conv)
    show ?thesis
    proof (cases best)
      case None
      then show ?thesis using assms best by (intro that(1)) (auto simp: simulate_and_submit_def)
    next
      case (Some c)
      with assms best obtain v g where g: "execution_guards env opp c w = Some (v, g)"
        by (auto simp: simulate_and_submit_def bind_eq_Some_conv)
      then show ?thesis
        using assms best Some that(2,3) by (cases g) (auto simp: simulate_and_submit_def)
    qed
  qed
  then show ?thesis
  proof cases
    case 1
    then show ?thesis by (simp add: same_frame_def)
  next
    case 2
    then show ?thesis using guards_frame by blast
  next
    case 3
    then show ?thesis using guards_frame submit_outcome same_frame_trans by metis
  qed
qed

section \<open>Locks\<close>

lemma collides_iff: "collides block hs m \<longleftrightarrow> (\<exists>h \<in> set hs. dm_contains m (block, hop_pool_address h))"
  by (induction hs) auto

lemma lock_pools_contains:
  "dm_contains (lock_pools block i hs m) k \<longleftrightarrow> dm_contains m k \<or> (\<exists>h \<in> set hs. k = (block, hop_pool_address h))"
  by (induction hs arbitrary: m) (auto simp: dm_contains_def lookup_update split: if_splits)

lemma execute_locks:
  assumes "simulate_and_execute env opp w = Some (w', r)" and "admitted env opp w"
  shows "fx_occupied_pools (wd_executor w') =
      lock_pools (target_of w) (op_id opp) (opp_hops opp) (fx_occupied_pools (wd_executor w)) \<and>
    fx_has_builder (wd_executor w') \<and> wd_tracker w' = wd_tracker w"
  using execute_stages [OF assms(1)]
proof (elim disjE)
  assume "admitted env opp w \<and> vetted_path env opp w \<and>
      simulate_and_submit env opp (target_of w) (ready_world env opp w) = Some (w', r)"
  then have "same_frame (ready_world env opp w) w'" using simulate_and_submit_stages by blast
  then show ?thesis using assms(2) by (simp add: same_frame_def admitted_def)
qed (use assms(2) in \<open>auto simp: admitted_def lock_world_def opp_hops_def\<close>)

section \<open>Bytecodes of other accounts\<close>

lemma fetch_other: "a \<noteq> b \<Longrightarrow> get_bytecode (fetch_and_cache_bytecode code a sm) b = get_bytecode sm b"
  by (simp add: fetch_and_cache_bytecode_def get_bytecode_def lookup_update split: option.split)

lemma run_fetches_other:
  "b \<notin> set tasks \<Longrightarrow> get_bytecode (run_fetches code tasks sm) b = get_bytecode sm b"
  by (induction tasks arbitrary: sm) (auto simp: run_fetches_def fetch_other)

lemma fetch_tasks_subset: "set (fetch_tasks sm hs) \<subseteq> hop_token_out ` set hs \<union> hop_pool_address ` set hs"
  by (induction hs) auto

lemma run_branches_all:
  assumes "\<And>b r. sim b = Some (Inr r) \<Longrightarrow> P r"
  shows "run_branches sim bs = Some rs \<Longrightarrow> r \<in> set rs \<Longrightarrow> P r"
proof (induction bs arbitrary: rs)
  case (Cons b bs)
  then obtain q qs where "sim b = Some q" "run_branches sim bs = Some qs"
      "rs = (case q of Inr res \<Rightarrow> res # qs | Inl _ \<Rightarrow> qs)"
    by (auto simp: bind_eq_Some_conv)
  with Cons assms show ?case by (cases q) auto
qed simp

section \<open>Concrete instances\<close>

definition sample_hop :: hop where
  "sample_hop =
     \<lparr>hop_pool = 7, hop_pool_address = 7, hop_pool_address_label = None, hop_token_in = TOKEN_USDC,
      hop_token_out = TOKEN_WETH, hop_dex_type = UniswapV2, hop_dex_name = NameUniswapV2,
      hop_zero_for_one = True, hop_is_stable = False, hop_fee = None, hop_static_calldata = [],
      hop_gas_cost = 0, hop_id = [], hop_success_prob = 0\<rparr>"

definition sample_opp :: opportunity where
  "sample_opp = (plain_opportunity (10 ^ 15) 0 None None)
     \<lparr>op_path := \<lparr>path_hops = [sample_hop], path_hash = 0, path_total_gas = 0\<rparr>\<rparr>"

lemma sample_opp_simps [simp]:
  "path_hops (op_path sample_opp) = [sample_hop]" "op_pending_txs sample_opp = []"
  "op_expected_profit sample_opp = 10 ^ 15" "op_trigger_sender sample_opp = None"
  "op_trigger_gas_price sample_opp = None" "op_is_whale_trigger sample_opp = False"
  "hop_token_out sample_hop = TOKEN_WETH" "hop_token_in sample_hop = TOKEN_USDC"
  "hop_pool_address sample_hop = 7"
  by (simp_all add: sample_opp_def plain_opportunity_def sample_hop_def)

definition sample_world :: "unit world" where
  "sample_world =
     \<lparr>wd_executor = \<lparr>fx_contract_address = 9, fx_min_profit_wei = 10 ^ 14, fx_chain = Base, fx_has_builder = True,
        fx_bribe_percent = 90, fx_occupied_pools = DAList.empty, fx_http_pool = None, fx_vetted_tokens = DAList.empty\<rparr>,
      wd_bidder = bidder_new 0, wd_breaker = breaker_new 5 30, wd_global_pause = False,
      wd_nonces = \<lparr>nm_current = 12, nm_address = 3\<rparr>, wd_mirror = fresh_mirror, wd_scalars = initial_scalars,
      wd_tracker = tracker_new, wd_sent = []\<rparr>"

definition sample_env :: "'e sim_env \<Rightarrow> 'e exec_env" where
  "sample_env sim =
     \<lparr>xe_now = 0, xe_instant = (\<lambda>_. 0), xe_rises = (\<lambda>_ _. False), xe_sim = (\<lambda>_. sim), xe_check = (\<lambda>_. sim),
      xe_code = (\<lambda>_. None), xe_scale = (\<lambda>g. g), xe_abi = (\<lambda>d. d), xe_signer = 3, xe_chain_id = 8453,
      xe_sign = (\<lambda>_. Inr ([1], 42)), xe_relays = (\<lambda>_. [Inr ()]), xe_show = (\<lambda>_. [])\<rparr>"

text \<open>A machine in which every call succeeds and earns every account 0.001 ether.\<close>

definition earning_env :: "nat sim_env" where
  "earning_env = counter_env\<lparr>ev_load := (\<lambda>_ e. Some (of_nat e * 10 ^ 15)),
     ev_transact := (\<lambda>_ e. Inr (ExecSuccess 100000 [], [], e + 1))\<rparr>"

lemma earning_noise: "noise_rounds earning_env hops ks e = Some (e + length ks * length hops)"
proof -
  have commit: "commit_quietly earning_env tx e = e + 1" for tx e
    by (simp add: commit_quietly_def earning_env_def)
  have tx: "\<exists>t. noise_tx env i j h = Some t" for env :: "nat sim_env" and i j h
    using noise_data_Some by (auto simp: noise_tx_def bind_eq_Some_conv)
  have round: "noise_round earning_env i j hs e = Some (e + length hs)" for i j hs e
  proof (induction hs arbitrary: j e)
    case (Cons h hs)
    obtain t where "noise_tx earning_env i j h = Some t" using tx by blast
    with Cons show ?case by (simp add: commit)
  qed simp
  show ?thesis by (induction ks arbitrary: e) (simp_all add: round)
qed

lemma earning_run:
  "run_branch_simulation earning_env sm sample_opp d 9 3 =
     Some (map (\<lambda>b. \<lparr>sr_profit = 10 ^ 15, sr_gas_used = 100000, sr_branch = b, sr_success = True, sr_access_list = []\<rparr>)
       [Top, Mid, Tail])"
proof -
  have start: "strategy_start earning_env sm sample_opp 9 3 = 0"
    by (simp add: strategy_start_def earning_env_def counter_env_def)
  have arb: "run_arbitrage earning_env d 9 b 3 e =
      Inr \<lparr>sr_profit = sat_sub (of_nat (e + 1) * 10 ^ 15) (of_nat e * 10 ^ 15), sr_gas_used = 100000, sr_branch = b,
           sr_success = True, sr_access_list = []\<rparr>" for b e
    by (simp add: run_arbitrage_def balance_or_zero_def earning_env_def)
  show ?thesis
    by (simp add: run_branch_simulation_def simulate_strategy_def inject_noise_transactions_def start arb
        earning_noise noise_intensity_def sat_sub_def)
qed

lemma sample_bribe:
  "calculate_bribe rises 0 0 fresh_mirror sample_opp (bidder_new 0) = Some (10, bidder_new 0)"
  by (simp add: calculate_bribe_def decay_pressure_def secs_since_def bidder_new_def path_contains_ai_def
      is_predator_active_def narrow_def MICRO_PROFIT_THRESHOLD_WEI_def program_tiers streak_bribe_def
      heat_of_def recent_bribe_def MAX_BRIBE_PCT_def Let_def TOKEN_WETH_def TOKEN_USDC_def TOKEN_VIRTUAL_def
      TOKEN_LUNA_def TOKEN_AI16Z_def)

lemma no_code_fetch: "run_fetches (\<lambda>_. None) tasks sm = sm"
  by (induction tasks arbitrary: sm) (simp_all add: run_fetches_def fetch_and_cache_bytecode_def)

lemma sample_no_fetch [simp]: "fetch_world (sample_env sim) opp w = w"
  by (simp add: fetch_world_def sample_env_def no_code_fetch)

definition sample_ready :: "unit world" where
  "sample_ready = vet_world sample_opp (lock_world 1 sample_opp sample_world)"

lemma sample_ready: "ready_world (sample_env sim) sample_opp sample_world = sample_ready"
  by (simp add: ready_world_def sample_ready_def target_of_def sample_world_def tracker_current_def tracker_new_def)

lemma sample_ready_simps [simp]:
  "wd_bidder sample_ready = bidder_new 0" "wd_breaker sample_ready = breaker_new 5 30"
  "wd_mirror sample_ready = fresh_mirror" "wd_scalars sample_ready = initial_scalars" "wd_sent sample_ready = []"
  "wd_nonces sample_ready = \<lparr>nm_current = 12, nm_address = 3\<rparr>"
  "fx_min_profit_wei (wd_executor sample_ready) = 10 ^ 14" "fx_contract_address (wd_executor sample_ready) = 9"
  by (simp_all add: sample_ready_def vet_world_def lock_world_def sample_world_def)

lemma sample_stages:
  "simulate_and_execute (sample_env sim) sample_opp sample_world =
     simulate_and_submit (sample_env sim) sample_opp 1 sample_ready"
proof -
  have closed: "\<not> is_open t (breaker_new 5 30)" for t
    by (simp add: is_open_def breaker_new_def total_failures_def MIN_SEARCHER_BALANCE_WEI_def MAX_BUILDER_LATENCY_MS_def)
  have free: "\<not> dm_contains (DAList.empty :: (u64 \<times> address, string) dmap) k" for k by (simp add: dm_contains_def)
  have world: "wd_executor sample_world = \<lparr>fx_contract_address = 9, fx_min_profit_wei = 10 ^ 14, fx_chain = Base,
      fx_has_builder = True, fx_bribe_percent = 90, fx_occupied_pools = DAList.empty, fx_http_pool = None,
      fx_vetted_tokens = DAList.empty\<rparr>" "wd_breaker sample_world = breaker_new 5 30"
      "wd_mirror sample_world = fresh_mirror" "tracker_current (wd_tracker sample_world) = 0"
    by (simp_all add: sample_world_def tracker_current_def tracker_new_def)
  have lock: "fx_http_pool (wd_executor (lock_world tb opp sample_world)) = None" for tb opp
    by (simp add: lock_world_def world)
  show ?thesis
    by (simp add: simulate_and_execute_def validate_and_submit_def world closed free lock sample_ready_def
        verify_state_freshness_def detect_wash_trap_def CORE_TOKENS_def Let_def)
qed

lemma sample_best:
  "\<exists>c. best_candidate (sample_env earning_env) sample_ready sample_opp = Some (Some c) \<and>
     cd_net_profit c = 10 ^ 15 \<and> cd_l1_fee c = 0 \<and> cd_l2_fee c = 0 \<and> sr_profit (cd_sim c) = 10 ^ 15 \<and> sr_success (cd_sim c)"
proof -
  have robust: "is_robust (10 ^ 14) \<lparr>sr_profit = 10 ^ 15, sr_gas_used = 100000, sr_branch = Top, sr_success = True, sr_access_list = []\<rparr>
      (map (\<lambda>b. \<lparr>sr_profit = 10 ^ 15, sr_gas_used = 100000, sr_branch = b, sr_success = True, sr_access_list = []\<rparr>) [Mid, Tail])"
    by (simp add: is_robust_def sat_sub_def)
  have fee: "l1_fee_or_zero initial_scalars c d = Some 0" for c d
    by (cases c) (simp add: l1_fee_or_zero_def estimate_l1_fee_def initial_scalars_def)
  have run: "run_branch_simulation (xe_sim (sample_env earning_env) l) fresh_mirror sample_opp d 9 3 =
      Some (map (\<lambda>b. \<lparr>sr_profit = 10 ^ 15, sr_gas_used = 100000, sr_branch = b, sr_success = True, sr_access_list = []\<rparr>)
       [Top, Mid, Tail])" for l d
    using earning_run by (simp add: sample_env_def)
  show ?thesis
    using robust by (simp add: best_candidate_def run current_fees_def default_gas_state_def consider_result_def fee
        Let_def sat_sub_def)
qed

text \<open>Without cached code of the contract there is no candidate, hence no submission.\<close>

lemma never_sends:
  assumes "get_bytecode (wd_mirror w) (fx_contract_address (wd_executor w)) = None"
    and "fx_contract_address (wd_executor w) \<notin>
      hop_token_out ` set (path_hops (op_path opp)) \<union> hop_pool_address ` set (path_hops (op_path opp))"
    and "0 < fx_min_profit_wei (wd_executor w)"
    and "\<forall>l sm. codeless_inert (xe_sim env l) (has_code l) sm (fx_contract_address (wd_executor w))"
    and "simulate_and_execute env opp w = Some (w', r)"
  shows "(\<exists>e. r = Inl e) \<and> wd_sent w' = wd_sent w"
proof -
  let ?w = "ready_world env opp w"
  have "get_bytecode (wd_mirror ?w) (fx_contract_address (wd_executor w)) = None"
    using assms(1,2) fetch_tasks_subset [of "wd_mirror w" "opp_hops opp"]
    unfolding ready_mirror opp_hops_def by (subst run_fetches_other) auto
  note code = this
  let ?x = "fx_contract_address (wd_executor w)"
  have none: "best = None" if "best_candidate env ?w opp = Some best" for best
  proof (rule best_candidate_none [OF _ that])
    fix l d a rs q
    assume run: "run_branch_simulation (xe_sim env l) (wd_mirror ?w) opp d (fx_contract_address (wd_executor ?w)) a = Some rs"
      and q: "q \<in> set rs"
    have "sr_profit q = 0"
    proof (rule run_branches_all [OF _ run [unfolded run_branch_simulation_def] q])
      fix b r
      assume "simulate_strategy (xe_sim env l) (wd_mirror ?w) opp d (fx_contract_address (wd_executor ?w)) b a = Some (Inr r)"
      then show "sr_profit r = 0"
        using earns_nothing [of "wd_mirror ?w" ?x "xe_sim env l" "has_code l"] code assms(4) by simp
    qed
    with assms(3) show "sr_profit q < fx_min_profit_wei (wd_executor ?w)" by simp
  qed
  from execute_stages [OF assms(5)] show ?thesis
  proof (elim disjE)
    assume "admitted env opp w \<and> vetted_path env opp w \<and>
        simulate_and_submit env opp (target_of w) ?w = Some (w', r)"
    then have "simulate_and_submit env opp (target_of w) ?w = Some (w', r)" by blast
    then have "w' = ?w" "\<exists>e. r = Inl e" using none by (auto simp: simulate_and_submit_def bind_eq_Some_conv split: option.splits)
    then show ?thesis by simp
  qed auto
qed

text \<open>The simulations of the handler never panic: only the honeypot check does.\<close>

lemma noise_total: "noise_rounds env hops ks e \<noteq> None"
proof -
  have "noise_round env i j hs e \<noteq> None" for i j hs e
    by (induction hs arbitrary: j e) (auto simp: noise_tx_def noise_data_Some split: bind_splits)
  then show ?thesis by (induction ks arbitrary: e) (auto split: bind_splits)
qed

lemma branches_total: "run_branch_simulation env sm opp d target eoa \<noteq> None"
proof -
  have "simulate_strategy env sm opp d target b eoa \<noteq> None" for b
    using noise_total by (auto simp: simulate_strategy_def inject_noise_transactions_def split: bind_splits)
  then have "run_branches (\<lambda>b. simulate_strategy env sm opp d target b eoa) bs \<noteq> None" for bs
    by (induction bs) (auto split: bind_splits)
  then show ?thesis by (simp only: run_branch_simulation_def not_False_eq_True)
qed

lemma inert_submit:
  assumes code: "get_bytecode (wd_mirror w) (fx_contract_address (wd_executor w)) = None"
    and floor: "0 < fx_min_profit_wei (wd_executor w)"
  shows "simulate_and_submit (sample_env inert_env) opp tb w =
    Some (w, Inl (SimulationFailed ''No lender provided profitable/robust results''))"
proof -
  let ?env = "sample_env inert_env" and ?x = "fx_contract_address (wd_executor w)" and ?min = "fx_min_profit_wei (wd_executor w)"
  have cheap: "sr_profit q < ?min"
    if "run_branch_simulation inert_env (wd_mirror w) opp d ?x a = Some rs" "q \<in> set rs" for d a rs q
  proof -
    have "sr_profit q = 0"
      using that unfolding run_branch_simulation_def
      by (rule run_branches_all [rotated]) (rule earns_nothing [OF code inert_codeless])
    with floor show ?thesis by simp
  qed
  let ?run = "\<lambda>l. run_branch_simulation inert_env (wd_mirror w) opp (build_calldata_with_lender ?env ?min opp l) ?x (nm_address (wd_nonces w))"
  obtain rs rs' where rs: "?run LBalancer = Some rs" "?run LAaveV3 = Some rs'"
    using branches_total by blast
  have "consider_result ?min l1 price l d rs best = Some best" "consider_result ?min l1 price l d rs' best = Some best"
    for l1 price l d best
    using cheap [OF rs(1)] cheap [OF rs(2)] by (auto intro!: consider_result_none)
  with rs have "best_candidate ?env w opp = Some None"
    by (simp add: best_candidate_def current_fees_def Let_def sample_env_def case_prod_beta)
  then show ?thesis by (simp add: simulate_and_submit_def)
qed

text \<open>On a path of core tokens the handler goes straight to the simulations.\<close>

lemma core_stages:
  assumes "fx_has_builder (wd_executor w)" and "\<not> is_open 0 (wd_breaker w)"
    and "fx_occupied_pools (wd_executor w) = DAList.empty"
    and "verify_state_freshness 0 (wd_mirror w) = Inr ()"
    and "\<forall>h \<in> set (path_hops (op_path opp)). hop_token_out h \<in> CORE_TOKENS \<and> DAList.lookup (sm_trader_registry (wd_mirror w)) (hop_pool_address h) = None"
    and "case fx_http_pool (wd_executor w) of Some p \<Rightarrow> get_head p 1 \<noteq> None | None \<Rightarrow> True"
  shows "simulate_and_execute (sample_env sim) opp w =
    simulate_and_submit (sample_env sim) opp (target_of w) (vet_world opp (lock_world (target_of w) opp w))"
proof -
  have free: "\<not> collides b hs DAList.empty" for b hs by (induction hs) (simp_all add: dm_contains_def lookup_empty)
  have wash: "wash_check env (wd_mirror w) hs = Inr ()"
    if "\<forall>h \<in> set hs. DAList.lookup (sm_trader_registry (wd_mirror w)) (hop_pool_address h) = None" for env :: "'b sim_env" and hs
    using that by (induction hs) (simp_all add: detect_wash_trap_def)
  have valid: "validate_hops env m v amount hs = Some []" if "\<forall>h \<in> set hs. hop_token_out h \<in> CORE_TOKENS" for env :: "'b exec_env" and m v amount hs
    using that by (induction hs) simp_all
  have lock: "wd_mirror (lock_world tb opp w) = wd_mirror w"
    "fx_http_pool (wd_executor (lock_world tb opp w)) = fx_http_pool (wd_executor w)"
    "fx_vetted_tokens (wd_executor (lock_world tb opp w)) = fx_vetted_tokens (wd_executor w)"
    "xe_now (sample_env sim) = 0" for tb and sim :: "'b sim_env"
    by (simp_all add: lock_world_def sample_env_def)
  show ?thesis
    using assms by (auto simp: simulate_and_execute_def validate_and_submit_def lock free wash valid target_of_def Let_def
        split: option.splits)
qed

lemma sample_inert_run:
  "simulate_and_execute (sample_env inert_env) sample_opp sample_world =
     Some (sample_ready, Inl (SimulationFailed ''No lender provided profitable/robust results''))"
  using inert_submit [of sample_ready sample_opp 1] by (simp add: sample_stages)

section \<open>Properties\<close>

text \<open>C3 Nothing is broadcast without the guards: if the handler gave a bundle to the relays, the
  breaker was closed, no pool of the path was locked, the mirror was fresh, every hop passed the
  wash and honeypot checks, and the chosen simulation succeeded with at least the minimum profit,
  a net profit of at least 2e14 wei, a gas cost of at most a tenth of the balance (if one is
  known), and more profit than the padded gas cost plus the checked bribe. One or two bundles are
  sent, for the target block and the next one, with the same transaction; one nonce is consumed,
  whatever the relays answer.\<close>

theorem broadcast_is_guarded:
  assumes "simulate_and_execute env opp w = Some (w', r)" and "wd_sent w' \<noteq> wd_sent w"
  shows "admitted env opp w \<and> vetted_path env opp w \<and>
    (\<exists>c pct b sb. candidate_ok (fx_min_profit_wei (wd_executor w)) c \<and>
      \<not> over_budget (cb_current_balance (wd_breaker w)) (adjusted_cost c) \<and>
      MIN_NET_PROFIT \<le> cd_net_profit c \<and>
      calculate_bribe (xe_rises env) (xe_instant env 0) (xe_instant env 1)
        (wd_mirror (ready_world env opp w)) opp (wd_bidder w) = Some (pct, b) \<and>
      adjusted_cost c + bribe_of (cd_net_profit c) pct < sr_profit (cd_sim c) \<and>
      (wd_sent w' = wd_sent w @ [bundle_for sb (target_of w)] \<or>
       wd_sent w' = wd_sent w @ [bundle_for sb (target_of w), bundle_for sb (target_of w + 1)])) \<and>
    nm_current (wd_nonces w') = nm_current (wd_nonces w) + 1"
proof -
  let ?w = "ready_world env opp w"
  have stage: "admitted env opp w" "vetted_path env opp w"
      "simulate_and_submit env opp (target_of w) ?w = Some (w', r)"
    using execute_stages [OF assms(1)] assms(2) by auto
  with simulate_and_submit_stages [OF stage(3)] assms(2) obtain c v where
    c: "best_candidate env ?w opp = Some (Some c)" and guards: "execution_guards env opp c ?w = Some (v, Inr ())"
    and sub: "submit env opp c (target_of w) v = Some (w', r)"
    by auto
  have "wd_sent v = wd_sent w" "wd_nonces v = wd_nonces w" using guards_frame [OF guards] by simp_all
  moreover note submit_outcome [OF sub]
  ultimately obtain sb where
    "wd_sent w' = wd_sent w @ [bundle_for sb (target_of w)] \<or>
     wd_sent w' = wd_sent w @ [bundle_for sb (target_of w), bundle_for sb (target_of w + 1)]"
    "nm_current (wd_nonces w') = nm_current (wd_nonces w) + 1"
    using assms(2) by auto
  moreover note guards_pass [OF guards] best_candidate_ok [OF c]
  ultimately show ?thesis using stage(1,2) by auto
qed

theorem broadcast_is_guarded_witness:
  "\<exists>w' r. simulate_and_execute (sample_env earning_env) sample_opp sample_world = Some (w', r) \<and>
     wd_sent w' \<noteq> [] \<and> nm_current (wd_nonces w') = 13 \<and> vetted_path (sample_env earning_env) sample_opp sample_world"
proof -
  let ?env = "sample_env earning_env"
  obtain c where c: "best_candidate ?env sample_ready sample_opp = Some (Some c)" "cd_net_profit c = 10 ^ 15"
      "cd_l1_fee c = 0" "cd_l2_fee c = 0" "sr_profit (cd_sim c) = 10 ^ 15" "sr_success (cd_sim c)"
    using sample_best by blast
  have env: "xe_rises ?env = (\<lambda>_ _. False)" "xe_instant ?env k = 0" "xe_sign ?env tx = Inr ([1], 42)"
      "xe_relays ?env bu = [Inr ()]" for k tx bu
    by (simp_all add: sample_env_def)
  have same: "sample_ready\<lparr>wd_bidder := bidder_new 0\<rparr> = sample_ready" by (simp add: sample_ready_def vet_world_def lock_world_def sample_world_def)
  have guards: "execution_guards ?env sample_opp c sample_ready = Some (sample_ready, Inr ())"
    by (simp add: execution_guards_def c env sample_bribe adjusted_cost_def over_budget_def get_cached_balance_def
        breaker_new_def bribe_of_def MIN_NET_PROFIT_def same Let_def)
  obtain tx pct v where prep: "prepare_tx ?env sample_opp c sample_ready = Some (tx, pct, v)"
    by (simp add: prepare_tx_def env sample_bribe current_fees_def default_gas_state_def suggest_priority_fee_def
        overshoot_fee_def narrow_def nonce_next_def MIN_BUILDER_TIP_WEI_def Let_def)
  obtain w' r where run: "submit ?env sample_opp c 1 sample_ready = Some (w', r)"
    by (cases "submit ?env sample_opp c 1 sample_ready") (auto simp: submit_def prep env)
  then have exec: "simulate_and_execute ?env sample_opp sample_world = Some (w', r)"
    by (simp add: sample_stages simulate_and_submit_def c guards)
  have "(w', r) = broadcast_loop ?env sample_opp \<lparr>sb_rlp = [1], sb_hash = 42,
      sb_bribe_wei = bribe_of (cd_net_profit c) pct, sb_bribe_pct = pct\<rparr> 1 0 v"
    using run by (simp add: submit_def prep env)
  then have "w' = fst (broadcast_loop ?env sample_opp \<lparr>sb_rlp = [1], sb_hash = 42,
      sb_bribe_wei = bribe_of (cd_net_profit c) pct, sb_bribe_pct = pct\<rparr> 1 0 v)" by (metis fst_conv)
  then have "wd_sent w' \<noteq> []" by (simp only: broadcast_sends not_False_eq_True)
  moreover have "wd_sent sample_world = []" "nm_current (wd_nonces sample_world) = 12" by (simp_all add: sample_world_def)
  ultimately show ?thesis using exec broadcast_is_guarded [OF exec] by auto
qed

text \<open>A failed attempt keeps its pools: once an attempt has passed the admission checks, every
  later attempt for the same block whose path shares a pool with it is rejected as a collision (or
  by the breaker), whatever became of the first one.\<close>

theorem locks_outlive_errors:
  assumes "simulate_and_execute env opp w = Some (w1, r1)" and "admitted env opp w"
    and "h \<in> set (path_hops (op_path opp))" and "h' \<in> set (path_hops (op_path opp'))"
    and "hop_pool_address h = hop_pool_address h'"
  shows "\<exists>e \<in> {CircuitBreakerOpen, Other ''Self-collision detected''}.
    simulate_and_execute env' opp' w1 = Some (w1, Inl e)"
proof -
  note locks = execute_locks [OF assms(1,2)]
  have "dm_contains (fx_occupied_pools (wd_executor w1)) (target_of w, hop_pool_address h')"
    using locks assms(3) by (auto simp: lock_pools_contains opp_hops_def assms(5) [symmetric])
  then have "collides (tracker_current (wd_tracker w1) + 1) (path_hops (op_path opp')) (fx_occupied_pools (wd_executor w1))"
    using assms(4) locks by (auto simp: collides_iff target_of_def)
  then show ?thesis using locks by (simp add: simulate_and_execute_def Let_def)
qed

theorem locks_outlive_errors_witness:
  "\<exists>e \<in> {CircuitBreakerOpen, Other ''Self-collision detected''}.
     simulate_and_execute (sample_env inert_env) sample_opp sample_ready = Some (sample_ready, Inl e)"
proof -
  have "admitted (sample_env inert_env) sample_opp sample_world"
    using execute_stages [OF sample_inert_run] by auto
  from locks_outlive_errors [OF sample_inert_run this, of sample_hop sample_hop sample_opp] show ?thesis by simp
qed

text \<open>The executor never sends anything while the code of its own contract is not cached: with
  a positive minimum profit and inert calls to accounts without code, every call of the handler
  ends in an error and broadcasts nothing. The handler itself fetches only the codes of tokens and
  pools.\<close>

theorem uncached_executor_never_sends:
  assumes "get_bytecode (wd_mirror w) (fx_contract_address (wd_executor w)) = None"
    and "fx_contract_address (wd_executor w) \<notin>
      hop_token_out ` set (path_hops (op_path opp)) \<union> hop_pool_address ` set (path_hops (op_path opp))"
    and "0 < fx_min_profit_wei (wd_executor w)"
    and "\<forall>l sm. codeless_inert (xe_sim env l) (has_code l) sm (fx_contract_address (wd_executor w))"
    and "simulate_and_execute env opp w = Some (w', r)"
  shows "(\<exists>e. r = Inl e) \<and> wd_sent w' = wd_sent w"
  using assms by (rule never_sends)

theorem uncached_executor_never_sends_witness:
  "wd_sent sample_ready = wd_sent sample_world"
  using uncached_executor_never_sends [OF _ _ _ _ sample_inert_run, where has_code = "\<lambda>_ e. e"]
  by (simp add: sample_world_def sample_env_def inert_codeless TOKEN_WETH_def)

end
