(* ===== verification/Treasury.thy ===== *)
theory Treasury
  imports Circuit_Breaker Rpc_Services
begin

text \<open>
  The profit manager of \<open>src/profit_manager.rs\<close>: what is done with a captured profit. Balances, fees
  and the fate of a sent transaction are arguments; the transactions sent are results. The conversion
  to 128 bits inside the debug message for a balance below the threshold is left out.
\<close>

section \<open>The profit manager\<close>

record profit_manager =
  pm_chain :: chain
  pm_gas_reserve_threshold :: u256
  pm_compounding_target :: "address option"
  pm_total_profit_harvested :: u64
  pm_daily_profit :: u64
  pm_running :: bool

definition profit_manager_new :: "chain \<Rightarrow> u256 \<Rightarrow> address option \<Rightarrow> profit_manager" where
  "profit_manager_new c gas_reserve_threshold compounding_target =
     \<lparr>pm_chain = c, pm_gas_reserve_threshold = gas_reserve_threshold, pm_compounding_target = compounding_target,
      pm_total_profit_harvested = 0, pm_daily_profit = 0, pm_running = False\<rparr>"

text \<open>The report itself is a log line; it resets the daily counter.\<close>

definition report_harvest :: "profit_manager \<Rightarrow> (u64 \<times> u64) \<times> profit_manager" where
  "report_harvest p = ((pm_daily_profit p, pm_total_profit_harvested p), p\<lparr>pm_daily_profit := 0\<rparr>)"

record transfer =
  tf_to :: address
  tf_value :: u256
  tf_nonce :: u64

record treasury_env =
  te_balance :: "string + u256"
  te_l1_fee :: "mev_error + u256"
  te_gas_price :: "u128 option"
  te_send :: "transfer \<Rightarrow> bool"

definition transfer_cost :: "treasury_env \<Rightarrow> u256" where
  "transfer_cost env =
     (let l1_fee = (case te_l1_fee env of Inr f \<Rightarrow> f | Inl _ \<Rightarrow> 0);
          gas_price = (case te_gas_price env of Some g \<Rightarrow> g | None \<Rightarrow> 50000000)
      in l1_fee + 21000 * ucast gas_price)"

definition survival_threshold :: "treasury_env \<Rightarrow> profit_manager \<Rightarrow> u256" where
  "survival_threshold env p = pm_gas_reserve_threshold p + transfer_cost env * 5"

definition MIN_SWEEP :: u256 where "MIN_SWEEP = ucast (5 * (10 :: u128) ^ 15)"

text \<open>The results of the two steps: the transfers sent, each with its fate, and what is left.\<close>

definition vault_step :: "treasury_env \<Rightarrow> u256 \<Rightarrow> nonce_manager \<Rightarrow> (transfer \<times> bool) list \<times> u256 \<times> nonce_manager" where
  "vault_step env excess nonces =
     (case GAS_VAULT_ADDRESS of
        None \<Rightarrow> ([], excess, nonces)
      | Some vault_addr \<Rightarrow>
          let vault_share = (excess * ucast GAS_VAULT_PERCENTAGE) div 100 in
          if vault_share > transfer_cost env
          then let (n, nonces) = nonce_next nonces;
                   tx = \<lparr>tf_to = vault_addr, tf_value = vault_share, tf_nonce = n\<rparr>
               in if te_send env tx then ([(tx, True)], sat_sub excess vault_share, nonces)
                  else ([(tx, False)], excess, nonces)
          else ([], excess, nonces))"

definition compound_step :: "treasury_env \<Rightarrow> address option \<Rightarrow> u256 \<Rightarrow> nonce_manager \<Rightarrow> (transfer \<times> bool) list \<times> nonce_manager" where
  "compound_step env compounding_target distribution_balance nonces =
     (case compounding_target of
        None \<Rightarrow> ([], nonces)
      | Some target \<Rightarrow>
          if distribution_balance > transfer_cost env
          then let (n, nonces) = nonce_next nonces;
                   tx = \<lparr>tf_to = target, tf_value = distribution_balance, tf_nonce = n\<rparr>
               in ([(tx, te_send env tx)], nonces)
          else ([], nonces))"

definition distribute ::
  "treasury_env \<Rightarrow> profit_manager \<Rightarrow> u256 \<Rightarrow> nonce_manager \<Rightarrow> (transfer \<times> bool) list \<times> nonce_manager" where
  "distribute env p current_balance nonces =
     (let excess = sat_sub current_balance (survival_threshold env p) in
      if excess < MIN_SWEEP then ([], nonces)
      else
        let (vault_txs, distribution_balance, nonces) = vault_step env excess nonces;
            (compound_txs, nonces) = compound_step env (pm_compounding_target p) distribution_balance nonces
        in (vault_txs @ compound_txs, nonces))"

definition note_profit :: "u64 \<Rightarrow> profit_manager \<Rightarrow> profit_manager" where
  "note_profit profit_gwei p =
     p\<lparr>pm_running := True, pm_daily_profit := pm_daily_profit p + profit_gwei,
       pm_total_profit_harvested := pm_total_profit_harvested p + profit_gwei\<rparr>"

definition handle_profit ::
  "treasury_env \<Rightarrow> u256 \<Rightarrow> profit_manager \<times> nonce_manager \<Rightarrow>
     ((mev_error + unit) \<times> (transfer \<times> bool) list \<times> profit_manager \<times> nonce_manager) exec" where
  "handle_profit env profit_amount = (\<lambda>(p, nonces).
     if pm_running p then Some (Inr (), [], p, nonces)
     else do {
       profit_gwei \<leftarrow> narrow (profit_amount div 1000000000);
       Some (case te_balance env of
           Inl e \<Rightarrow> (Inl (Other e), [], note_profit profit_gwei p, nonces)
         | Inr current_balance \<Rightarrow>
             (case distribute env (note_profit profit_gwei p) current_balance nonces of
                (txs, nonces) \<Rightarrow> (Inr (), txs, (note_profit profit_gwei p)\<lparr>pm_running := False\<rparr>, nonces)))
     })"

section \<open>Facts\<close>

text \<open>Sum of the values that were sent.\<close>

definition sent_total :: "(transfer \<times> bool) list \<Rightarrow> nat" where
  "sent_total txs = sum_list (map (\<lambda>(tx, ok). if ok then unat (tf_value tx) else 0) txs)"

lemma sent_total_simps [simp]:
  "sent_total [] = 0" "sent_total ((tx, ok) # txs) = (if ok then unat (tf_value tx) else 0) + sent_total txs"
  "sent_total (xs @ ys) = sent_total xs + sent_total ys"
  by (simp_all add: sent_total_def)

lemma vault_share_le:
  assumes "unat (excess :: u256) < 2 ^ 248"
  shows "unat ((excess * ucast GAS_VAULT_PERCENTAGE) div 100) \<le> unat excess"
  using assms by (simp add: GAS_VAULT_PERCENTAGE_def unat_div_distrib unat_mult_nowrap)

lemma vault_step_total:
  assumes "vault_step env excess n = (txs, dist, m)" and "unat excess < 2 ^ 248"
  shows "sent_total txs + unat dist = unat excess"
  using assms vault_share_le [OF assms(2)]
  by (auto simp: vault_step_def unat_sat_sub nonce_next_def Let_def split: option.splits if_splits)

lemma compound_step_total:
  "compound_step env target dist n = (txs, m) \<Longrightarrow> sent_total txs \<le> unat dist"
  by (auto simp: compound_step_def nonce_next_def Let_def split: option.splits if_splits)

lemma distribute_total:
  assumes "distribute env p balance n = (txs, m)" and "unat balance < 2 ^ 248"
  shows "sent_total txs \<le> unat balance - unat (survival_threshold env p) \<and>
    (txs = [] \<or> unat (survival_threshold env p) + 5 * 10 ^ 15 \<le> unat balance)"
proof (cases "sat_sub balance (survival_threshold env p) < MIN_SWEEP")
  case True
  then show ?thesis using assms by (simp add: distribute_def)
next
  case False
  let ?excess = "sat_sub balance (survival_threshold env p)"
  have min: "unat ?excess \<ge> 5 * 10 ^ 15" using False by (simp add: MIN_SWEEP_def word_less_nat_alt)
  obtain vs dist k where v: "vault_step env ?excess n = (vs, dist, k)" by (metis prod_cases3)
  obtain cs k' where c: "compound_step env (pm_compounding_target p) dist k = (cs, k')" by fastforce
  have "txs = vs @ cs" using assms(1) False v c by (simp add: distribute_def)
  moreover have "unat ?excess < 2 ^ 248" using assms(2) by (simp add: unat_sat_sub)
  ultimately have "sent_total txs \<le> unat ?excess"
    using vault_step_total [OF v] compound_step_total [OF c] by simp
  then show ?thesis using min unfolding unat_sat_sub by (intro conjI disjI2) simp_all
qed

lemma note_profit_simps [simp]:
  "pm_running (note_profit g p)" "survival_threshold env (note_profit g p) = survival_threshold env p"
  by (simp_all add: note_profit_def survival_threshold_def)

section \<open>Properties\<close>

text \<open>C21 A distribution keeps the survival reserve: for a balance below \<open>2 ^ 248\<close> the values of the transfers that were sent add
  up to at most the excess of the balance over the survival threshold, and nothing is attempted
  unless that excess is at least 0.005 ether.\<close>

theorem survival_reserve_kept:
  assumes "handle_profit env profit (p, nonces) = Some (r, txs, p', nonces')"
    and "te_balance env = Inr balance" and "unat balance < 2 ^ 248"
  shows "sent_total txs \<le> unat balance - unat (survival_threshold env p) \<and>
    (txs = [] \<or> unat (survival_threshold env p) + 5 * 10 ^ 15 \<le> unat balance)"
proof (cases "pm_running p")
  case True
  then show ?thesis using assms(1) by (simp add: handle_profit_def)
next
  case False
  then obtain g where "distribute env (note_profit g p) balance nonces = (txs, nonces')"
    using assms(1,2)
    by (auto simp: handle_profit_def bind_eq_Some_conv case_prod_beta prod_eq_iff)
  from distribute_total [OF this assms(3)] show ?thesis by simp
qed

theorem survival_reserve_kept_witness:
  "\<exists>r txs p' m. handle_profit \<lparr>te_balance = Inr (10 ^ 18), te_l1_fee = Inr 0, te_gas_price = None, te_send = (\<lambda>_. True)\<rparr>
      (10 ^ 15) (profit_manager_new Base (4 * 10 ^ 16) (Some 5), \<lparr>nm_current = 0, nm_address = 3\<rparr>) =
      Some (r, txs, p', m) \<and> sent_total txs \<le> 10 ^ 18 - 4 * 10 ^ 16"
proof -
  let ?env = "\<lparr>te_balance = Inr (10 ^ 18), te_l1_fee = Inr 0, te_gas_price = None, te_send = (\<lambda>_. True)\<rparr>"
  let ?p = "profit_manager_new Base (4 * 10 ^ 16) (Some 5)" and ?n = "\<lparr>nm_current = 0, nm_address = 3\<rparr>"
  obtain r txs p' m where run: "handle_profit ?env (10 ^ 15) (?p, ?n) = Some (r, txs, p', m)"
    by (cases "handle_profit ?env (10 ^ 15) (?p, ?n)")
      (auto simp: handle_profit_def profit_manager_new_def narrow_def split: prod.splits)
  have "4 * 10 ^ 16 \<le> unat (survival_threshold ?env ?p)"
    by (simp add: survival_threshold_def transfer_cost_def profit_manager_new_def)
  with run show ?thesis using survival_reserve_kept [OF run, of "10 ^ 18"] by fastforce
qed

text \<open>A failed balance query disables the profit manager for good: the running flag stays set,
  and every later call returns at once without sending anything.\<close>

theorem balance_error_disables:
  assumes "handle_profit env profit (p, nonces) = Some (Inl e, txs, p', nonces')"
  shows "txs = [] \<and> handle_profit env' profit' (p', nonces'') = Some (Inr (), [], p', nonces'')"
proof -
  have "txs = [] \<and> pm_running p'"
    using assms
    by (cases "te_balance env"; cases "pm_running p") (auto simp: handle_profit_def bind_eq_Some_conv case_prod_beta)
  then show ?thesis by (simp add: handle_profit_def)
qed

theorem balance_error_disables_witness:
  "\<exists>p'. handle_profit \<lparr>te_balance = Inl ''timeout'', te_l1_fee = Inr 0, te_gas_price = None, te_send = (\<lambda>_. True)\<rparr>
      (10 ^ 15) (profit_manager_new Base 0 None, \<lparr>nm_current = 0, nm_address = 3\<rparr>) =
      Some (Inl (Other ''timeout''), [], p', \<lparr>nm_current = 0, nm_address = 3\<rparr>) \<and>
    handle_profit \<lparr>te_balance = Inr (10 ^ 18), te_l1_fee = Inr 0, te_gas_price = None, te_send = (\<lambda>_. True)\<rparr>
      (10 ^ 15) (p', \<lparr>nm_current = 0, nm_address = 3\<rparr>) = Some (Inr (), [], p', \<lparr>nm_current = 0, nm_address = 3\<rparr>)"
proof -
  obtain p' where run: "handle_profit \<lparr>te_balance = Inl ''timeout'', te_l1_fee = Inr 0, te_gas_price = None, te_send = (\<lambda>_. True)\<rparr>
      (10 ^ 15) (profit_manager_new Base 0 None, \<lparr>nm_current = 0, nm_address = 3\<rparr>) =
      Some (Inl (Other ''timeout''), [], p', \<lparr>nm_current = 0, nm_address = 3\<rparr>)"
    by (simp add: handle_profit_def profit_manager_new_def narrow_def)
  then show ?thesis using balance_error_disables [OF run] by blast
qed

end
