(* ===== verification/Inventory.thy ===== *)
theory Inventory
  imports Circuit_Breaker Rpc_Services
begin

text \<open>
  The inventory manager of \<open>src/inventory_manager.rs\<close>: the sweep of tokens and the unwrapping of WETH. A
  sweep waits for the node before every transaction, and the other tasks draw nonces and register
  tokens meanwhile: it is a task with a program point, and a turn of it draws at most one nonce.
\<close>

section \<open>State\<close>

record inventory =
  iv_chain :: chain
  iv_executor_address :: address
  iv_wallet :: address
  iv_running :: bool
  iv_harvest_registry :: "address set"

definition inventory_new :: "chain \<Rightarrow> address \<Rightarrow> address \<Rightarrow> inventory" where
  "inventory_new c executor_address wallet =
     \<lparr>iv_chain = c, iv_executor_address = executor_address, iv_wallet = wallet, iv_running = False,
      iv_harvest_registry = (case SAFE_TOKENS c of Some tokens \<Rightarrow> set tokens | None \<Rightarrow> {})\<rparr>"

text \<open>The message quotes both amounts as decimal fractions, a float conversion: an argument.\<close>

definition ensure_ready :: "(u256 \<Rightarrow> string) \<Rightarrow> string + u256 \<Rightarrow> (mev_error + unit) exec" where
  "ensure_ready show_eth reply =
     (case reply of
        Inl e \<Rightarrow> Some (Inl (Other (''Bootstrap Balance Check Failed: '' @ e)))
      | Inr balance \<Rightarrow>
          let min_required = ucast MIN_SEARCHER_BALANCE_WEI in
          if balance < min_required
          then do {
            _ \<leftarrow> (narrow balance :: u128 exec);
            Some (Inl (Other (''[BOOTSTRAP] Insufficient Gas! Have: '' @ show_eth balance @ '' ETH, Need: '' @
              show_eth min_required @ '' ETH (Survival Rule)'')))
          }
          else Some (Inr ()))"

definition register_token_for_harvest :: "address \<Rightarrow> inventory \<Rightarrow> inventory" where
  "register_token_for_harvest token v =
     (if token \<noteq> TOKEN_WETH \<and> token \<noteq> 0
      then v\<lparr>iv_harvest_registry := insert token (iv_harvest_registry v)\<rparr> else v)"

text \<open>Transactions of the sweep, with their nonce last.\<close>

datatype sweep_tx =
    WithdrawToken address address u64
  | Approve address address u256 u64
  | SwapTokens address address u256 u256 address u64 u64

fun sweep_nonce :: "sweep_tx \<Rightarrow> u64" where
  "sweep_nonce (WithdrawToken _ _ n) = n"
| "sweep_nonce (Approve _ _ _ n) = n"
| "sweep_nonce (SwapTokens _ _ _ _ _ _ n) = n"

record sweep_env =
  sw_order :: "address set \<Rightarrow> address list"
  sw_base_fee :: u256
  sw_breaker_open :: bool
  sw_contract_balance :: "address \<Rightarrow> u256 option"
  sw_balance :: "address \<Rightarrow> u256 option"
  sw_send :: "sweep_tx \<Rightarrow> bool"
  sw_now :: u64

definition router_of :: "chain \<Rightarrow> address" where
  "router_of c = (if c = Base then BASE_AERODROME_ROUTER else UNISWAP_V2_ROUTER)"

section \<open>The sweep\<close>

text \<open>The tokens that are left, the first of them being the current one, and where the sweep is with it:
  before the query of the contract's balance, before that of the wallet's, or, with an approval of the
  balance sent, before the swap.\<close>

datatype sweep_stage = PullStage | SellStage | SwapStage u256

record sweep_task =
  sk_tokens :: "address list"
  sk_stage :: sweep_stage

definition sweep_begin :: "sweep_env \<Rightarrow> inventory \<Rightarrow> sweep_task option \<times> inventory" where
  "sweep_begin env v =
     (if iv_running v then (None, v)
      else let tokens = sw_order env (iv_harvest_registry v) in
        if tokens = [] then (None, v)
        else if sw_base_fee env > ucast MAX_SWEEP_GAS_PRICE_WEI then (None, v)
        else if sw_breaker_open env then (None, v)
        else (Some \<lparr>sk_tokens = tokens, sk_stage = PullStage\<rparr>, v\<lparr>iv_running := True\<rparr>))"

definition pull_step :: "sweep_env \<Rightarrow> inventory \<Rightarrow> address \<Rightarrow> nonce_manager \<Rightarrow> sweep_tx list \<times> nonce_manager" where
  "pull_step env v token nonces =
     (let contract_bal = (case sw_contract_balance env token of Some b \<Rightarrow> b | None \<Rightarrow> 0) in
      if contract_bal > ucast DUST_THRESHOLD_WEI
      then let (n, nonces) = nonce_next nonces in ([WithdrawToken (iv_executor_address v) token n], nonces)
      else ([], nonces))"

text \<open>A failed approval clears the running flag, although the sweep goes on with the next token.\<close>

definition sell_step ::
  "sweep_env \<Rightarrow> address \<Rightarrow> address list \<Rightarrow> inventory \<times> nonce_manager \<Rightarrow> sweep_tx list \<times> sweep_task option \<times> inventory \<times> nonce_manager" where
  "sell_step env token rest = (\<lambda>(v, nonces).
     let balance = (case sw_balance env token of Some b \<Rightarrow> b | None \<Rightarrow> 0); next = \<lparr>sk_tokens = rest, sk_stage = PullStage\<rparr> in
     if balance \<ge> ucast DUST_THRESHOLD_WEI
     then let (n, nonces) = nonce_next nonces; approve = Approve token (router_of (iv_chain v)) balance n in
       if sw_send env approve then ([approve], Some \<lparr>sk_tokens = token # rest, sk_stage = SwapStage balance\<rparr>, v, nonces)
       else ([approve], Some next, v\<lparr>iv_running := False\<rparr>, nonces)
     else ([], Some next, v, nonces))"

text \<open>The swap is sent by a task of its own, which nothing waits for.\<close>

definition swap_step :: "sweep_env \<Rightarrow> inventory \<Rightarrow> address \<Rightarrow> u256 \<Rightarrow> nonce_manager \<Rightarrow> sweep_tx list \<times> nonce_manager" where
  "swap_step env v token balance nonces =
     (let (n, nonces) = nonce_next nonces
      in ([SwapTokens (router_of (iv_chain v)) token balance 0 (iv_wallet v) (sw_now env + 60) n], nonces))"

fun sweep_turn ::
  "sweep_env \<Rightarrow> sweep_task \<Rightarrow> inventory \<times> nonce_manager \<Rightarrow> sweep_tx list \<times> sweep_task option \<times> inventory \<times> nonce_manager" where
  "sweep_turn env task (v, nonces) =
     (case sk_tokens task of
        [] \<Rightarrow> ([], None, v\<lparr>iv_running := False\<rparr>, nonces)
      | token # rest \<Rightarrow>
          if token = TOKEN_WETH then ([], Some \<lparr>sk_tokens = rest, sk_stage = PullStage\<rparr>, v, nonces)
          else (case sk_stage task of
              PullStage \<Rightarrow>
                let (txs, nonces) = pull_step env v token nonces
                in (txs, Some \<lparr>sk_tokens = token # rest, sk_stage = SellStage\<rparr>, v, nonces)
            | SellStage \<Rightarrow> sell_step env token rest (v, nonces)
            | SwapStage balance \<Rightarrow>
                let (txs, nonces) = swap_step env v token balance nonces
                in (txs, Some \<lparr>sk_tokens = rest, sk_stage = PullStage\<rparr>, v, nonces)))"

text \<open>A schedule of turns: before each, the other tasks draw some nonces and register some tokens.\<close>

type_synonym sweep_schedule = "(nat \<times> address list \<times> sweep_env) list"

definition draw_nonces :: "nat \<Rightarrow> nonce_manager \<Rightarrow> nonce_manager" where
  "draw_nonces k nonces = ((\<lambda>m. snd (nonce_next m)) ^^ k) nonces"

fun sweep_turns ::
  "sweep_schedule \<Rightarrow> sweep_task \<Rightarrow> inventory \<times> nonce_manager \<Rightarrow> sweep_tx list \<times> sweep_task option \<times> inventory \<times> nonce_manager" where
  "sweep_turns [] task (v, nonces) = ([], Some task, v, nonces)"
| "sweep_turns ((others, found, env) # turns) task (v, nonces) =
     (case sweep_turn env task (fold register_token_for_harvest found v, draw_nonces others nonces) of
        (txs, None, v, nonces) \<Rightarrow> (txs, None, v, nonces)
      | (txs, Some task, v, nonces) \<Rightarrow>
          let (rest, left, v, nonces) = sweep_turns turns task (v, nonces) in (txs @ rest, left, v, nonces))"

definition auto_sweep ::
  "sweep_env \<Rightarrow> sweep_schedule \<Rightarrow> inventory \<times> nonce_manager \<Rightarrow> sweep_tx list \<times> sweep_task option \<times> inventory \<times> nonce_manager" where
  "auto_sweep env turns = (\<lambda>(v, nonces).
     case sweep_begin env v of
       (None, v) \<Rightarrow> ([], None, v, nonces)
     | (Some task, v) \<Rightarrow> sweep_turns turns task (v, nonces))"

section \<open>Unwrapping\<close>

text \<open>The withdrawal, if any: its amount and nonce.\<close>

definition unwrap_weth_if_needed ::
  "string + u256 \<Rightarrow> u256 option \<Rightarrow> nonce_manager \<Rightarrow> (mev_error + (u256 \<times> u64) option) \<times> nonce_manager" where
  "unwrap_weth_if_needed eth_reply weth_reply nonces =
     (case eth_reply of
        Inl e \<Rightarrow> (Inl (Other e), nonces)
      | Inr eth_balance \<Rightarrow>
          let threshold = ucast MIN_SEARCHER_BALANCE_WEI in
          if eth_balance < threshold
          then let weth_balance = (case weth_reply of Some b \<Rightarrow> b | None \<Rightarrow> 0) in
            if weth_balance > 0
            then let deficit = sat_sub (sat_mul threshold 2) eth_balance;
                     amount_to_withdraw = min deficit weth_balance;
                     (n, nonces) = nonce_next nonces
                 in (Inr (Some (amount_to_withdraw, n)), nonces)
            else (Inr None, nonces)
          else (Inr None, nonces))"

section \<open>Facts\<close>

fun tx_token :: "sweep_tx \<Rightarrow> address" where
  "tx_token (WithdrawToken _ token _) = token"
| "tx_token (Approve token _ _ _) = token"
| "tx_token (SwapTokens _ token _ _ _ _ _) = token"

text \<open>Every swap comes right after the approval of its amount for its router; \<open>prev\<close> is the transaction
  before the list.\<close>

fun follows :: "sweep_tx option \<Rightarrow> sweep_tx \<Rightarrow> bool" where
  "follows (Some (Approve token router amount _)) (SwapTokens router' token' amount' _ _ _ _) \<longleftrightarrow>
     token = token' \<and> router = router' \<and> amount = amount'"
| "follows _ (SwapTokens _ _ _ _ _ _ _) \<longleftrightarrow> False"
| "follows _ _ \<longleftrightarrow> True"

fun chained :: "sweep_tx option \<Rightarrow> sweep_tx list \<Rightarrow> bool" where
  "chained prev [] \<longleftrightarrow> True"
| "chained prev (tx # txs) \<longleftrightarrow> follows prev tx \<and> chained (Some tx) txs"

fun last_sent :: "sweep_tx option \<Rightarrow> sweep_tx list \<Rightarrow> sweep_tx option" where
  "last_sent prev [] = prev"
| "last_sent prev (tx # txs) = last_sent (Some tx) txs"

lemma chained_append: "chained prev (xs @ ys) \<longleftrightarrow> chained prev xs \<and> chained (last_sent prev xs) ys"
  by (induction xs arbitrary: prev) simp_all

lemma last_sent_append: "last_sent prev (xs @ ys) = last_sent (last_sent prev xs) ys"
  by (induction xs arbitrary: prev) simp_all

text \<open>A sweep about to swap has just sent the approval; how many turns a sweep still takes.\<close>

definition ready_to_swap :: "address \<Rightarrow> sweep_tx option \<Rightarrow> sweep_task \<Rightarrow> bool" where
  "ready_to_swap router prev task \<longleftrightarrow>
     (case (sk_stage task, sk_tokens task) of
        (SwapStage balance, token # _) \<Rightarrow> \<exists>n. prev = Some (Approve token router balance n)
      | (SwapStage _, []) \<Rightarrow> False
      | _ \<Rightarrow> True)"

definition sweep_rank :: "sweep_task \<Rightarrow> nat" where
  "sweep_rank task = (case sk_tokens task of
     [] \<Rightarrow> 0 | _ # rest \<Rightarrow> 3 * length rest + (case sk_stage task of PullStage \<Rightarrow> 3 | SellStage \<Rightarrow> 2 | SwapStage _ \<Rightarrow> 1))"

text \<open>What a turn promises, whichever step it takes.\<close>

definition turn_ok :: "address list \<Rightarrow> inventory \<times> nonce_manager \<Rightarrow> sweep_tx option \<Rightarrow>
    sweep_tx list \<times> sweep_task option \<times> inventory \<times> nonce_manager \<Rightarrow> bool" where
  "turn_ok tokens start prev = (\<lambda>(txs, next, v', m').
     nonces.drawn (snd start) (map sweep_nonce txs) (length txs) m' \<and>
     set (map tx_token txs) \<subseteq> set tokens - {TOKEN_WETH} \<and> chained prev txs \<and>
     iv_harvest_registry v' = iv_harvest_registry (fst start) \<and> iv_chain v' = iv_chain (fst start) \<and>
     (case next of
        None \<Rightarrow> \<not> iv_running v'
      | Some task \<Rightarrow> set (sk_tokens task) \<subseteq> set tokens \<and>
          ready_to_swap (router_of (iv_chain v')) (last_sent prev txs) task))"

lemma one_drawn: "nonces.drawn m [nm_current m] (Suc 0) (snd (nonce_next m))"
  using nonces.drawn_one [of m] by (simp add: nonce_next_def)

lemmas turn_simps = turn_ok_def ready_to_swap_def nonces.drawn_none one_drawn Let_def case_prod_beta

lemma turn_spec:
  assumes "ready_to_swap (router_of (iv_chain v)) prev task"
  shows "turn_ok (sk_tokens task) (v, m) prev (sweep_turn env task (v, m))"
proof (cases "sk_tokens task")
  case Nil
  then show ?thesis by (simp add: turn_simps)
next
  case (Cons token rest)
  have draw: "fst (nonce_next m) = nm_current m" by (simp add: nonce_next_def)
  show ?thesis
    using assms Cons
    by (cases "sk_stage task")
      (auto simp: turn_simps pull_step_def sell_step_def swap_step_def draw simp del: nonce_next_def)
qed

lemma turn_rank:
  assumes "sweep_turn env task (v, m) = (txs, Some task', v', m')"
  shows "sweep_rank task' < sweep_rank task"
  using assms
  by (auto simp: sweep_rank_def sell_step_def Let_def split: list.splits if_splits sweep_stage.splits prod.splits)

declare sweep_turn.simps [simp del]

text \<open>The other tasks of a schedule.\<close>

definition other_draws :: "sweep_schedule \<Rightarrow> nat" where
  "other_draws turns = sum_list (map fst turns)"

definition found_tokens :: "sweep_schedule \<Rightarrow> address set" where
  "found_tokens turns = (\<Union>(_, found, _) \<in> set turns. set found)"

lemma schedule_simps [simp]:
  "other_draws [] = 0" "other_draws ((others, found, env) # turns) = others + other_draws turns"
  "found_tokens [] = {}" "found_tokens ((others, found, env) # turns) = set found \<union> found_tokens turns"
  by (simp_all add: other_draws_def found_tokens_def)

lemma register_simps [simp]:
  "iv_chain (register_token_for_harvest token v) = iv_chain v"
  "iv_running (register_token_for_harvest token v) = iv_running v"
  by (simp_all add: register_token_for_harvest_def)

lemma register_fold:
  "iv_chain (fold register_token_for_harvest found v) = iv_chain v \<and>
   iv_harvest_registry v \<subseteq> iv_harvest_registry (fold register_token_for_harvest found v) \<and>
   iv_harvest_registry (fold register_token_for_harvest found v) \<subseteq> iv_harvest_registry v \<union> set found"
proof (induction found arbitrary: v)
  case (Cons token found)
  from Cons [of "register_token_for_harvest token v"] show ?case
    by (auto simp: register_token_for_harvest_def split: if_splits)
qed simp

definition sweep_spec :: "sweep_schedule \<Rightarrow> address list \<Rightarrow> inventory \<times> nonce_manager \<Rightarrow> sweep_tx option \<Rightarrow>
    sweep_tx list \<times> sweep_task option \<times> inventory \<times> nonce_manager \<Rightarrow> bool" where
  "sweep_spec turns tokens start prev = (\<lambda>(txs, left, v', m').
     (\<exists>j \<le> other_draws turns. nonces.drawn (snd start) (map sweep_nonce txs) (length txs + j) m') \<and>
     set (map tx_token txs) \<subseteq> set tokens - {TOKEN_WETH} \<and> chained prev txs \<and>
     iv_harvest_registry (fst start) \<subseteq> iv_harvest_registry v' \<and>
     iv_harvest_registry v' \<subseteq> iv_harvest_registry (fst start) \<union> found_tokens turns \<and>
     (left = None \<longrightarrow> \<not> iv_running v'))"

lemma sweep_turns_spec:
  assumes "ready_to_swap (router_of (iv_chain v)) prev task" and "set (sk_tokens task) \<subseteq> set tokens"
  shows "sweep_spec turns tokens (v, m) prev (sweep_turns turns task (v, m))"
  using assms
proof (induction turns task "(v, m)" arbitrary: v m prev rule: sweep_turns.induct)
  case (1 task v m)
  then show ?case using nonces.drawn_none [of m] by (auto simp: sweep_spec_def)
next
  case (2 others found env turns task v m)
  let ?v = "fold register_token_for_harvest found v" and ?m = "draw_nonces others m"
  have reg: "iv_chain ?v = iv_chain v" "iv_harvest_registry v \<subseteq> iv_harvest_registry ?v"
      "iv_harvest_registry ?v \<subseteq> iv_harvest_registry v \<union> set found"
    using register_fold [of found v] by simp_all
  have away: "nonces.drawn m [] others ?m" using nonces.drawn_others [of m others] by (simp add: draw_nonces_def)
  obtain txs nx v1 m1 where t: "sweep_turn env task (?v, ?m) = (txs, nx, v1, m1)" by (metis prod_cases4)
  have ok: "turn_ok (sk_tokens task) (?v, ?m) prev (txs, nx, v1, m1)"
    using turn_spec [of ?v prev task ?m env] 2(2) reg(1) t by simp
  then have first: "nonces.drawn m (map sweep_nonce txs) (others + length txs) m1"
    using nonces.drawn_append [OF away] by (force simp: turn_ok_def)
  show ?case
  proof (cases nx)
    case None
    have "\<exists>j \<le> others + other_draws turns. nonces.drawn m (map sweep_nonce txs) (length txs + j) m1"
      using first by (intro exI [of _ others]) (simp add: add.commute)
    with None t ok reg 2(3) show ?thesis by (auto simp: sweep_spec_def turn_ok_def)
  next
    case (Some task')
    obtain rest left v2 m2 where r: "sweep_turns turns task' (v1, m1) = (rest, left, v2, m2)" by (metis prod_cases4)
    have "sweep_spec turns tokens (v1, m1) (last_sent prev txs) (rest, left, v2, m2)"
      using 2(1) [of txs "(nx, v1, m1)" nx "(v1, m1)" task' v1 m1 "last_sent prev txs"] ok t Some r 2(3)
      by (auto simp: turn_ok_def)
    moreover from this obtain j where j: "j \<le> other_draws turns" "nonces.drawn m1 (map sweep_nonce rest) (length rest + j) m2"
      by (auto simp: sweep_spec_def)
    have "\<exists>j \<le> others + other_draws turns. nonces.drawn m (map sweep_nonce (txs @ rest)) (length (txs @ rest) + j) m2"
      using nonces.drawn_append [OF first j(2)] j(1) by (intro exI [of _ "others + j"]) (simp add: ac_simps)
    ultimately show ?thesis using Some t r ok reg 2(3) by (auto simp: sweep_spec_def turn_ok_def chained_append)
  qed
qed

lemma sweep_turns_end:
  "sweep_rank task < length turns \<Longrightarrow> fst (snd (sweep_turns turns task (v, m))) = None"
proof (induction turns task "(v, m)" arbitrary: v m rule: sweep_turns.induct)
  case (2 others found env turns task v m)
  obtain txs nx v1 m1 where t: "sweep_turn env task (fold register_token_for_harvest found v, draw_nonces others m) = (txs, nx, v1, m1)"
    by (metis prod_cases4)
  show ?case
  proof (cases nx)
    case (Some task')
    with t turn_rank [of env task _ _ txs task' v1 m1] 2(2) have "sweep_rank task' < length turns" by fastforce
    with 2(1) [of txs "(nx, v1, m1)" nx "(v1, m1)" task' v1 m1] t Some show ?thesis by (simp add: case_prod_beta Let_def)
  qed (simp add: t)
qed simp

section \<open>Properties\<close>

text \<open>C38 A sweep that finds the running flag clear is orderly, whatever the other tasks draw and register while it waits: its transactions
  take, in their order, nonces from the stretch the manager has handed out meanwhile, which is as long as
  the transactions and the draws of the others together, so no two are alike (as long as these are at most
  \<open>2 ^ 64\<close>); they only touch tokens of
  the listing of the registry it took when it started, never WETH; every swap comes right after the approval of its amount for
  its router; the registry only gains what the others register. It is over, with the running flag
  cleared, after at most three turns per token and one more, and sends nothing at all when the gas
  price is above the limit or the breaker is open.\<close>

theorem sweep_is_orderly:
  assumes "auto_sweep env turns (v, nonces) = (txs, left, v', nonces')" and "\<not> iv_running v"
  shows "(\<exists>j \<le> other_draws turns.
      subseq (map sweep_nonce txs) (map (\<lambda>i. nm_current nonces + of_nat i) [0..<length txs + j]) \<and>
      nm_current nonces' = nm_current nonces + of_nat (length txs + j)) \<and>
    (length txs + other_draws turns \<le> 2 ^ 64 \<longrightarrow> distinct (map sweep_nonce txs)) \<and>
    set (map tx_token txs) \<subseteq> set (sw_order env (iv_harvest_registry v)) - {TOKEN_WETH} \<and> chained None txs \<and>
    iv_harvest_registry v \<subseteq> iv_harvest_registry v' \<and>
    iv_harvest_registry v' \<subseteq> iv_harvest_registry v \<union> found_tokens turns \<and>
    (3 * length (sw_order env (iv_harvest_registry v)) < length turns \<longrightarrow> left = None) \<and>
    (left = None \<longrightarrow> \<not> iv_running v') \<and>
    (sw_base_fee env > ucast MAX_SWEEP_GAS_PRICE_WEI \<or> sw_breaker_open env \<longrightarrow> txs = [])"
proof -
  let ?tokens = "sw_order env (iv_harvest_registry v)"
  let ?task = "\<lparr>sk_tokens = ?tokens, sk_stage = PullStage\<rparr>" and ?v = "v\<lparr>iv_running := True\<rparr>"
  show ?thesis
  proof (cases "?tokens = [] \<or> sw_base_fee env > ucast MAX_SWEEP_GAS_PRICE_WEI \<or> sw_breaker_open env")
    case True
    then have "auto_sweep env turns (v, nonces) = ([], None, v, nonces)"
      using assms(2) by (auto simp: auto_sweep_def sweep_begin_def Let_def)
    with assms show ?thesis by (auto intro!: exI [of _ 0])
  next
    case False
    then have run: "sweep_turns turns ?task (?v, nonces) = (txs, left, v', nonces')"
      using assms by (simp add: auto_sweep_def sweep_begin_def)
    have spec: "sweep_spec turns ?tokens (?v, nonces) None (txs, left, v', nonces')"
      using sweep_turns_spec [of ?v None ?task ?tokens turns nonces] run by (simp add: ready_to_swap_def)
    then obtain j where j: "j \<le> other_draws turns" "nonces.drawn nonces (map sweep_nonce txs) (length txs + j) nonces'"
      by (auto simp: sweep_spec_def)
    have "sweep_rank ?task = 3 * length ?tokens" by (simp add: sweep_rank_def split: list.split)
    then have "3 * length ?tokens < length turns \<longrightarrow> left = None"
      using sweep_turns_end [of ?task turns ?v nonces] run by simp
    moreover have "length txs + other_draws turns \<le> 2 ^ 64 \<longrightarrow> distinct (map sweep_nonce txs)"
      using nonces.drawn_distinct [OF j(2)] j(1) by simp
    ultimately show ?thesis
      using spec j False by (auto simp: sweep_spec_def nonces.drawn_def nonces.tickets_def)
  qed
qed

text \<open>Two other draws and a new token come between the approval and the swap.\<close>

definition dust_env :: sweep_env where
  "dust_env = \<lparr>sw_order = (\<lambda>_. [TOKEN_WETH, TOKEN_AERO]), sw_base_fee = 1, sw_breaker_open = False,
     sw_contract_balance = (\<lambda>_. Some (10 ^ 18)), sw_balance = (\<lambda>_. Some (10 ^ 18)), sw_send = (\<lambda>_. True), sw_now = 0\<rparr>"

definition dust_turns :: sweep_schedule where
  "dust_turns = replicate 3 (0, [], dust_env) @ (2, [77], dust_env) # replicate 3 (0, [], dust_env)"

lemma dust_sweep_turns:
  "sweep_turn dust_env \<lparr>sk_tokens = TOKEN_WETH # ts, sk_stage = PullStage\<rparr> (v, m) =
     ([], Some \<lparr>sk_tokens = ts, sk_stage = PullStage\<rparr>, v, m)"
  "sweep_turn dust_env \<lparr>sk_tokens = [TOKEN_AERO], sk_stage = PullStage\<rparr> (v, m) =
     ([WithdrawToken (iv_executor_address v) TOKEN_AERO (nm_current m)],
      Some \<lparr>sk_tokens = [TOKEN_AERO], sk_stage = SellStage\<rparr>, v, m\<lparr>nm_current := nm_current m + 1\<rparr>)"
  "sweep_turn dust_env \<lparr>sk_tokens = [TOKEN_AERO], sk_stage = SellStage\<rparr> (v, m) =
     ([Approve TOKEN_AERO (router_of (iv_chain v)) (10 ^ 18) (nm_current m)],
      Some \<lparr>sk_tokens = [TOKEN_AERO], sk_stage = SwapStage (10 ^ 18)\<rparr>, v, m\<lparr>nm_current := nm_current m + 1\<rparr>)"
  "sweep_turn dust_env \<lparr>sk_tokens = [TOKEN_AERO], sk_stage = SwapStage b\<rparr> (v, m) =
     ([SwapTokens (router_of (iv_chain v)) TOKEN_AERO b 0 (iv_wallet v) 60 (nm_current m)],
      Some \<lparr>sk_tokens = [], sk_stage = PullStage\<rparr>, v, m\<lparr>nm_current := nm_current m + 1\<rparr>)"
  "sweep_turn dust_env \<lparr>sk_tokens = [], sk_stage = st\<rparr> (v, m) = ([], None, v\<lparr>iv_running := False\<rparr>, m)"
  by (simp_all add: sweep_turn.simps pull_step_def sell_step_def swap_step_def nonce_next_def dust_env_def
      DUST_THRESHOLD_WEI_def TOKEN_WETH_def TOKEN_AERO_def)

theorem sweep_is_orderly_witness:
  "\<exists>txs v'. auto_sweep dust_env dust_turns (inventory_new Base 9 3, \<lparr>nm_current = 7, nm_address = 3\<rparr>) =
      (txs, None, v', \<lparr>nm_current = 12, nm_address = 3\<rparr>) \<and> map sweep_nonce txs = [7, 8, 11] \<and>
     77 \<in> iv_harvest_registry v' \<and> distinct (map sweep_nonce txs) \<and> chained None txs \<and> \<not> iv_running v'"
proof -
  let ?v = "inventory_new Base 9 3" and ?n = "\<lparr>nm_current = 7, nm_address = 3\<rparr>"
  obtain txs left v' m where run: "auto_sweep dust_env dust_turns (?v, ?n) = (txs, left, v', m)" by (metis prod_cases4)
  have idle: "\<not> iv_running ?v" by (simp add: inventory_new_def)
  have start: "sweep_begin dust_env ?v = (Some \<lparr>sk_tokens = [TOKEN_WETH, TOKEN_AERO], sk_stage = PullStage\<rparr>, ?v\<lparr>iv_running := True\<rparr>)"
    using idle by (simp add: sweep_begin_def dust_env_def MAX_SWEEP_GAS_PRICE_WEI_def)
  have new: "register_token_for_harvest 77 v = v\<lparr>iv_harvest_registry := insert 77 (iv_harvest_registry v)\<rparr>" for v
    by (simp add: register_token_for_harvest_def TOKEN_WETH_def)
  have "m = \<lparr>nm_current = 12, nm_address = 3\<rparr> \<and> map sweep_nonce txs = [7, 8, 11] \<and> 77 \<in> iv_harvest_registry v' \<and>
      length txs = 3 \<and> left = None"
    using run
    by (auto simp: auto_sweep_def start dust_turns_def dust_sweep_turns new draw_nonces_def nonce_next_def
        numeral_2_eq_2 numeral_3_eq_3)
  with sweep_is_orderly [OF run idle] run show ?thesis by (simp add: dust_turns_def)
qed

text \<open>The flag that is to keep a second sweep away is cleared by a failed approval, with tokens still to
  go: another call would start a second sweep next to the first.\<close>

theorem failed_approval_admits_second_sweep:
  assumes "sk_tokens task = token # rest" and "sk_stage task = SellStage" and "token \<noteq> TOKEN_WETH"
    and "sw_balance env token = Some balance" and "balance \<ge> ucast DUST_THRESHOLD_WEI"
    and "\<not> sw_send env (Approve token (router_of (iv_chain v)) balance (nm_current nonces))"
    and "sweep_turn env task (v, nonces) = (txs, left, v', nonces')"
    and "sw_order env' (iv_harvest_registry v') \<noteq> []" and "sw_base_fee env' \<le> ucast MAX_SWEEP_GAS_PRICE_WEI"
    and "\<not> sw_breaker_open env'"
  shows "left = Some \<lparr>sk_tokens = rest, sk_stage = PullStage\<rparr> \<and>
    fst (sweep_begin env' v') = Some \<lparr>sk_tokens = sw_order env' (iv_harvest_registry v'), sk_stage = PullStage\<rparr>"
  using assms by (auto simp: sweep_turn.simps sell_step_def sweep_begin_def nonce_next_def Let_def not_less)

end
