(* ===== verification/Engine.thy ===== *)
theory Engine
  imports Executor_Facts Treasury Inventory Log_Pipeline
begin

text \<open>
  The engine of \<open>src/main.rs\<close>: the tasks it spawns, over the state they share. The streams, the clock
  and the answers of the node are arguments of a step. The bootstrap takes a step per chunk and the
  sweep one per transaction, so other tasks come between; the handling of an opportunity, a turn of
  the initialisation worker and the handling of a log or a block are one step each, whatever they wait for.
\<close>

section \<open>State\<close>

record 'p engine =
  en_world :: "'p world"
  en_profit :: profit_manager
  en_inventory :: inventory
  en_seen_hashes :: "b256 set"
  en_init_queue :: "(address \<times> dex_type) list"
  en_bootstrap :: "sync_task list option"
  en_sweep :: "sweep_task option"

definition with_mirror :: "(mirror \<Rightarrow> mirror) \<Rightarrow> 'p engine \<Rightarrow> 'p engine" where
  "with_mirror f en = en\<lparr>en_world := (en_world en)\<lparr>wd_mirror := f (wd_mirror (en_world en))\<rparr>\<rparr>"

section \<open>The heartbeat\<close>

definition heartbeat_log :: "rpc_log \<Rightarrow> 'p engine \<Rightarrow> 'p engine" where
  "heartbeat_log log en = with_mirror (update_mirror_state log) en"

definition heartbeat_block :: "u64 \<Rightarrow> u64 \<Rightarrow> u128 option \<Rightarrow> u64 \<Rightarrow> 'p engine \<Rightarrow> 'p engine" where
  "heartbeat_block now bn base_fee_per_gas timestamp en =
     (let fee = ucast (case base_fee_per_gas of Some f \<Rightarrow> f | None \<Rightarrow> 0);
          en = with_mirror (sync_block bn fee timestamp) en;
          w = en_world en
      in en\<lparr>en_world := w\<lparr>wd_breaker := record_sequencer_drift now timestamp (wd_breaker w),
                          wd_tracker := tracker_update bn (wd_tracker w)\<rparr>\<rparr>)"

text \<open>The bridge: one event per unseen transaction, if the emitter is a mirrored pool. The hash is
  noted in any case; a missing hash counts as zero.\<close>

definition bridge_log :: "u64 \<Rightarrow> rpc_log \<Rightarrow> 'p engine \<Rightarrow> swap_event option \<times> 'p engine" where
  "bridge_log now log en =
     (let tx_hash = (case lg_transaction_hash log of Some h \<Rightarrow> h | None \<Rightarrow> 0) in
      if tx_hash \<in> en_seen_hashes en then (None, en)
      else
        let en = en\<lparr>en_seen_hashes := insert tx_hash (en_seen_hashes en)\<rparr> in
        (if dm_contains (sm_pools (wd_mirror (en_world en))) (lg_address log)
         then Some (trigger_event now tx_hash (lg_address log)) else None, en))"

section \<open>New pools\<close>

definition pool_of_event :: "new_pool_event \<Rightarrow> address \<times> dex_type" where
  "pool_of_event event =
     (case event of
        NewV2 d \<Rightarrow> (v2_pair d, if v2_dex_name d = NameAerodrome then Aerodrome else UniswapV2)
      | NewV3 d \<Rightarrow> (v3_pool d, UniswapV3))"

definition pool_feed :: "u64 \<Rightarrow> new_pool_event \<Rightarrow> 'p engine \<Rightarrow> 'p engine" where
  "pool_feed now event en =
     (let (pool_addr, d) = pool_of_event event;
          en = with_mirror (\<lambda>sm. if dm_contains (sm_pools sm) pool_addr then sm
                 else sm\<lparr>sm_pools := DAList.update pool_addr ((default_pool_state now)\<lparr>ps_dex_type := d\<rparr>) (sm_pools sm)\<rparr>) en;
          en = en\<lparr>en_init_queue := en_init_queue en @ [(pool_addr, d)]\<rparr>
      in case event of
           NewV2 data \<Rightarrow>
             if v2_dex_name data = NameAerodrome then with_mirror (update_aerodrome_stable (v2_pair data) True) en else en
         | NewV3 _ \<Rightarrow> en)"

text \<open>The worker takes the first pool of the queue.\<close>

definition init_worker ::
  "'r decoders \<Rightarrow> u64 \<Rightarrow> bytes option \<Rightarrow> (bool \<times> 'r) list option list \<Rightarrow> 'p engine \<Rightarrow> 'p engine exec" where
  "init_worker D now code replies en =
     (case en_init_queue en of
        [] \<Rightarrow> Some en
      | (pool_addr, d) # queue \<Rightarrow> do {
          let en = with_mirror (fetch_and_cache_bytecode code pool_addr) (en\<lparr>en_init_queue := queue\<rparr>);
          (sm, _) \<leftarrow> sync_batch_with_jitter D now [(pool_addr, d)] 1 replies (wd_mirror (en_world en));
          Some (with_mirror (\<lambda>_. sm) en)
        })"

section \<open>Opportunities\<close>

text \<open>The arm of the main loop for an opportunity. \<open>permit\<close> tells whether the semaphore is free.\<close>

definition harvest_tokens :: "hop list \<Rightarrow> inventory \<Rightarrow> inventory" where
  "harvest_tokens hops v =
     fold (\<lambda>h. register_token_for_harvest (hop_token_out h) \<circ> register_token_for_harvest (hop_token_in h)) hops v"

definition after_success :: "treasury_env \<Rightarrow> opportunity \<Rightarrow> 'p engine \<Rightarrow> 'p engine exec" where
  "after_success tenv opp en =
     (let en = en\<lparr>en_inventory := harvest_tokens (path_hops (op_path opp)) (en_inventory en)\<rparr> in
      case op_profit_details opp of
        None \<Rightarrow> Some en
      | Some d \<Rightarrow> do {
          (_, _, p, nonces) \<leftarrow> handle_profit tenv (pd_net_profit d) (en_profit en, wd_nonces (en_world en));
          Some (en\<lparr>en_profit := p, en_world := (en_world en)\<lparr>wd_nonces := nonces\<rparr>\<rparr>)
        })"

definition dispatch :: "'e exec_env \<Rightarrow> treasury_env \<Rightarrow> bool \<Rightarrow> opportunity \<Rightarrow> 'p engine \<Rightarrow> 'p engine exec" where
  "dispatch env tenv permit opp en =
     (if wd_global_pause (en_world en) then Some en
      else do {
        _ \<leftarrow> (narrow (op_expected_profit opp) :: u128 exec);
        if fx_contract_address (wd_executor (en_world en)) = 0 then Some en
        else if \<not> permit then Some en
        else do {
          (w, r) \<leftarrow> simulate_and_execute env opp (en_world en);
          let en = en\<lparr>en_world := w\<rparr>;
          case r of
            Inl _ \<Rightarrow> Some en
          | Inr _ \<Rightarrow> after_success tenv opp en
        }
      })"

section \<open>Housekeeping\<close>

definition gas_check :: "string + u256 \<Rightarrow> u256 option \<Rightarrow> 'p engine \<Rightarrow> 'p engine" where
  "gas_check eth weth en =
     en\<lparr>en_world := (en_world en)\<lparr>wd_nonces := snd (unwrap_weth_if_needed eth weth (wd_nonces (en_world en)))\<rparr>\<rparr>"

text \<open>The upkeep task starts a sweep and waits until it is over.\<close>

definition harvest :: "sweep_env \<Rightarrow> 'p engine \<Rightarrow> 'p engine" where
  "harvest env en =
     (let (task, v) = sweep_begin (env\<lparr>sw_breaker_open := is_open (sw_now env) (wd_breaker (en_world en))\<rparr>) (en_inventory en)
      in en\<lparr>en_inventory := v, en_sweep := task\<rparr>)"

definition sweep_advance :: "sweep_env \<Rightarrow> 'p engine \<Rightarrow> 'p engine" where
  "sweep_advance env en =
     (case en_sweep en of
        None \<Rightarrow> en
      | Some task \<Rightarrow>
          let (_, next, v, nonces) = sweep_turn env task (en_inventory en, wd_nonces (en_world en))
          in en\<lparr>en_inventory := v, en_sweep := next, en_world := (en_world en)\<lparr>wd_nonces := nonces\<rparr>\<rparr>)"

definition daily_report :: "'p engine \<Rightarrow> 'p engine" where
  "daily_report en = en\<lparr>en_profit := snd (report_harvest (en_profit en))\<rparr>"

text \<open>The bootstrap lists the pools of the mirror as it finds it, then takes the replies chunk by chunk.\<close>

definition bootstrap_turn :: "bytes decoders \<Rightarrow> u64 \<Rightarrow> (bool \<times> bytes) list option \<Rightarrow> 'p engine \<Rightarrow> 'p engine" where
  "bootstrap_turn D now reply en =
     (case en_bootstrap en of
        None \<Rightarrow> en\<lparr>en_bootstrap := Some (smart_bootstrap (wd_mirror (en_world en)))\<rparr>
      | Some tasks \<Rightarrow>
          let (tasks, sm) = sync_turn D now reply (tasks, wd_mirror (en_world en))
          in with_mirror (\<lambda>_. sm) (en\<lparr>en_bootstrap := Some tasks\<rparr>))"

section \<open>The steps\<close>

text \<open>\<open>E\<close> and \<open>Q\<close> say which machines and which opportunities a dispatch may meet, \<open>F\<close> which
  pool events.\<close>

inductive engine_step ::
  "('e exec_env \<Rightarrow> bool) \<Rightarrow> (opportunity \<Rightarrow> bool) \<Rightarrow> (new_pool_event \<Rightarrow> bool) \<Rightarrow> 'p engine \<Rightarrow> 'p engine \<Rightarrow> bool"
  for E Q F where
  log: "engine_step E Q F en (heartbeat_log l en)"
| block: "engine_step E Q F en (heartbeat_block now bn fee ts en)"
| bridge: "engine_step E Q F en (snd (bridge_log now l en))"
| feed: "F event \<Longrightarrow> engine_step E Q F en (pool_feed now event en)"
| init: "init_worker (D :: bytes decoders) now code replies en = Some en' \<Longrightarrow> engine_step E Q F en en'"
| prune: "engine_step E Q F en (with_mirror (prune_stale_pools now) en)"
| bootstrap: "engine_step E Q F en (bootstrap_turn D now reply en)"
| gas: "en_sweep en = None \<Longrightarrow> engine_step E Q F en (gas_check eth weth en)"
| sweep: "en_sweep en = None \<Longrightarrow> engine_step E Q F en (harvest senv en)"
| sweep_turn: "engine_step E Q F en (sweep_advance senv en)"
| report: "engine_step E Q F en (daily_report en)"
| opportunity: "E env \<Longrightarrow> Q opp \<Longrightarrow> dispatch env tenv permit opp en = Some en' \<Longrightarrow> engine_step E Q F en en'"

inductive engine_run ::
  "('e exec_env \<Rightarrow> bool) \<Rightarrow> (opportunity \<Rightarrow> bool) \<Rightarrow> (new_pool_event \<Rightarrow> bool) \<Rightarrow> 'p engine \<Rightarrow> 'p engine \<Rightarrow> bool"
  for E Q F where
  stay: "engine_run E Q F en en"
| step: "engine_run E Q F en en' \<Longrightarrow> engine_step E Q F en' en'' \<Longrightarrow> engine_run E Q F en en''"

inductive_cases engine_stepE: "engine_step E Q F en en'"

end
