(* ===== verification/Mirror_Facts.thy ===== *)
theory Mirror_Facts
  imports State_Mirror
begin

text \<open>
  What the mirror guarantees: the per-pool effect of a batch, the exact pruning rule, the
  alignment of multicall results with pools, and, over every interleaving of its operations,
  that a poisoned account never gets a cached bytecode.
\<close>

section \<open>Batches, per pool\<close>

definition merge_into :: "address \<Rightarrow> address \<times> pool_state \<Rightarrow> pool_state option \<Rightarrow> pool_state option" where
  "merge_into a u x =
     (if fst u = a then Some (case x of Some old \<Rightarrow> merge_pool (snd u) old | None \<Rightarrow> snd u) else x)"

lemma batch_lookup:
  "DAList.lookup (sm_pools (batch_update_reserves us s)) a = fold (merge_into a) us (DAList.lookup (sm_pools s) a)"
proof -
  have "fold (\<lambda>(k, v) x. if k = a then Some (case x of Some y \<Rightarrow> merge_pool v y | None \<Rightarrow> v) else x) us x
      = fold (merge_into a) us x" for x
    by (induction us arbitrary: x) (auto simp: merge_into_def split: option.split)
  then show ?thesis
    by (simp add: batch_update_reserves_def mark_dirty_def dm_upsert_eq dm.get_upserts)
qed

lemma merge_pool_idem: "merge_pool p (merge_pool p old) = merge_pool p old"
  by (simp add: merge_pool_def Let_def)

section \<open>Multicall alignment\<close>

definition result_width :: "dex_type \<Rightarrow> nat" where
  "result_width d = (if d = UniswapV3 then 2 else 1)"

definition outcome :: "'r decoders \<Rightarrow> u64 \<Rightarrow> u64 \<Rightarrow> address \<times> dex_type \<Rightarrow> (bool \<times> 'r) list \<Rightarrow> chunk_result" where
  "outcome D now block ad rs = process_chunk D now block [ad] rs \<lparr>cr_updates = [], cr_prune = []\<rparr>"

definition add_result :: "chunk_result \<Rightarrow> chunk_result \<Rightarrow> chunk_result" where
  "add_result acc out = acc\<lparr>cr_updates := cr_updates acc @ cr_updates out, cr_prune := cr_prune acc @ cr_prune out\<rparr>"

lemma process_one:
  assumes "d \<noteq> MaverickV2" and "length rs = result_width d"
  shows "process_chunk D now block ((a, d) # chunk) (rs @ rest) acc =
    process_chunk D now block chunk rest (add_result acc (outcome D now block (a, d) rs))"
proof (cases d)
  case UniswapV3
  with assms(2) obtain x y where rs: "rs = [x, y]"
    by (auto simp: result_width_def numeral_2_eq_2 length_Suc_conv)
  then show ?thesis
    using UniswapV3 by (cases x; cases y) (auto simp: outcome_def add_result_def Let_def split: option.splits)
next
  case UniswapV2
  with assms(2) obtain x where rs: "rs = [x]"
    by (auto simp: result_width_def length_Suc_conv)
  then show ?thesis
    using UniswapV2 by (cases x) (auto simp: outcome_def add_result_def Let_def split: option.splits)
next
  case Aerodrome
  with assms(2) obtain x where rs: "rs = [x]"
    by (auto simp: result_width_def length_Suc_conv)
  then show ?thesis
    using Aerodrome by (cases x) (auto simp: outcome_def add_result_def Let_def split: option.splits)
qed (use assms in simp)

lemma process_aligned:
  assumes "list_all2 (\<lambda>(a, d) rs. d \<noteq> MaverickV2 \<and> length rs = result_width d) chunk rss"
  shows "process_chunk D now block chunk (concat rss) acc =
    fold (\<lambda>(ad, rs) acc. add_result acc (outcome D now block ad rs)) (zip chunk rss) acc"
  using assms
proof (induction arbitrary: acc rule: list_all2_induct)
  case (Cons ad chunk rs rss)
  then show ?case by (cases ad) (simp add: process_one del: process_chunk.simps(2))
qed simp

section \<open>Interleavings\<close>

inductive mirror_step :: "mirror \<Rightarrow> mirror \<Rightarrow> bool" where
  block: "mirror_step s (sync_block n fee ts s)"
| trader: "mirror_step s (record_trader p t s)"
| sync_filter: "mirror_step s (update_sync_filter fl s)"
| pool: "mirror_step s (update_pool a p s)"
| fetch: "mirror_step s (fetch_and_cache_bytecode reply a s)"
| read: "mirror_step s (snd (get_pool_data now a s))"
| batch: "mirror_step s (batch_update_reserves us s)"
| v2: "mirror_step s (update_v2_reserves a r0 r1 s)"
| v3: "mirror_step s (update_v3_state a sp tick liq s)"
| stable: "mirror_step s (update_aerodrome_stable a st s)"
| prune: "mirror_step s (prune_stale_pools now s)"
| max_fee: "mirror_step s (set_max_priority_fee mx s)"
| dirty: "mirror_step s (mark_dirty s)"
| chunk: "mirror_step s (fst (sync_chunk (D :: bytes decoders) now block c reply s))"

inductive mirror_reachable :: "mirror \<Rightarrow> bool" where
  start: "mirror_reachable (mirror_new codes pools)"
| step: "mirror_reachable s \<Longrightarrow> mirror_step s s' \<Longrightarrow> mirror_reachable s'"

inductive_cases mirror_stepE: "mirror_step s s'"

definition poison_excluded :: "mirror \<Rightarrow> bool" where
  "poison_excluded s \<longleftrightarrow> (\<forall>a. is_poisoned s a \<longrightarrow> get_bytecode s a = None)"

lemma poison_frame:
  "poison_excluded s \<Longrightarrow> sm_poisoned_accounts s' = sm_poisoned_accounts s \<Longrightarrow>
    sm_bytecodes s' = sm_bytecodes s \<Longrightarrow> poison_excluded s'"
  by (simp add: poison_excluded_def is_poisoned_def get_bytecode_def)

lemma poison_fetch:
  "poison_excluded s \<Longrightarrow> poison_excluded (fetch_and_cache_bytecode reply a s)"
  by (auto simp: fetch_and_cache_bytecode_def poison_excluded_def is_poisoned_def get_bytecode_def
      dm_contains_def lookup_update split: option.splits if_splits)

lemma poison_prune: "poison_excluded s \<Longrightarrow> poison_excluded (prune_stale_pools now s)"
  by (auto simp: prune_stale_pools_def poison_excluded_def is_poisoned_def get_bytecode_def Let_def
      dm.get_retain split: option.splits)

lemma pool_only_frames:
  "sm_poisoned_accounts (batch_update_reserves us s) = sm_poisoned_accounts s"
  "sm_bytecodes (batch_update_reserves us s) = sm_bytecodes s"
  "sm_poisoned_accounts (sync_block n fee ts s) = sm_poisoned_accounts s"
  "sm_bytecodes (sync_block n fee ts s) = sm_bytecodes s"
  "sm_poisoned_accounts (snd (get_pool_data now a s)) = sm_poisoned_accounts s"
  "sm_bytecodes (snd (get_pool_data now a s)) = sm_bytecodes s"
  "sm_poisoned_accounts (fst (sync_chunk D now b c reply s)) = sm_poisoned_accounts s"
  "sm_bytecodes (fst (sync_chunk D now b c reply s)) = sm_bytecodes s"
  by (simp_all add: batch_update_reserves_def mark_dirty_def sync_block_def get_pool_data_def
      sync_chunk_def Let_def split: option.split)

lemma poison_step: "mirror_step s s' \<Longrightarrow> poison_excluded s \<Longrightarrow> poison_excluded s'"
proof (induction rule: mirror_step.induct)
  case (fetch s reply a)
  then show ?case by (intro poison_fetch)
next
  case (prune s now)
  then show ?case by (intro poison_prune)
qed (erule poison_frame; simp add: pool_only_frames record_trader_def update_sync_filter_def
    update_pool_def update_v2_reserves_def update_v3_state_def update_aerodrome_stable_def
    set_max_priority_fee_def mark_dirty_def Let_def)+

lemma poison_start: "poison_excluded (mirror_new codes pools)"
  by (auto simp: poison_excluded_def mirror_new_def load_state_checkpoint_def is_poisoned_def
      dm_contains_def split: option.split)

section \<open>Batches in turns\<close>

text \<open>A turn is a step of the mirror or none, and the turns of a batch that nothing interrupts make
  the whole of \<open>sync_batch_with_jitter\<close>.\<close>

lemma sync_turn_step: "snd (sync_turn D now reply (tasks, s)) = s \<or>
    (\<exists>block c. snd (sync_turn D now reply (tasks, s)) = fst (sync_chunk D now block c reply s))"
  by (cases "(D, now, reply, tasks, s)" rule: sync_turn.cases) (simp_all add: Let_def, blast)

lemma sync_turn_frames [simp]:
  "sm_poisoned_accounts (snd (sync_turn D now reply (tasks, s))) = sm_poisoned_accounts s"
  "sm_bytecodes (snd (sync_turn D now reply (tasks, s))) = sm_bytecodes s"
  using sync_turn_step [of D now reply tasks s] by (auto simp: pool_only_frames)

lemma sync_turns_started:
  "length replies = length cs \<Longrightarrow>
   fold (sync_turn D now) replies ((Some block, cs) # tasks, s) =
     ((Some block, []) # tasks, fst (sync_chunks D now block cs replies s))"
proof (induction cs arbitrary: replies s)
  case (Cons c cs)
  then obtain r rs where "replies = r # rs" "length rs = length cs" by (cases replies) auto
  with Cons.IH [of rs] show ?case by (simp add: case_prod_beta Let_def)
qed simp

theorem turns_make_batch:
  assumes "length replies = length (chunk_list (min k MULTICALL_BATCH_SIZE) batch)" and "batch \<noteq> []" and "k \<noteq> 0"
  shows "map_option fst (sync_batch_with_jitter D now batch k replies s) =
    Some (snd (fold (sync_turn D now) replies (sync_task batch k, s)))"
proof -
  let ?cs = "chunk_list (min k MULTICALL_BATCH_SIZE) batch"
  have k: "min k MULTICALL_BATCH_SIZE \<noteq> 0" using assms(3) by (simp add: MULTICALL_BATCH_SIZE_def)
  then obtain c cs where cs: "?cs = c # cs"
    using assms(2) chunk_list.simps [of "min k MULTICALL_BATCH_SIZE" batch] by simp
  then obtain r rs where rs: "replies = r # rs" "length rs = length cs" using assms(1) by (cases replies) auto
  show ?thesis
    using k assms(2) rs(2)
    by (simp add: sync_batch_with_jitter_def sync_task_def cs rs(1) sync_turns_started case_prod_beta Let_def)
qed

section \<open>Properties\<close>

text \<open>In every state the mirror can reach, by any interleaving of its operations, a poisoned
  account has no cached bytecode: the scan result is never overwritten by a later fetch.\<close>

theorem poisoned_never_cached:
  assumes "mirror_reachable s" and "is_poisoned s a"
  shows "get_bytecode s a = None"
proof -
  from assms(1) have "poison_excluded s"
    by (induction rule: mirror_reachable.induct) (auto intro: poison_start poison_step)
  with assms(2) show ?thesis by (simp add: poison_excluded_def)
qed

theorem poisoned_never_cached_witness:
  "get_bytecode (fetch_and_cache_bytecode (Some [0xff]) 1 (mirror_new None None)) 1 = None"
proof -
  have "mirror_reachable (fetch_and_cache_bytecode (Some [0xff]) 1 (mirror_new None None))"
    by (rule mirror_reachable.step [OF mirror_reachable.start mirror_step.fetch])
  then show ?thesis
    by (rule poisoned_never_cached)
      (simp add: fetch_and_cache_bytecode_def mirror_new_def load_state_checkpoint_def
        load_bytecode_cache_def is_poisoned_def dm_contains_def is_malicious_bytecode_def
        CORE_TOKENS_def CORE_POOLS_def TOP_100_POOLS_def TOKEN_WETH_def TOKEN_USDC_def TOKEN_DAI_def
        POOL_UNIV3_WETH_USDC_005_def POOL_UNIV3_WETH_USDC_030_def POOL_BASESWAP_WETH_USDC_def
        POOL_SUSHI_WETH_USDC_def)
qed

text \<open>A batch update acts on each pool alone and in order: after it a pool is what folding
  its own updates over its old state gives (the first one inserts an unknown pool, the others
  merge), every other pool is untouched, and the dirty flag is set.\<close>

theorem batch_update_per_pool:
  "DAList.lookup (sm_pools (batch_update_reserves us s)) a =
     fold (\<lambda>(k, p) x. if k = a
             then Some (case x of Some old \<Rightarrow> merge_pool p old | None \<Rightarrow> p) else x)
       us (DAList.lookup (sm_pools s) a) \<and>
   sm_dirty_flag (batch_update_reserves us s)"
proof -
  have "fold (\<lambda>(k, p) x. if k = a
             then Some (case x of Some old \<Rightarrow> merge_pool p old | None \<Rightarrow> p) else x) us x
      = fold (merge_into a) us x" for x
    by (induction us arbitrary: x) (auto simp: merge_into_def split: option.split)
  then show ?thesis
    by (simp add: batch_lookup) (simp add: batch_update_reserves_def mark_dirty_def)
qed

text \<open>Pruning keeps a pool exactly when it is a core pool, was never updated, was updated
  fewer than 500 blocks ago or read fewer than 1800 seconds ago; a kept pool is unchanged, and
  before the first block nothing is pruned.\<close>

theorem prune_keeps_exactly:
  "DAList.lookup (sm_pools (prune_stale_pools now s)) a =
     (case DAList.lookup (sm_pools s) a of
        None \<Rightarrow> None
      | Some p \<Rightarrow>
          if sm_current_block s = 0 \<or> a \<in> CORE_POOLS \<or> ps_last_updated_block p = 0 \<or>
             unat (sm_current_block s) - unat (ps_last_updated_block p) < 500 \<or>
             unat now - unat (ps_last_access_ts p) < 1800
          then Some p else None)"
proof -
  have sat: "sat_sub x y < n \<longleftrightarrow> unat x - unat y < unat n" for x y n :: u64
    by (simp add: word_less_nat_alt unat_sat_sub)
  show ?thesis
    by (auto simp: prune_stale_pools_def Let_def dm.get_retain keep_pool_def sat
        split: option.split if_splits)
qed

text \<open>Multicall results reach the right pools when the chunk has no Maverick pool: with two
  results per V3 pool and one per other pool, processing the chunk is processing every pool on
  its own results, in order.\<close>

theorem multicall_results_aligned:
  assumes "list_all2 (\<lambda>(a, d) rs. d \<noteq> MaverickV2 \<and> length rs = (if d = UniswapV3 then 2 else 1)) chunk rss"
  shows "process_chunk D now block chunk (concat rss) acc =
    fold (\<lambda>(ad, rs) acc.
        let out = process_chunk D now block [ad] rs \<lparr>cr_updates = [], cr_prune = []\<rparr>
        in acc\<lparr>cr_updates := cr_updates acc @ cr_updates out, cr_prune := cr_prune acc @ cr_prune out\<rparr>)
      (zip chunk rss) acc"
  using process_aligned [of chunk rss D now block acc] assms
  by (simp add: result_width_def outcome_def add_result_def Let_def)

theorem multicall_results_aligned_witness:
  "process_chunk (Decoders Some (\<lambda>_. None) (\<lambda>_. None)) 0 7 [(1, UniswapV2), (2, UniswapV2)]
      [(True, (10 ^ 18, 5)), (True, (10 ^ 18, 6))] \<lparr>cr_updates = [], cr_prune = []\<rparr> =
    fold (\<lambda>(ad, rs) acc.
        let out = process_chunk (Decoders Some (\<lambda>_. None) (\<lambda>_. None)) 0 7 [ad] rs \<lparr>cr_updates = [], cr_prune = []\<rparr>
        in acc\<lparr>cr_updates := cr_updates acc @ cr_updates out, cr_prune := cr_prune acc @ cr_prune out\<rparr>)
      (zip [(1, UniswapV2), (2, UniswapV2)] [[(True, (10 ^ 18, 5))], [(True, (10 ^ 18, 6))]])
      \<lparr>cr_updates = [], cr_prune = []\<rparr>"
  using multicall_results_aligned [of "[(1, UniswapV2), (2, UniswapV2)]"
      "[[(True, (10 ^ 18, 5))], [(True, (10 ^ 18, 6))]]"
      "Decoders Some (\<lambda>_. None) (\<lambda>_. None)" 0 7 "\<lparr>cr_updates = [], cr_prune = []\<rparr>"]
  by simp

text \<open>A Maverick pool in the chunk shifts the results: its call is sent but its result is not
  consumed, so the next pool is updated from the Maverick pool's reserves.\<close>

theorem maverick_shifts_results:
  "length (chunk_calls [(m, MaverickV2), (p, UniswapV2)]) = length [rm, rp] \<and>
   process_chunk D now block [(m, MaverickV2), (p, UniswapV2)] [rm, rp] acc =
     process_chunk D now block [(p, UniswapV2)] [rm] acc"
  by (cases rm; cases rp) (simp add: chunk_calls_def Let_def split: option.split)

text \<open>A chunk whose pools are all below the liquidity threshold is treated as a failed call:
  the pools are not pruned, the state is unchanged and the provider is marked unhealthy.\<close>

theorem dust_chunk_not_pruned:
  assumes "dec_reserves D r = Some (r0, r1)" and "r0 < eth_threshold" and "r1 < eth_threshold"
    and "a \<notin> TOP_100_POOLS"
  shows "cr_prune (process_chunk D now block [(a, UniswapV2)] [(True, r)] \<lparr>cr_updates = [], cr_prune = []\<rparr>) = [a] \<and>
    sync_chunk D now block [(a, UniswapV2)] (Some [(True, r)]) s = (s, True)"
  using assms by (simp add: sync_chunk_def Let_def)

theorem dust_chunk_not_pruned_witness:
  "sync_chunk (Decoders Some (\<lambda>_. None) (\<lambda>_. None)) 0 7 [(1, UniswapV2)] (Some [(True, (1, 2))]) (mirror_new None None) =
    (mirror_new None None, True)"
  using dust_chunk_not_pruned [of "Decoders Some (\<lambda>_. None) (\<lambda>_. None)" "(1, 2)" 1 2 1]
  by (simp add: eth_threshold_def TOP_100_POOLS_def)

end
