(* ===== verification/Engine_Facts.thy ===== *)
theory Engine_Facts
  imports Engine Mirror_Facts
begin

text \<open>
  Invariants of the engine over every sequence of the steps of its tasks: the executor that never
  sends, and what the start-up and the streams keep in step.
\<close>

section \<open>Bytecodes under the steps\<close>

lemma with_mirror_simps [simp]:
  "wd_mirror (en_world (with_mirror f en)) = f (wd_mirror (en_world en))"
  "wd_executor (en_world (with_mirror f en)) = wd_executor (en_world en)"
  "wd_sent (en_world (with_mirror f en)) = wd_sent (en_world en)"
  "wd_nonces (en_world (with_mirror f en)) = wd_nonces (en_world en)"
  "wd_breaker (en_world (with_mirror f en)) = wd_breaker (en_world en)"
  "wd_tracker (en_world (with_mirror f en)) = wd_tracker (en_world en)"
  "en_init_queue (with_mirror f en) = en_init_queue en"
  "en_seen_hashes (with_mirror f en) = en_seen_hashes en"
  by (simp_all add: with_mirror_def)

lemma sweep_advance_simps [simp]:
  "wd_mirror (en_world (sweep_advance env en)) = wd_mirror (en_world en)"
  "wd_executor (en_world (sweep_advance env en)) = wd_executor (en_world en)"
  "wd_sent (en_world (sweep_advance env en)) = wd_sent (en_world en)"
  "wd_breaker (en_world (sweep_advance env en)) = wd_breaker (en_world en)"
  "wd_global_pause (en_world (sweep_advance env en)) = wd_global_pause (en_world en)"
  "en_init_queue (sweep_advance env en) = en_init_queue en"
  "en_seen_hashes (sweep_advance env en) = en_seen_hashes en"
  "en_profit (sweep_advance env en) = en_profit en"
  by (simp_all add: sweep_advance_def case_prod_beta Let_def split: option.split)

lemma bootstrap_turn_simps [simp]:
  "sm_bytecodes (wd_mirror (en_world (bootstrap_turn D now reply en))) = sm_bytecodes (wd_mirror (en_world en))"
  "sm_poisoned_accounts (wd_mirror (en_world (bootstrap_turn D now reply en))) = sm_poisoned_accounts (wd_mirror (en_world en))"
  "wd_executor (en_world (bootstrap_turn D now reply en)) = wd_executor (en_world en)"
  "wd_sent (en_world (bootstrap_turn D now reply en)) = wd_sent (en_world en)"
  "wd_breaker (en_world (bootstrap_turn D now reply en)) = wd_breaker (en_world en)"
  "wd_global_pause (en_world (bootstrap_turn D now reply en)) = wd_global_pause (en_world en)"
  "en_init_queue (bootstrap_turn D now reply en) = en_init_queue en"
  "en_seen_hashes (bootstrap_turn D now reply en) = en_seen_hashes en"
  "en_profit (bootstrap_turn D now reply en) = en_profit en"
  "en_inventory (bootstrap_turn D now reply en) = en_inventory en"
  by (simp_all add: bootstrap_turn_def with_mirror_def case_prod_beta Let_def split: option.split)

lemma update_mirror_codes: "sm_bytecodes (update_mirror_state l sm) = sm_bytecodes sm"
  by (auto simp: update_mirror_state_def update_v2_reserves_def update_v3_state_def mark_dirty_def split: list.split option.split)

lemma sync_chunks_codes: "sm_bytecodes (fst (sync_chunks D now b cs replies sm)) = sm_bytecodes sm"
proof (induction cs arbitrary: replies sm)
  case (Cons c cs)
  then show ?case
    using pool_only_frames(8) by (simp add: case_prod_beta Let_def)
qed simp

lemma prune_codes: "get_bytecode sm x = None \<Longrightarrow> get_bytecode (prune_stale_pools now sm) x = None"
  by (simp add: prune_stale_pools_def get_bytecode_def Let_def dm.get_retain)

lemma codes_cong: "sm_bytecodes sm' = sm_bytecodes sm \<Longrightarrow> get_bytecode sm' x = get_bytecode sm x"
  by (simp add: get_bytecode_def)

section \<open>The silent executor\<close>

definition inert_machine :: "address \<Rightarrow> 'e exec_env \<Rightarrow> bool" where
  "inert_machine x env \<longleftrightarrow> (\<exists>has_code. \<forall>l sm. codeless_inert (xe_sim env l) (has_code l) sm x)"

definition avoids :: "address \<Rightarrow> opportunity \<Rightarrow> bool" where
  "avoids x opp \<longleftrightarrow> x \<notin> hop_token_out ` set (path_hops (op_path opp)) \<union> hop_pool_address ` set (path_hops (op_path opp))"

definition other_pool :: "address \<Rightarrow> new_pool_event \<Rightarrow> bool" where
  "other_pool x event \<longleftrightarrow> fst (pool_of_event event) \<noteq> x"

definition silent :: "address \<Rightarrow> mev_bundle list \<Rightarrow> 'p engine \<Rightarrow> bool" where
  "silent x sent en \<longleftrightarrow> fx_contract_address (wd_executor (en_world en)) = x \<and>
     0 < fx_min_profit_wei (wd_executor (en_world en)) \<and> get_bytecode (wd_mirror (en_world en)) x = None \<and>
     wd_sent (en_world en) = sent \<and> x \<notin> fst ` set (en_init_queue en)"

lemma silent_frame:
  assumes "silent x sent en" and "wd_executor (en_world en') = wd_executor (en_world en)"
    and "wd_sent (en_world en') = wd_sent (en_world en)" and "en_init_queue en' = en_init_queue en"
    and "get_bytecode (wd_mirror (en_world en')) x = None"
  shows "silent x sent en'"
  using assms by (simp add: silent_def)

lemma silent_feed:
  assumes "silent x sent en" and "other_pool x event"
  shows "silent x sent (pool_feed now event en)"
proof -
  have codes: "sm_bytecodes (wd_mirror (en_world (pool_feed now event en))) = sm_bytecodes (wd_mirror (en_world en))"
    by (auto simp: pool_feed_def pool_of_event_def update_aerodrome_stable_def mark_dirty_def Let_def split: new_pool_event.split)
  have rest: "wd_executor (en_world (pool_feed now event en)) = wd_executor (en_world en)"
      "wd_sent (en_world (pool_feed now event en)) = wd_sent (en_world en)"
      "en_init_queue (pool_feed now event en) = en_init_queue en @ [pool_of_event event]"
    by (auto simp: pool_feed_def Let_def pool_of_event_def split: new_pool_event.split prod.split)
  show ?thesis
    using assms codes_cong [OF codes, of x] by (auto simp: silent_def rest other_pool_def)
qed

lemma silent_init:
  assumes "silent x sent en" and "init_worker D now code replies en = Some en'"
  shows "silent x sent en'"
proof (cases "en_init_queue en")
  case Nil
  then show ?thesis using assms by (simp add: init_worker_def)
next
  case (Cons ad queue)
  obtain a d where ad: "ad = (a, d)" by (cases ad)
  let ?sm = "fetch_and_cache_bytecode code a (wd_mirror (en_world en))"
  have ne: "a \<noteq> x" "x \<notin> fst ` set queue" using assms(1) Cons ad by (auto simp: silent_def)
  from assms(2) Cons ad obtain sm bs where
    sync: "sync_batch_with_jitter D now [(a, d)] 1 replies ?sm = Some (sm, bs)" and
    en': "en' = with_mirror (\<lambda>_. sm) (with_mirror (fetch_and_cache_bytecode code a) (en\<lparr>en_init_queue := queue\<rparr>))"
    by (auto simp: init_worker_def with_mirror_def bind_eq_Some_conv Let_def)
  have "sync_chunks D now (sm_current_block ?sm) (chunk_list (min 1 MULTICALL_BATCH_SIZE) [(a, d)]) replies ?sm = (sm, bs)"
    using sync by (auto simp: sync_batch_with_jitter_def Let_def split: if_splits)
  then have "sm_bytecodes sm = sm_bytecodes ?sm"
    using sync_chunks_codes [of D now "sm_current_block ?sm" "chunk_list (min 1 MULTICALL_BATCH_SIZE) [(a, d)]" replies ?sm]
    by (simp only: fst_conv)
  then have "get_bytecode sm x = get_bytecode ?sm x" by (rule codes_cong)
  then have "get_bytecode sm x = None"
    using assms(1) fetch_other [OF ne(1)] by (simp add: silent_def)
  then show ?thesis using assms(1) ne(2) by (simp add: en' silent_def)
qed

lemma silent_dispatch:
  assumes "silent x sent en" and "inert_machine x env" and "avoids x opp"
    and "dispatch env tenv permit opp en = Some en'"
  shows "silent x sent en'"
proof (cases "en' = en")
  case True
  then show ?thesis using assms(1) by simp
next
  case False
  let ?w = "en_world en"
  from assms(2) obtain hc where inert: "\<forall>l sm. codeless_inert (xe_sim env l) (hc l) sm x"
    unfolding inert_machine_def by blast
  from False assms(4) obtain w r where run: "simulate_and_execute env opp ?w = Some (w, r)"
      and en': "Some en' = (case r of Inl _ \<Rightarrow> Some (en\<lparr>en_world := w\<rparr>) | Inr _ \<Rightarrow> after_success tenv opp (en\<lparr>en_world := w\<rparr>))"
    by (auto simp: dispatch_def bind_eq_Some_conv Let_def split: if_splits)
  have x: "fx_contract_address (wd_executor ?w) = x" "get_bytecode (wd_mirror ?w) x = None"
      "0 < fx_min_profit_wei (wd_executor ?w)" "wd_sent ?w = sent"
    using assms(1) by (simp_all add: silent_def)
  have none: "(\<exists>e. r = Inl e) \<and> wd_sent w = wd_sent ?w"
    using never_sends [OF _ _ _ _ run, of hc] x inert assms(3) by (simp add: avoids_def)
  have ready: "get_bytecode (wd_mirror (ready_world env opp ?w)) x = None"
    using x(2) assms(3) fetch_tasks_subset [of "wd_mirror ?w" "opp_hops opp"]
    unfolding ready_mirror avoids_def opp_hops_def by (subst run_fetches_other) auto
  have "fx_contract_address (wd_executor w) = x \<and> fx_min_profit_wei (wd_executor w) = fx_min_profit_wei (wd_executor ?w) \<and>
      get_bytecode (wd_mirror w) x = None"
    using execute_stages [OF run]
  proof (elim disjE)
    assume "admitted env opp ?w \<and> vetted_path env opp ?w \<and>
        simulate_and_submit env opp (target_of ?w) (ready_world env opp ?w) = Some (w, r)"
    then have "same_frame (ready_world env opp ?w) w" using simulate_and_submit_stages by blast
    then show ?thesis using x ready by (simp add: same_frame_def)
  qed (use x ready in \<open>auto simp: lock_world_def\<close>)
  moreover have "en' = en\<lparr>en_world := w\<rparr>" using none en' by auto
  ultimately show ?thesis using assms(1) none by (simp add: silent_def)
qed

lemma silent_step:
  assumes "engine_step (inert_machine x) (avoids x) (other_pool x) en en'" and "silent x sent en"
  shows "silent x sent en'"
  using assms
proof (induction rule: engine_step.induct)
  case (log en l)
  then show ?case
    by (intro silent_frame [OF log])
      (simp_all add: heartbeat_log_def codes_cong [OF update_mirror_codes] silent_def)
next
  case (block en now bn fee ts)
  then show ?case
    by (intro silent_frame [OF block])
      (simp_all add: heartbeat_block_def Let_def codes_cong [OF pool_only_frames(4)] silent_def)
next
  case (bridge en now l)
  then show ?case by (intro silent_frame [OF bridge]) (simp_all add: bridge_log_def Let_def silent_def)
next
  case (feed event en now)
  show ?case by (rule silent_feed [OF feed(2,1)])
next
  case (init D now code replies en en')
  show ?case by (rule silent_init [OF init(2,1)])
next
  case (prune en now)
  then show ?case by (intro silent_frame [OF prune]) (simp_all add: prune_codes silent_def)
next
  case (bootstrap en D now reply)
  then show ?case
    by (intro silent_frame [OF bootstrap]) (simp_all add: codes_cong [OF bootstrap_turn_simps(1)] silent_def)
next
  case (gas en eth weth)
  then show ?case by (intro silent_frame [OF gas(2)]) (simp_all add: gas_check_def silent_def)
next
  case (sweep en senv)
  then show ?case by (intro silent_frame [OF sweep(2)]) (simp_all add: harvest_def case_prod_beta silent_def Let_def)
next
  case (sweep_turn en senv)
  then show ?case by (intro silent_frame [OF sweep_turn]) (simp_all add: silent_def)
next
  case (report en)
  then show ?case by (intro silent_frame [OF report]) (simp_all add: daily_report_def silent_def)
next
  case (opportunity env opp tenv permit en en')
  show ?case by (rule silent_dispatch [OF opportunity(4,1,2,3)])
qed

section \<open>Properties\<close>

text \<open>The engine never sends a bundle in the configuration of \<open>main.rs\<close>: if the bytecode cache
  does not hold the executor contract at the start and the minimum profit is positive, then in
  every sequence of steps of the log and block streams, the pool feed, the bootstrap, the initialisation worker,
  the housekeeping tasks and the handling of opportunities, no bundle is ever given to the relays.
  Assumed of the outside: calls to accounts without code are inert, and neither a hop nor a new
  pool is the executor contract itself.\<close>

theorem engine_never_sends:
  assumes "engine_run (inert_machine x) (avoids x) (other_pool x) en en'"
    and "fx_contract_address (wd_executor (en_world en)) = x" and "0 < fx_min_profit_wei (wd_executor (en_world en))"
    and "get_bytecode (wd_mirror (en_world en)) x = None" and "en_init_queue en = []"
  shows "wd_sent (en_world en') = wd_sent (en_world en)"
proof -
  have "silent x (wd_sent (en_world en)) en" using assms(2-5) by (simp add: silent_def)
  with assms(1) have "silent x (wd_sent (en_world en)) en'"
    by (induction rule: engine_run.induct) (auto intro: silent_step)
  then show ?thesis by (simp add: silent_def)
qed

text \<open>An engine around the world of the executor's instances.\<close>

definition sample_engine :: "unit engine" where
  "sample_engine = \<lparr>en_world = sample_world, en_profit = profit_manager_new Base 0 None,
     en_inventory = inventory_new Base 9 3, en_seen_hashes = {}, en_init_queue = [], en_bootstrap = None, en_sweep = None\<rparr>"

theorem engine_never_sends_witness:
  "\<exists>en'. dispatch (sample_env inert_env) \<lparr>te_balance = Inr 0, te_l1_fee = Inr 0, te_gas_price = None, te_send = (\<lambda>_. True)\<rparr>
      True sample_opp sample_engine = Some en' \<and> wd_sent (en_world en') = []"
proof -
  let ?env = "sample_env inert_env" and ?t = "\<lparr>te_balance = Inr 0, te_l1_fee = Inr 0, te_gas_price = None, te_send = (\<lambda>_. True)\<rparr>"
  have world: "en_world sample_engine = sample_world" "wd_global_pause sample_world = False"
      "fx_contract_address (wd_executor sample_world) = 9" "0 < fx_min_profit_wei (wd_executor sample_world)"
      "wd_mirror sample_world = fresh_mirror" "wd_sent sample_world = []" "en_init_queue sample_engine = []"
    by (simp_all add: sample_engine_def sample_world_def)
  obtain en' where run: "dispatch ?env ?t True sample_opp sample_engine = Some en'"
    by (simp add: dispatch_def world narrow_def sample_inert_run)
  have "inert_machine 9 ?env" unfolding inert_machine_def
    by (intro exI [of _ "\<lambda>_ e. e"]) (simp add: sample_env_def inert_codeless)
  moreover have "avoids 9 sample_opp" by (simp add: avoids_def TOKEN_WETH_def)
  ultimately have "engine_step (inert_machine 9 :: (address \<Rightarrow> bool) exec_env \<Rightarrow> bool) (avoids 9) (other_pool 9) sample_engine en'"
    by (rule engine_step.opportunity [OF _ _ run])
  then have "engine_run (inert_machine 9 :: (address \<Rightarrow> bool) exec_env \<Rightarrow> bool) (avoids 9) (other_pool 9) sample_engine en'"
    by (rule engine_run.step [OF engine_run.stay])
  from engine_never_sends [OF this] show ?thesis using run world by simp
qed

text \<open>The bytecode of a pool is never fetched: as long as the pool the initialisation worker
  takes is in the mirror, which the pool feed has put it in, the fetch is a no-op, so the
  simulated calls of a path meet accounts without code.\<close>

theorem pool_code_never_fetched:
  "wd_mirror (en_world (with_mirror (fetch_and_cache_bytecode code (fst (pool_of_event event))) (pool_feed now event en))) =
   wd_mirror (en_world (pool_feed now event en))"
proof -
  have stable: "dm_contains (sm_pools (update_aerodrome_stable a b sm)) y = dm_contains (sm_pools sm) y" for a b sm y
    by (simp add: update_aerodrome_stable_def mark_dirty_def dm_contains_def lookup_map_entry)
  have upd: "dm_contains (DAList.update a p m) a" for a p and m :: "(address, pool_state) dmap"
    by (simp add: dm_contains_def lookup_update)
  have "dm_contains (sm_pools (wd_mirror (en_world (pool_feed now event en)))) (fst (pool_of_event event))"
    by (cases event) (simp_all add: pool_feed_def pool_of_event_def Let_def stable upd)
  then show ?thesis by (simp add: fetch_and_cache_bytecode_def)
qed

end
