(* ===== verification/Engine_Types.thy ===== *)
theory Engine_Types
  imports Engine_Facts "HOL-Library.Sublist"
begin

text \<open>
  The well-formedness of the engine's state, and what only ever grows: every task of the engine,
  in any order and under any environment, keeps both.
\<close>

section \<open>The world\<close>

text \<open>The breaker keeps its four counters, the mirror its poison list; the executor keeps its
  configuration, the bundles are a log, the pause is never lifted.\<close>

definition world_grows :: "'p world \<Rightarrow> 'p world \<Rightarrow> bool" where
  "world_grows w w' \<longleftrightarrow>
     (breaker_wf (wd_breaker w) \<longrightarrow> breaker_wf (wd_breaker w')) \<and>
     (poison_excluded (wd_mirror w) \<longrightarrow> poison_excluded (wd_mirror w')) \<and>
     fx_contract_address (wd_executor w') = fx_contract_address (wd_executor w) \<and>
     fx_min_profit_wei (wd_executor w') = fx_min_profit_wei (wd_executor w) \<and>
     prefix (wd_sent w) (wd_sent w') \<and> (wd_global_pause w \<longrightarrow> wd_global_pause w')"

lemma world_grows_refl [simp]: "world_grows w w"
  by (simp add: world_grows_def)

lemma world_grows_trans [trans]: "world_grows w1 w2 \<Longrightarrow> world_grows w2 w3 \<Longrightarrow> world_grows w1 w3"
  unfolding world_grows_def by (auto intro: prefix_order.trans)

lemma grows_broadcast_end: "world_grows w (fst (broadcast_end env opp sb tb w))"
proof -
  have "breaker_wf (wd_breaker w) \<Longrightarrow> breaker_wf (record_success (wd_breaker w))"
    using step_wf [OF breaker_step.success] by simp
  moreover have "breaker_wf (wd_breaker w) \<Longrightarrow> breaker_wf (fst (record_failure now k (wd_breaker w, p)))" for now k p
    using step_wf [OF breaker_step.fail] by simp
  moreover have "p \<Longrightarrow> snd (record_failure now k (b, p))" for now k b p
    using step_pause [OF breaker_step.fail] by simp
  ultimately show ?thesis
    by (simp add: broadcast_end_def world_grows_def Let_def case_prod_beta)
qed

lemma grows_broadcast: "world_grows w (fst (broadcast_loop env opp sb tb 0 w))"
proof -
  have "world_grows w (w\<lparr>wd_sent := wd_sent w @ [bundle_for sb tb]\<rparr>)" by (simp add: world_grows_def)
  then show ?thesis
    unfolding broadcast_loop_cases Let_def
    using grows_broadcast_end world_grows_trans by (simp split: if_split) blast
qed

lemma grows_guards: "execution_guards env opp c w = Some (w', g) \<Longrightarrow> world_grows w w'"
  by (auto simp: execution_guards_def world_grows_def Let_def bind_eq_Some_conv split: if_splits)

lemma grows_submit:
  assumes "submit env opp c tb w = Some (w', r)"
  shows "world_grows w w'"
proof -
  from assms obtain tx pct v where v: "prepare_tx env opp c w = Some (tx, pct, v)"
      and r: "(w', r) = (case xe_sign env tx of
         Inl e \<Rightarrow> (v, Inl (Other (''FlashLoan Signing Failed: '' @ e)))
       | Inr (rlp, hash) \<Rightarrow> broadcast_loop env opp \<lparr>sb_rlp = rlp, sb_hash = hash,
           sb_bribe_wei = bribe_of (cd_net_profit c) pct, sb_bribe_pct = pct\<rparr> tb 0 v)"
    by (auto simp: submit_def bind_eq_Some_conv)
  from v obtain b n where "v = w\<lparr>wd_bidder := b, wd_nonces := n\<rparr>"
    by (auto simp: prepare_tx_def Let_def bind_eq_Some_conv case_prod_beta)
  then have "world_grows w v" by (simp add: world_grows_def)
  also have "world_grows v w'"
  proof (cases "xe_sign env tx")
    case (Inl e)
    then show ?thesis using r by simp
  next
    case (Inr p)
    then obtain sb where "(w', r) = broadcast_loop env opp sb tb 0 v" using r by (cases p) simp
    then show ?thesis using grows_broadcast [of v env opp sb tb] by (metis fst_conv)
  qed
  finally show ?thesis .
qed

lemma grows_simulate_and_submit:
  assumes "simulate_and_submit env opp tb w = Some (w', r)"
  shows "world_grows w w'"
proof -
  from assms obtain best where best: "best_candidate env w opp = Some best"
    by (auto simp: simulate_and_submit_def bind_eq_Some_conv)
  show ?thesis
  proof (cases best)
    case None
    then show ?thesis using assms best by (auto simp: simulate_and_submit_def)
  next
    case (Some c)
    with assms best obtain v g where g: "execution_guards env opp c w = Some (v, g)"
      by (auto simp: simulate_and_submit_def bind_eq_Some_conv)
    then have "world_grows w v" by (rule grows_guards)
    also have "world_grows v w'"
      using assms best Some g grows_submit by (cases g) (auto simp: simulate_and_submit_def)
    finally show ?thesis .
  qed
qed

lemma poison_run_fetches: "poison_excluded sm \<Longrightarrow> poison_excluded (run_fetches code tasks sm)"
  unfolding run_fetches_def by (induction tasks arbitrary: sm) (auto intro: poison_fetch)

lemma grows_execute:
  assumes "simulate_and_execute env opp w = Some (w', r)"
  shows "world_grows w w'"
proof -
  have ready: "world_grows w (ready_world env opp w)"
    unfolding world_grows_def ready_mirror
    by (auto intro: poison_run_fetches simp: ready_world_def vet_world_def fetch_world_def lock_world_def)
  have locked: "world_grows w ((lock_world (target_of w) opp w)\<lparr>wd_mirror := m\<rparr>)"
    if "m \<in> {wd_mirror w, wd_mirror (ready_world env opp w)}" for m
    using that by (auto simp: world_grows_def lock_world_def ready_mirror intro: poison_run_fetches)
  from execute_stages [OF assms] show ?thesis
  proof (elim disjE conjE exE)
    fix m e
    assume "w' = (lock_world (target_of w) opp w)\<lparr>wd_mirror := m\<rparr>"
      and "m \<in> {wd_mirror w, wd_mirror (ready_world env opp w)}"
    then show ?thesis using locked by simp
  next
    assume "simulate_and_submit env opp (target_of w) (ready_world env opp w) = Some (w', r)"
    then show ?thesis using ready grows_simulate_and_submit world_grows_trans by blast
  qed simp
qed

section \<open>The engine\<close>

definition engine_wf :: "'p engine \<Rightarrow> bool" where
  "engine_wf en \<longleftrightarrow> breaker_wf (wd_breaker (en_world en)) \<and> poison_excluded (wd_mirror (en_world en)) \<and>
     0 \<notin> iv_harvest_registry (en_inventory en)"

definition engine_grows :: "'p engine \<Rightarrow> 'p engine \<Rightarrow> bool" where
  "engine_grows en en' \<longleftrightarrow> world_grows (en_world en) (en_world en') \<and>
     iv_harvest_registry (en_inventory en) \<subseteq> iv_harvest_registry (en_inventory en') \<and>
     (0 \<in> iv_harvest_registry (en_inventory en') \<longrightarrow> 0 \<in> iv_harvest_registry (en_inventory en)) \<and>
     en_seen_hashes en \<subseteq> en_seen_hashes en'"

lemma engine_grows_refl [simp]: "engine_grows en en"
  by (simp add: engine_grows_def)

lemma engine_grows_trans [trans]: "engine_grows a b \<Longrightarrow> engine_grows b c \<Longrightarrow> engine_grows a c"
  unfolding engine_grows_def by (auto intro: world_grows_trans)

lemma engine_grows_wf: "engine_grows en en' \<Longrightarrow> engine_wf en \<Longrightarrow> engine_wf en'"
  by (auto simp: engine_grows_def engine_wf_def world_grows_def)

text \<open>A task that only touches the mirror grows the engine if it keeps the poison list's contract.\<close>

lemma grows_with_mirror:
  assumes "poison_excluded (wd_mirror (en_world en)) \<Longrightarrow> poison_excluded (f (wd_mirror (en_world en)))"
  shows "engine_grows en (with_mirror f en)"
  using assms by (simp add: engine_grows_def world_grows_def with_mirror_def)

lemma poison_mirror_log: "poison_excluded sm \<Longrightarrow> poison_excluded (update_mirror_state l sm)"
  by (erule poison_frame)
    (auto simp: update_mirror_state_def update_v2_reserves_def update_v3_state_def mark_dirty_def split: list.split option.split)

lemma poison_chunks: "poison_excluded sm \<Longrightarrow> poison_excluded (fst (sync_chunks D now b cs replies sm))"
proof (induction cs arbitrary: replies sm)
  case (Cons c cs)
  have "poison_excluded (fst (sync_chunk D now b c reply sm))" for c reply
    by (rule poison_frame [OF Cons.prems]) (simp_all add: pool_only_frames)
  with Cons.IH show ?case by (simp add: case_prod_beta Let_def)
qed simp

lemma registry_harvest: "iv_harvest_registry v \<subseteq> iv_harvest_registry (harvest_tokens hs v) \<and>
    (0 \<in> iv_harvest_registry (harvest_tokens hs v) \<longrightarrow> 0 \<in> iv_harvest_registry v)"
  unfolding harvest_tokens_def
proof (induction hs arbitrary: v)
  case (Cons h hs)
  from Cons [of "register_token_for_harvest (hop_token_out h) (register_token_for_harvest (hop_token_in h) v)"]
  show ?case by (auto simp: register_token_for_harvest_def split: if_splits)
qed simp

lemma registry_sweep_begin: "iv_harvest_registry (snd (sweep_begin env v)) = iv_harvest_registry v"
  by (simp add: sweep_begin_def Let_def)

lemma registry_sweep_turn: "iv_harvest_registry (fst (snd (snd (sweep_turn env task (v, n))))) = iv_harvest_registry v"
  by (simp add: sweep_turn.simps sell_step_def case_prod_beta Let_def split: list.split sweep_stage.split)

lemma poison_fresh_pool:
  "poison_excluded sm \<Longrightarrow> poison_excluded (sm\<lparr>sm_pools := m\<rparr>)"
  "poison_excluded sm \<Longrightarrow> poison_excluded (update_aerodrome_stable a b sm)"
  by (erule poison_frame; simp add: update_aerodrome_stable_def mark_dirty_def)+

lemma engine_grows_same_mirror:
  assumes "engine_grows en en1" and "en_world en2 = en_world en1" and "en_inventory en2 = en_inventory en1"
    and "en_seen_hashes en2 = en_seen_hashes en1"
  shows "engine_grows en en2"
  using assms by (simp add: engine_grows_def)

lemma grows_feed: "engine_grows en (pool_feed now event en)"
proof -
  obtain a d where ad: "pool_of_event event = (a, d)" by fastforce
  let ?f = "\<lambda>sm. if dm_contains (sm_pools sm) a then sm
      else sm\<lparr>sm_pools := DAList.update a ((default_pool_state now)\<lparr>ps_dex_type := d\<rparr>) (sm_pools sm)\<rparr>"
  let ?en = "(with_mirror ?f en)\<lparr>en_init_queue := en_init_queue (with_mirror ?f en) @ [(a, d)]\<rparr>"
  have "engine_grows en (with_mirror ?f en)" by (intro grows_with_mirror) (simp add: poison_fresh_pool)
  then have "engine_grows en ?en" by (rule engine_grows_same_mirror) simp_all
  moreover have "engine_grows ?en (pool_feed now event en)"
    unfolding pool_feed_def ad Let_def prod.case
    using grows_with_mirror [OF poison_fresh_pool(2), of ?en] by (cases event) simp_all
  ultimately show ?thesis by (rule engine_grows_trans)
qed

lemma grows_init:
  assumes "init_worker D now code replies en = Some en'"
  shows "engine_grows en en'"
proof (cases "en_init_queue en")
  case Nil
  then show ?thesis using assms by (simp add: init_worker_def)
next
  case (Cons ad queue)
  obtain a d where ad: "ad = (a, d)" by (cases ad)
  let ?en = "with_mirror (fetch_and_cache_bytecode code a) (en\<lparr>en_init_queue := queue\<rparr>)"
  let ?sm = "wd_mirror (en_world ?en)"
  from assms Cons ad obtain sm bs where
    sync: "sync_batch_with_jitter D now [(a, d)] 1 replies ?sm = Some (sm, bs)" and en': "en' = with_mirror (\<lambda>_. sm) ?en"
    by (auto simp: init_worker_def bind_eq_Some_conv Let_def)
  have "sync_chunks D now (sm_current_block ?sm) (chunk_list (min 1 MULTICALL_BATCH_SIZE) [(a, d)]) replies ?sm = (sm, bs)"
    using sync by (auto simp: sync_batch_with_jitter_def Let_def split: if_splits)
  then have "poison_excluded ?sm \<Longrightarrow> poison_excluded sm"
    using poison_chunks [of ?sm D now "sm_current_block ?sm" "chunk_list (min 1 MULTICALL_BATCH_SIZE) [(a, d)]" replies]
    by (simp only: fst_conv)
  then have "engine_grows ?en en'" unfolding en' by (intro grows_with_mirror) simp
  moreover have "engine_grows en ?en"
    by (simp add: engine_grows_def world_grows_def with_mirror_def poison_fetch)
  ultimately show ?thesis using engine_grows_trans by blast
qed

lemma grows_block: "engine_grows en (heartbeat_block now bn fee ts en)"
proof -
  have "breaker_wf b \<Longrightarrow> breaker_wf (record_sequencer_drift now ts b)" for b
    using step_wf [OF breaker_step.drift] by simp
  moreover have "poison_excluded sm \<Longrightarrow> poison_excluded (sync_block bn f ts sm)" for f sm
    by (erule poison_frame) (simp_all add: pool_only_frames)
  ultimately show ?thesis
    by (simp add: heartbeat_block_def engine_grows_def world_grows_def with_mirror_def Let_def)
qed

lemma grows_success:
  assumes "after_success tenv opp en = Some en'"
  shows "engine_grows en en'"
  using assms registry_harvest [of "en_inventory en" "path_hops (op_path opp)"]
  by (auto simp: after_success_def engine_grows_def world_grows_def Let_def bind_eq_Some_conv split: option.splits)

lemma grows_dispatch:
  assumes "dispatch env tenv permit opp en = Some en'"
  shows "engine_grows en en'"
proof (cases "en' = en")
  case False
  with assms obtain w r where run: "simulate_and_execute env opp (en_world en) = Some (w, r)"
      and en': "(case r of Inl _ \<Rightarrow> Some (en\<lparr>en_world := w\<rparr>) | Inr _ \<Rightarrow> after_success tenv opp (en\<lparr>en_world := w\<rparr>)) = Some en'"
    by (auto simp: dispatch_def bind_eq_Some_conv Let_def split: if_splits)
  have "engine_grows en (en\<lparr>en_world := w\<rparr>)" using grows_execute [OF run] by (simp add: engine_grows_def)
  also have "engine_grows (en\<lparr>en_world := w\<rparr>) en'" using en' grows_success by (cases r) auto
  finally show ?thesis .
qed simp

lemma grows_step: "engine_step E Q F en en' \<Longrightarrow> engine_grows en en'"
proof (induction rule: engine_step.induct)
  case (log en l)
  show ?case unfolding heartbeat_log_def by (intro grows_with_mirror poison_mirror_log)
next
  case (bridge en now l)
  show ?case by (auto simp: bridge_log_def engine_grows_def Let_def)
next
  case (prune en now)
  show ?case by (intro grows_with_mirror poison_prune)
next
  case (bootstrap en D now reply)
  have "poison_excluded (wd_mirror (en_world en)) \<Longrightarrow> poison_excluded (wd_mirror (en_world (bootstrap_turn D now reply en)))"
    by (erule poison_frame) simp_all
  then show ?case by (simp add: engine_grows_def world_grows_def)
next
  case (sweep en senv)
  show ?case by (simp add: harvest_def case_prod_beta Let_def engine_grows_def world_grows_def registry_sweep_begin)
next
  case (sweep_turn en senv)
  have "iv_harvest_registry (en_inventory (sweep_advance senv en)) = iv_harvest_registry (en_inventory en)"
    by (simp add: sweep_advance_def case_prod_beta Let_def registry_sweep_turn split: option.split)
  then show ?case by (simp add: engine_grows_def world_grows_def)
qed (simp_all add: grows_block grows_feed grows_init grows_dispatch gas_check_def daily_report_def
    engine_grows_def [of en "en\<lparr>en_world := w\<rparr>" for en w] engine_grows_def [of en "en\<lparr>en_profit := w\<rparr>" for en w] world_grows_def)

section \<open>Properties\<close>

text \<open>C4 The state of the engine stays well formed, whatever its tasks do and in whatever order: the
  breaker keeps its four counters (so recording a failure never indexes out of range), no
  poisoned account has cached code, the zero address is never up for harvest. And along every
  run the executor keeps its contract and its profit floor, the bundles sent are only ever extended, a global pause is never
  lifted, and neither the harvest registry nor the set of seen transactions loses a member.\<close>

theorem engine_keeps_types:
  assumes "engine_run E Q F en en'" and "engine_wf en"
  shows "engine_wf en' \<and> fx_contract_address (wd_executor (en_world en')) = fx_contract_address (wd_executor (en_world en)) \<and>
    fx_min_profit_wei (wd_executor (en_world en')) = fx_min_profit_wei (wd_executor (en_world en)) \<and>
    prefix (wd_sent (en_world en)) (wd_sent (en_world en')) \<and>
    (wd_global_pause (en_world en) \<longrightarrow> wd_global_pause (en_world en')) \<and>
    iv_harvest_registry (en_inventory en) \<subseteq> iv_harvest_registry (en_inventory en') \<and> en_seen_hashes en \<subseteq> en_seen_hashes en'"
proof -
  from assms(1) have "engine_grows en en'"
    by (induction rule: engine_run.induct) (auto intro: engine_grows_trans dest: grows_step)
  with engine_grows_wf [OF this assms(2)] show ?thesis
    by (simp add: engine_grows_def world_grows_def)
qed

theorem engine_keeps_types_witness:
  "engine_wf (pool_feed 7 (NewV2 \<lparr>v2_pair = 3, v2_token_0 = 1, v2_token_1 = 2, v2_dex_name = NameAerodrome\<rparr>) sample_engine)"
proof -
  let ?ev = "NewV2 \<lparr>v2_pair = 3, v2_token_0 = 1, v2_token_1 = 2, v2_dex_name = NameAerodrome\<rparr>"
  have "0 \<notin> iv_harvest_registry (inventory_new Base 9 3)"
    by (simp add: inventory_new_def SAFE_TOKENS_def)
  then have "engine_wf sample_engine"
    by (simp add: engine_wf_def sample_engine_def sample_world_def breaker_wf_def breaker_new_def fresh_mirror_def poison_start)
  moreover have "engine_run (\<lambda>_ :: unit exec_env. True) (\<lambda>_. True) (\<lambda>_. True) sample_engine (pool_feed 7 ?ev sample_engine)"
    by (rule engine_run.step [OF engine_run.stay engine_step.feed]) simp
  ultimately show ?thesis using engine_keeps_types by blast
qed

end
