(* ===== verification/Bundle_Relay.thy ===== *)
theory Bundle_Relay
  imports Flash_Executor
begin

text \<open>
  The transport of bundles (\<open>src/bundle_builder.rs\<close>): the JSON payload, its signature and the
  posts to the relays of \<open>src/constants.rs\<close>. Hex encoding, JSON rendering, hashing, signing and
  HTTP are fields of \<open>relay_env\<close>; the posts that were made are part of the result. The random delay
  before the posts only sleeps.
\<close>

section \<open>Relays\<close>

definition BEAVERBUILD_RELAY :: string where "BEAVERBUILD_RELAY = ''https://rpc.beaverbuild.org/''"
definition TITAN_RELAY :: string where "TITAN_RELAY = ''https://rpc.titanbuilder.xyz/''"
definition ALUMNI_RELAY :: string where "ALUMNI_RELAY = ''https://base.flashbots.net''"
definition PENGUIN_RELAY :: string where "PENGUIN_RELAY = ''https://rpc.penguinbuild.org''"
definition RSYNC_RELAY :: string where "RSYNC_RELAY = ''https://rsync-builder.xyz''"

definition PRIVATE_RELAYS :: "string list" where
  "PRIVATE_RELAYS = [ALUMNI_RELAY, BEAVERBUILD_RELAY, TITAN_RELAY, PENGUIN_RELAY, RSYNC_RELAY]"

section \<open>The builder\<close>

record 's builder_config =
  bc_chain_id :: u64
  bc_chain :: chain
  bc_signer :: 's
  bc_identity_signer :: 's
  bc_executor_address :: address
  bc_min_profit_eth :: u256
  bc_relays :: "string list"
  bc_l2_private_rpcs :: "string list"
  bc_base_bribe_percent :: u64
  bc_max_gas_price_gwei :: u64
  bc_enable_simulation :: bool
  bc_use_flashbots_simulation :: bool
  bc_check_flash_loan :: bool
  bc_relay_timeout_ms :: u64
  bc_stealth_jitter :: bool
  bc_use_raw_encoding :: bool
  bc_nonce_recovery_blocks :: u64
  bc_max_consecutive_failures :: u64
  bc_pause_duration_secs :: u64
  bc_ai_strategy :: "string option"
  bc_telemetry :: bool

record 's bundle_builder =
  bb_config :: "'s builder_config"
  bb_block_tracker :: block_tracker

definition builder_new :: "'s builder_config \<Rightarrow> 's bundle_builder" where
  "builder_new config = \<lparr>bb_config = config, bb_block_tracker = tracker_new\<rparr>"

section \<open>The payload\<close>

datatype json = JBool bool | JNumber nat | JString string | JArray "json list" | JObject "(string \<times> json) list"

text \<open>The format \<open>{:x}\<close> of an integer.\<close>

definition hex_char :: "nat \<Rightarrow> char" where
  "hex_char d = char_of (if d < 10 then 48 + d else 87 + d)"

fun lower_hex :: "nat \<Rightarrow> string" where
  "lower_hex n = (if n < 16 then [hex_char n] else lower_hex (n div 16) @ [hex_char (n mod 16)])"

declare lower_hex.simps [simp del]

definition bundle_payload :: "(bytes \<Rightarrow> string) \<Rightarrow> mev_bundle \<Rightarrow> json" where
  "bundle_payload hex_encode bundle =
     JObject
       [(''jsonrpc'', JString ''2.0''), (''id'', JNumber 1), (''method'', JString ''mev_sendBundle''),
        (''params'', JArray [JObject
           [(''txs'', JArray (map (\<lambda>tx. JString (''0x'' @ hex_encode tx)) (bu_transactions bundle))),
            (''blockNumber'', JString (''0x'' @ lower_hex (unat (bu_target_block bundle)))),
            (''privacy'', JObject [(''hints'',
               JArray (map JString [''calldata'', ''logs'', ''default_logs'', ''hash'']))])]])]"

section \<open>Signing and sending\<close>

record http_post =
  po_url :: string
  po_signature :: string
  po_content_type :: string
  po_body :: string

text \<open>The text of a refusal may itself fail to arrive.\<close>

datatype http_reply = Accepted | Refused "string option"

record 's relay_env =
  re_hex :: "bytes \<Rightarrow> string"
  re_json :: "json \<Rightarrow> string"
  re_keccak :: "string \<Rightarrow> b256"
  re_sign :: "'s \<Rightarrow> b256 \<Rightarrow> string + bytes"
  re_address :: "'s \<Rightarrow> string"
  re_post :: "http_post \<Rightarrow> string + http_reply"

text \<open>\<open>expect\<close> makes a failed signature a panic.\<close>

definition sign_request :: "'s relay_env \<Rightarrow> 's bundle_builder \<Rightarrow> string \<Rightarrow> string exec" where
  "sign_request env b body =
     (case re_sign env (bc_identity_signer (bb_config b)) (re_keccak env body) of
        Inl _ \<Rightarrow> None
      | Inr sig \<Rightarrow> Some (re_address env (bc_identity_signer (bb_config b)) @ '':0x'' @ re_hex env sig))"

definition relay_post :: "string \<Rightarrow> string \<Rightarrow> string \<Rightarrow> http_post" where
  "relay_post url body signature =
     \<lparr>po_url = url, po_signature = signature, po_content_type = ''application/json'', po_body = body\<rparr>"

definition send_to_relay :: "'s relay_env \<Rightarrow> string \<Rightarrow> string \<Rightarrow> string \<Rightarrow> string + unit" where
  "send_to_relay env url body signature =
     (case re_post env (relay_post url body signature) of
        Inl e \<Rightarrow> Inl e
      | Inr Accepted \<Rightarrow> Inr ()
      | Inr (Refused err_text) \<Rightarrow> Inl (case err_text of Some t \<Rightarrow> t | None \<Rightarrow> ''''))"

text \<open>The posts, in the order of the relays, and their outcomes.\<close>

definition broadcast_bundle ::
  "'s relay_env \<Rightarrow> 's bundle_builder \<Rightarrow> mev_bundle \<Rightarrow> (http_post list \<times> broadcast_reply) exec" where
  "broadcast_bundle env b bundle = do {
     let body = re_json env (bundle_payload (re_hex env) bundle);
     signature \<leftarrow> sign_request env b body;
     Some (map (\<lambda>url. relay_post url body signature) PRIVATE_RELAYS,
           map (\<lambda>url. send_to_relay env url body signature) PRIVATE_RELAYS)
   }"

section \<open>Reading a payload back\<close>

text \<open>What a relay makes of a payload: the reference the encoding is measured against.\<close>

definition hex_value :: "char \<Rightarrow> nat option" where
  "hex_value ch = (let n = of_char ch in
     if 48 \<le> n \<and> n \<le> 57 then Some (n - 48) else if 97 \<le> n \<and> n \<le> 102 then Some (n - 87) else None)"

definition read_hex :: "string \<Rightarrow> nat option" where
  "read_hex s = fold (\<lambda>ch acc. Option.bind acc (\<lambda>v. map_option (\<lambda>d. v * 16 + d) (hex_value ch))) s (Some 0)"

definition strip_0x :: "string \<Rightarrow> string option" where
  "strip_0x s = (if take 2 s = ''0x'' then Some (drop 2 s) else None)"

definition as_string :: "json \<Rightarrow> string option" where
  "as_string j = (case j of JString s \<Rightarrow> Some s | _ \<Rightarrow> None)"

definition as_array :: "json \<Rightarrow> json list option" where
  "as_array j = (case j of JArray xs \<Rightarrow> Some xs | _ \<Rightarrow> None)"

definition field :: "string \<Rightarrow> json \<Rightarrow> json option" where
  "field k j = (case j of JObject kvs \<Rightarrow> map_of kvs k | _ \<Rightarrow> None)"

fun read_all :: "('a \<Rightarrow> 'b option) \<Rightarrow> 'a list \<Rightarrow> 'b list option" where
  "read_all f [] = Some []"
| "read_all f (x # xs) = do { y \<leftarrow> f x; ys \<leftarrow> read_all f xs; Some (y # ys) }"

definition read_tx :: "(string \<Rightarrow> bytes option) \<Rightarrow> json \<Rightarrow> bytes option" where
  "read_tx hex_decode t = Option.bind (Option.bind (as_string t) strip_0x) hex_decode"

definition read_payload :: "(string \<Rightarrow> bytes option) \<Rightarrow> json \<Rightarrow> (bytes list \<times> u64) option" where
  "read_payload hex_decode j = do {
     params \<leftarrow> Option.bind (field ''params'' j) as_array;
     p \<leftarrow> (case params of [p] \<Rightarrow> Some p | _ \<Rightarrow> None);
     txs \<leftarrow> Option.bind (field ''txs'' p) as_array;
     raw \<leftarrow> read_all (read_tx hex_decode) txs;
     block \<leftarrow> Option.bind (Option.bind (Option.bind (field ''blockNumber'' p) as_string) strip_0x) read_hex;
     Some (raw, word_of_nat block)
   }"

section \<open>Facts\<close>

lemma hex_value_char: "d < 16 \<Longrightarrow> hex_value (hex_char d) = Some d"
  by (auto simp: hex_value_def hex_char_def Let_def of_char_of)

lemma read_hex_snoc: "read_hex (s @ [ch]) = Option.bind (read_hex s) (\<lambda>v. map_option (\<lambda>d. v * 16 + d) (hex_value ch))"
  by (simp add: read_hex_def)

lemma read_lower_hex: "read_hex (lower_hex n) = Some n"
proof (induction n rule: lower_hex.induct)
  case (1 n)
  show ?case
  proof (cases "n < 16")
    case True
    then have "lower_hex n = [hex_char n]" by (simp add: lower_hex.simps)
    with True show ?thesis by (simp add: read_hex_def hex_value_char)
  next
    case False
    then have "lower_hex n = lower_hex (n div 16) @ [hex_char (n mod 16)]" by (subst lower_hex.simps) simp
    with 1 [OF False] show ?thesis by (simp add: read_hex_snoc hex_value_char)
  qed
qed

lemma read_all_map: "(\<And>x. x \<in> set xs \<Longrightarrow> f (g x) = Some x) \<Longrightarrow> read_all f (map g xs) = Some xs"
  by (induction xs) simp_all

section \<open>Properties\<close>

text \<open>C20 The payload of a bundle carries its transactions and its target block, and nothing else of
  it: reading it back gives both, whatever the bribe.\<close>

theorem payload_roundtrip:
  assumes "\<forall>tx. hex_decode (hex_encode tx) = Some tx"
  shows "read_payload hex_decode (bundle_payload hex_encode bundle) =
      Some (bu_transactions bundle, bu_target_block bundle) \<and>
    bundle_payload hex_encode (set_bribe bribe bundle) = bundle_payload hex_encode bundle"
proof -
  have txs: "read_all (read_tx hex_decode) (map (\<lambda>tx. JString (CHR ''0'' # CHR ''x'' # hex_encode tx)) ts) = Some ts" for ts
    using assms by (intro read_all_map) (simp add: read_tx_def as_string_def strip_0x_def)
  show ?thesis
    by (simp add: read_payload_def bundle_payload_def field_def as_array_def txs as_string_def strip_0x_def
        read_lower_hex set_bribe_def)
qed

theorem payload_roundtrip_witness:
  "read_payload (\<lambda>s. Some (map (\<lambda>ch. of_nat (of_char ch)) s))
     (bundle_payload (map (\<lambda>b. char_of (unat b))) \<lparr>bu_transactions = [[2, 255], []], bu_target_block = 31, bu_bribe = 5\<rparr>) =
   Some ([[2, 255], []], 31)"
proof -
  have "of_nat (of_char (char_of (unat b))) = b" for b :: u8
  proof -
    have "unat b < 256" using unat_bound [of b] by simp
    then show ?thesis by (simp add: of_char_of)
  qed
  then have "\<forall>tx. Some (map (\<lambda>ch. of_nat (of_char ch)) (map (\<lambda>b. char_of (unat b)) tx)) = Some (tx :: bytes)"
    by (simp add: comp_def)
  from payload_roundtrip [OF this] show ?thesis by simp
qed

text \<open>Every broadcast posts the same signed body to the five relays of \<open>constants.rs\<close>, in their
  order, and reports one outcome per relay. The relays, private endpoints, timeout and jitter of the configuration play no part,
  nor does the bribe.\<close>

theorem broadcast_ignores_configuration:
  assumes "broadcast_bundle env b bundle = Some (posts, replies)"
    and "bc_identity_signer (bb_config b') = bc_identity_signer (bb_config b)"
  shows "map po_url posts = PRIVATE_RELAYS \<and> length replies = 5 \<and>
    (\<forall>p \<in> set posts. po_body p = re_json env (bundle_payload (re_hex env) bundle) \<and>
       sign_request env b (po_body p) = Some (po_signature p)) \<and>
    broadcast_bundle env b' (set_bribe bribe bundle) = Some (posts, replies)"
proof -
  let ?body = "re_json env (bundle_payload (re_hex env) bundle)"
  have "bundle_payload (re_hex env) (set_bribe bribe bundle) = bundle_payload (re_hex env) bundle"
    by (simp add: bundle_payload_def set_bribe_def)
  moreover have "sign_request env b' body = sign_request env b body" for body
    unfolding sign_request_def assms(2) ..
  ultimately have "broadcast_bundle env b' (set_bribe bribe bundle) = broadcast_bundle env b bundle"
    by (simp add: broadcast_bundle_def Let_def)
  moreover obtain signature where s: "sign_request env b ?body = Some signature"
      "posts = map (\<lambda>url. relay_post url ?body signature) PRIVATE_RELAYS" "length replies = length PRIVATE_RELAYS"
    using assms(1) by (auto simp: broadcast_bundle_def Let_def bind_eq_Some_conv)
  ultimately show ?thesis
    using assms(1) by (auto simp: relay_post_def comp_def) (simp_all add: PRIVATE_RELAYS_def)
qed

definition sample_config :: "unit builder_config" where
  "sample_config = \<lparr>bc_chain_id = 8453, bc_chain = Base, bc_signer = (), bc_identity_signer = (),
     bc_executor_address = 9, bc_min_profit_eth = 10 ^ 14, bc_relays = [''http://localhost:8545''], bc_l2_private_rpcs = [],
     bc_base_bribe_percent = 90, bc_max_gas_price_gwei = 100, bc_enable_simulation = True,
     bc_use_flashbots_simulation = False, bc_check_flash_loan = False, bc_relay_timeout_ms = 500,
     bc_stealth_jitter = True, bc_use_raw_encoding = False, bc_nonce_recovery_blocks = 10,
     bc_max_consecutive_failures = 5, bc_pause_duration_secs = 60, bc_ai_strategy = None, bc_telemetry = True\<rparr>"

definition quiet_relays :: "unit relay_env" where
  "quiet_relays = \<lparr>re_hex = (\<lambda>_. ''''), re_json = (\<lambda>_. ''''), re_keccak = (\<lambda>_. 0), re_sign = (\<lambda>_ _. Inr []),
     re_address = (\<lambda>_. ''''), re_post = (\<lambda>_. Inr Accepted)\<rparr>"

theorem broadcast_ignores_configuration_witness:
  "\<exists>posts replies. broadcast_bundle quiet_relays (builder_new sample_config) bundle_new = Some (posts, replies) \<and>
     map po_url posts = PRIVATE_RELAYS"
proof -
  obtain posts replies where run: "broadcast_bundle quiet_relays (builder_new sample_config) bundle_new = Some (posts, replies)"
    by (simp add: broadcast_bundle_def sign_request_def quiet_relays_def)
  from broadcast_ignores_configuration [OF run HOL.refl] run show ?thesis by blast
qed

end
