(* ===== verification/Boot.thy ===== *)
theory Boot
  imports Engine Detector Bundle_Relay
begin

text \<open>
  The start-up of \<open>src/main.rs\<close>: from the environment variables and the answers of the outside to the
  components the tasks share. Parsers of third-party types, connections, keys and the node are
  fields of \<open>host\<close>; the files are what \<open>bincode\<close> reads, its decoder another field. Environment values are taken to be ASCII. An \<open>expect\<close> that fails is a panic, a
  \<open>?\<close> that fails ends the program with its message.
\<close>

section \<open>Text\<close>

definition is_space :: "char \<Rightarrow> bool" where
  "is_space ch = (let n = of_char ch :: nat in 9 \<le> n \<and> n \<le> 13 \<or> n = 32)"

definition trim :: "string \<Rightarrow> string" where
  "trim s = rev (dropWhile is_space (rev (dropWhile is_space s)))"

fun split_on :: "char \<Rightarrow> string \<Rightarrow> string list" where
  "split_on sep [] = [[]]"
| "split_on sep (ch # s) =
     (if ch = sep then [] # split_on sep s
      else case split_on sep s of [] \<Rightarrow> [[ch]] | w # ws \<Rightarrow> (ch # w) # ws)"

definition starts_with :: "string \<Rightarrow> string \<Rightarrow> bool" where
  "starts_with p s \<longleftrightarrow> take (length p) s = p"

fun trim_start_0x :: "string \<Rightarrow> string" where
  "trim_start_0x (a # b # s) = (if [a, b] = ''0x'' then trim_start_0x s else a # b # s)"
| "trim_start_0x s = s"

section \<open>The outside\<close>

record ('p, 's) host =
  ho_env :: "string \<rightharpoonup> string"
  ho_parse_address :: "string \<rightharpoonup> address"
  ho_parse_key :: "string \<Rightarrow> string + 's"
  ho_random_key :: 's
  ho_key_address :: "'s \<Rightarrow> address"
  ho_connect :: "string \<rightharpoonup> 'p"
  ho_http :: "string \<rightharpoonup> 'p"
  ho_chain_id :: "string + u64"
  ho_chain_id_again :: "string + u64"
  ho_nonce :: "string + u64"
  ho_block_number :: "string + u64"
  ho_bytecode_file :: "bytes option"
  ho_decode_codes :: "bytes \<rightharpoonup> code_list"
  ho_checkpoint_file :: "(address \<times> pool_state) list option"
  ho_instant :: instant
  ho_show_eth :: "u256 \<Rightarrow> string"
  ho_balance :: "string + u256"
  ho_show_error :: "mev_error \<Rightarrow> string"

section \<open>Reading the environment\<close>

definition parse_address_robust :: "(string \<rightharpoonup> address) \<Rightarrow> string \<Rightarrow> address" where
  "parse_address_robust parse s =
     (let s = trim s in
      if s = [] then 0
      else if starts_with ''0x'' s then (case parse s of Some a \<Rightarrow> a | None \<Rightarrow> 0)
      else (case parse (''0x'' @ s) of Some a \<Rightarrow> a | None \<Rightarrow> 0))"

definition env_or :: "(string \<rightharpoonup> string) \<Rightarrow> string \<Rightarrow> string \<Rightarrow> string option" where
  "env_or e k k' = (case e k of Some v \<Rightarrow> Some v | None \<Rightarrow> e k')"

definition env_default :: "(string \<rightharpoonup> string) \<Rightarrow> string \<Rightarrow> string" where
  "env_default e k = (case e k of Some v \<Rightarrow> v | None \<Rightarrow> [])"

text \<open>Both branches of the source choose Base.\<close>

definition boot_chain :: "(string \<rightharpoonup> string) \<Rightarrow> chain" where
  "boot_chain e =
     (let chain_raw = (case e ''CHAIN'' of Some c \<Rightarrow> c | None \<Rightarrow> ''base'')
      in if map ascii_lower chain_raw = ''base'' then Base else Base)"

definition url_list :: "string \<Rightarrow> string list" where
  "url_list raw = map trim (split_on CHR '','' raw)"

definition read_key :: "('p, 's) host \<Rightarrow> string \<Rightarrow> string \<Rightarrow> string + 's" where
  "read_key h name raw =
     (case ho_parse_key h raw of
        Inr k \<Rightarrow> Inr k
      | Inl e \<Rightarrow> Inl (''Failed to parse '' @ name @ '': '' @ e @ ''. Ensure it is exactly 64 hex characters.''))"

definition identity_key :: "('p, 's) host \<Rightarrow> string + 's" where
  "identity_key h =
     (let relay_key_clean = trim_start_0x (trim (env_default (ho_env h) ''RELAY_SIGNING_KEY'')) in
      if relay_key_clean = [] then Inr (ho_random_key h)
      else read_key h ''RELAY_SIGNING_KEY'' relay_key_clean)"

text \<open>The endpoints that answer, with their providers.\<close>

definition working :: "(string \<rightharpoonup> 'p) \<Rightarrow> string list \<Rightarrow> (string \<times> 'p) list" where
  "working connect urls = List.map_filter (\<lambda>url. map_option (Pair url) (connect url)) urls"

definition is_local_node :: "string list \<Rightarrow> bool" where
  "is_local_node urls = list_ex (\<lambda>url. str_contains url ''127.0.0.1'' \<or> str_contains url ''localhost'') urls"

definition boot_relays :: "(string \<rightharpoonup> string) \<Rightarrow> bool \<Rightarrow> string list" where
  "boot_relays e is_anvil =
     (if is_anvil then [] else [''https://relay-base.flashbots.net'', ''https://base.mevblocker.io'']) @
     (case e ''PRIVATE_RELAY_URL'' of Some custom_relay \<Rightarrow> [custom_relay] | None \<Rightarrow> [])"

definition boot_l2_rpcs :: "(string \<rightharpoonup> string) \<Rightarrow> string list" where
  "boot_l2_rpcs e = filter (\<lambda>s. s \<noteq> []) (split_on CHR '','' (env_default e ''PRIVATE_RPCS''))"

definition compounding_target :: "('p, 's) host \<Rightarrow> address option" where
  "compounding_target h =
     (case map_option (parse_address_robust (ho_parse_address h)) (ho_env h ''COMPOUNDING_TARGET_ADDRESS'') of
        Some a \<Rightarrow> Some a | None \<Rightarrow> GAS_VAULT_ADDRESS)"

section \<open>Building the components\<close>

definition boot_builder_config ::
  "u64 \<Rightarrow> chain \<Rightarrow> 's \<Rightarrow> 's \<Rightarrow> address \<Rightarrow> string list \<Rightarrow> string list \<Rightarrow> 's builder_config" where
  "boot_builder_config cid c wallet identity executor relays l2_rpcs =
     \<lparr>bc_chain_id = cid, bc_chain = c, bc_signer = wallet, bc_identity_signer = identity,
      bc_executor_address = executor, bc_min_profit_eth = ucast ((10 :: u64) ^ 14), bc_relays = relays,
      bc_l2_private_rpcs = l2_rpcs, bc_base_bribe_percent = 90, bc_max_gas_price_gwei = 100,
      bc_enable_simulation = True, bc_use_flashbots_simulation = False, bc_check_flash_loan = False,
      bc_relay_timeout_ms = 500, bc_stealth_jitter = True, bc_use_raw_encoding = False,
      bc_nonce_recovery_blocks = 10, bc_max_consecutive_failures = 5, bc_pause_duration_secs = 60,
      bc_ai_strategy = None, bc_telemetry = True\<rparr>"

definition boot_detector_config :: "chain \<Rightarrow> address \<Rightarrow> detector_config" where
  "boot_detector_config c executor =
     default_detector_config\<lparr>dc_chain := c, dc_executor_address := executor, dc_bribe_percent := 60,
       dc_scanner_threads := 16, dc_min_profit_wei := ucast (2 * (10 :: u128) ^ 14)\<rparr>"

text \<open>What the endpoints and keys come to.\<close>

record ('p, 's) settings =
  se_chain :: chain
  se_wallet :: 's
  se_identity :: 's
  se_ws :: "(string \<times> 'p) list"
  se_http :: "(string \<times> 'p) list"
  se_executor :: address
  se_chain_id :: u64

definition read_settings :: "('p, 's) host \<Rightarrow> (string + ('p, 's) settings) exec" where
  "read_settings h = do {
     let e = ho_env h;
     wss_raw \<leftarrow> env_or e ''SHADOW_WS_URL'' ''SHADOW_WS_URL_1'';
     rpc_raw \<leftarrow> env_or e ''SHADOW_RPC_URL'' ''SHADOW_RPC_URL_1'';
     priv_key_raw \<leftarrow> e ''PRIVATE_KEY'';
     and_try (Some (identity_key h)) (\<lambda>identity.
       let ws = working (ho_connect h) (url_list wss_raw); http = working (ho_http h) (url_list rpc_raw) in
       if ws = [] then Some (Inl ''No valid WSS endpoints found'')
       else if http = [] then Some (Inl ''No valid HTTP endpoints found'')
       else and_try (Some (ho_chain_id h)) (\<lambda>cid.
         and_try (Some (read_key h ''PRIVATE_KEY'' (trim_start_0x (trim priv_key_raw)))) (\<lambda>wallet.
           Some (Inr \<lparr>se_chain = boot_chain e, se_wallet = wallet, se_identity = identity, se_ws = ws, se_http = http,
             se_executor = parse_address_robust (ho_parse_address h) (env_default e ''EXECUTOR_ADDRESS''),
             se_chain_id = cid\<rparr>))))
   }"

record ('p, 's) booted =
  bt_engine :: "'p engine"
  bt_detector :: detector
  bt_builder :: "'s bundle_builder"
  bt_gas_feed :: gas_feed
  bt_ws_pool :: "'p provider_pool"
  bt_http_pool :: "'p provider_pool"

definition boot_mirror :: "('p, 's) host \<Rightarrow> mirror" where
  "boot_mirror h = mirror_new (read_file (ho_decode_codes h) (ho_bytecode_file h)) (ho_checkpoint_file h)"

definition boot_builder :: "('p, 's) host \<Rightarrow> ('p, 's) settings \<Rightarrow> 's bundle_builder" where
  "boot_builder h s =
     builder_new (boot_builder_config (se_chain_id s) (se_chain s) (se_wallet s) (se_identity s) (se_executor s)
       (boot_relays (ho_env h) (is_local_node (map fst (se_ws s)))) (boot_l2_rpcs (ho_env h)))"

definition boot_world :: "('p, 's) host \<Rightarrow> nonce_manager \<Rightarrow> 'p executor \<Rightarrow> 's bundle_builder \<Rightarrow> 'p world" where
  "boot_world h nonces executor builder =
     \<lparr>wd_executor = executor, wd_bidder = bidder_new (ho_instant h), wd_breaker = breaker_new 5 30,
      wd_global_pause = False, wd_nonces = nonces, wd_mirror = boot_mirror h, wd_scalars = initial_scalars,
      wd_tracker = bb_block_tracker builder, wd_sent = []\<rparr>"

definition boot_components ::
  "('p, 's) host \<Rightarrow> ('p, 's) settings \<Rightarrow> nonce_manager \<Rightarrow> 'p executor \<Rightarrow> ('p, 's) booted" where
  "boot_components h s nonces executor =
     (let c = se_chain s; builder = boot_builder h s in
      \<lparr>bt_engine =
         \<lparr>en_world = boot_world h nonces executor builder,
          en_profit = profit_manager_new c (ucast (40000000000000000 :: u128)) (compounding_target h),
          en_inventory = inventory_new c (se_executor s) (ho_key_address h (se_wallet s)),
          en_seen_hashes = {}, en_init_queue = [], en_bootstrap = None, en_sweep = None\<rparr>,
       bt_detector = detector_new (boot_detector_config c (se_executor s)),
       bt_builder = builder, bt_gas_feed = feed_new, bt_ws_pool = pool_new (map snd (se_ws s)),
       bt_http_pool = pool_new (map snd (se_http s))\<rparr>)"

text \<open>The result of the balance check is discarded. The bootstrap that runs beside it, and goes on in the
  background, is handed over as a task that has not begun; when the check fails, \<open>try_join\<close> drops it where
  it waits, and its steps are never taken.\<close>

definition run_engine :: "('p, 's) host \<Rightarrow> (string + ('p, 's) booted) exec" where
  "run_engine h =
     and_try (read_settings h) (\<lambda>s.
     and_try (Some (map_sum (ho_show_error h) id (nonce_new (ho_nonce h) (ho_key_address h (se_wallet s))))) (\<lambda>nonces.
     and_try (Some (map_sum (ho_show_error h) id
         (executor_new (ho_chain_id_again h) (se_executor s) (ucast ((10 :: u64) ^ 14)) True 90
           (Some (pool_new (map snd (se_http s))))))) (\<lambda>executor.
     do {
       _ \<leftarrow> ensure_ready (ho_show_eth h) (ho_balance h);
       and_try (Some (ho_block_number h)) (\<lambda>_. Some (Inr (boot_components h s nonces executor)))
     })))"


end
