(* ===== verification/System.thy ===== *)
theory System
  imports Boot Engine_Types Detector_Facts
begin

text \<open>
  The whole program: the engine of \<open>Engine\<close>, the detector behind its channel of swap events
  (\<open>ArbitrageDetector::run\<close>), the channel of opportunities, and the two background feeds, started by
  \<open>Boot\<close>. Channels are lists. A run is any sequence of steps of the tasks; the search of a
  swap and the handling of an opportunity are one step each, whatever they wait for.
\<close>

section \<open>State\<close>

record 'p system =
  sy_engine :: "'p engine"
  sy_detector :: detector
  sy_swaps :: "swap_event list"
  sy_opps :: "opportunity list"
  sy_found :: u64
  sy_feed :: gas_feed

definition start_system :: "('p, 's) booted \<Rightarrow> 'p system" where
  "start_system b = \<lparr>sy_engine = bt_engine b, sy_detector = bt_detector b, sy_swaps = [], sy_opps = [],
     sy_found = 0, sy_feed = bt_gas_feed b\<rparr>"

section \<open>The tasks around the channels\<close>

text \<open>The bridge sends the event it makes.\<close>

definition bridge_send :: "u64 \<Rightarrow> rpc_log \<Rightarrow> 'p system \<Rightarrow> 'p system" where
  "bridge_send now log s =
     (let (ev, en) = bridge_log now log (sy_engine s)
      in s\<lparr>sy_engine := en, sy_swaps := sy_swaps s @ (case ev of Some e \<Rightarrow> [e] | None \<Rightarrow> [])\<rparr>)"

text \<open>The detector takes a swap event: it notes the activity, then searches.\<close>

definition search_swap ::
  "pricing_env \<Rightarrow> (u256 \<Rightarrow> u256 \<Rightarrow> bool exec) \<Rightarrow> u64 \<Rightarrow> swap_event \<Rightarrow> 'p system \<Rightarrow> 'p system exec" where
  "search_swap penv skewed now ev s = do {
     (opps, d, m, found) \<leftarrow>
       process_event penv skewed now ev (touch_activity now ev (sy_detector s)) (wd_mirror (en_world (sy_engine s))) (sy_found s);
     Some (s\<lparr>sy_engine := with_mirror (\<lambda>_. m) (sy_engine s), sy_detector := d,
             sy_opps := sy_opps s @ opps, sy_found := found\<rparr>)
   }"

definition refresh_l1 :: "ecotone_scalars \<Rightarrow> 'p engine \<Rightarrow> 'p engine" where
  "refresh_l1 sc en = en\<lparr>en_world := (en_world en)\<lparr>wd_scalars := sc\<rparr>\<rparr>"

section \<open>Runs\<close>

text \<open>\<open>E\<close>, \<open>Q\<close> and \<open>F\<close> say which machines, opportunities and pool events may be met. The tasks of
  the engine other than its main loop come from \<open>engine_step\<close>.\<close>

inductive system_step ::
  "('e exec_env \<Rightarrow> bool) \<Rightarrow> (opportunity \<Rightarrow> bool) \<Rightarrow> (new_pool_event \<Rightarrow> bool) \<Rightarrow> 'p system \<Rightarrow> 'p system \<Rightarrow> bool"
  for E Q F where
  task: "engine_step (\<lambda>_ :: 'e exec_env. False) (\<lambda>_. False) F (sy_engine s) en \<Longrightarrow>
    system_step E Q F s (s\<lparr>sy_engine := en\<rparr>)"
| bridge: "system_step E Q F s (bridge_send now log s)"
| search: "sy_swaps s = ev # rest \<Longrightarrow> search_swap penv skewed now ev (s\<lparr>sy_swaps := rest\<rparr>) = Some s' \<Longrightarrow>
    system_step E Q F s s'"
| pool: "F event \<Longrightarrow> on_new_pool order now (wd_mirror (en_world (sy_engine s))) event (sy_detector s) = Some d \<Longrightarrow>
    system_step E Q F s (s\<lparr>sy_detector := d\<rparr>)"
| registry: "sync_registry order now (wd_mirror (en_world (sy_engine s))) (sy_detector s) = Some d \<Longrightarrow>
    system_step E Q F s (s\<lparr>sy_detector := d\<rparr>)"
| scalars: "system_step E Q F s (s\<lparr>sy_engine := refresh_l1 (refresh_scalars base blob l1_base l1_blob decimals now) (sy_engine s)\<rparr>)"
| fees: "system_step E Q F s (s\<lparr>sy_feed := feed_block fee estimate l1 (sy_feed s)\<rparr>)"
| fees_lost: "system_step E Q F s (s\<lparr>sy_feed := feed_reconnect (sy_feed s)\<rparr>)"
| opportunity: "sy_opps s = opp # rest \<Longrightarrow> E env \<Longrightarrow> Q opp \<Longrightarrow>
    dispatch env tenv permit opp (sy_engine s) = Some en \<Longrightarrow>
    system_step E Q F s (s\<lparr>sy_opps := rest, sy_engine := en\<rparr>)"

inductive system_run ::
  "('e exec_env \<Rightarrow> bool) \<Rightarrow> (opportunity \<Rightarrow> bool) \<Rightarrow> (new_pool_event \<Rightarrow> bool) \<Rightarrow> 'p system \<Rightarrow> 'p system \<Rightarrow> bool"
  for E Q F where
  stay: "system_run E Q F s s"
| step: "system_run E Q F s s' \<Longrightarrow> system_step E Q F s' s'' \<Longrightarrow> system_run E Q F s s''"

text \<open>An invariant of the steps holds along every run.\<close>

lemma run_invariant:
  assumes "system_run E Q F s s'" and "I s" and "\<And>t t'. I t \<Longrightarrow> system_step E Q F t t' \<Longrightarrow> I t'"
  shows "I s'"
  using assms by (induction rule: system_run.induct) auto

section \<open>What the start-up hands over\<close>

lemma and_try_Inr: "and_try r f = Some (Inr y) \<longleftrightarrow> (\<exists>x. r = Some (Inr x) \<and> f x = Some (Inr y))"
  by (auto simp: and_try_def split: option.split sum.split)

lemma map_sum_Inr: "map_sum f id r = Inr x \<longleftrightarrow> r = Inr x"
  by (cases r) auto

lemma boot_codes: "sm_bytecodes (boot_mirror h) = load_bytecode_cache (read_file (ho_decode_codes h) (ho_bytecode_file h)) DAList.empty"
  by (simp add: boot_mirror_def mirror_new_def load_state_checkpoint_def split: option.split)

text \<open>The accounts whose code a bytecode file holds.\<close>

definition codes_of :: "(bytes \<rightharpoonup> code_list) \<Rightarrow> bytes option \<Rightarrow> address set" where
  "codes_of decode f = fst ` set (case read_file decode f of Some codes \<Rightarrow> codes | None \<Rightarrow> [])"

lemma codes_of_None [simp]: "codes_of decode None = {}"
  by (simp add: codes_of_def read_file_def)

lemma loaded_code:
  assumes "x \<notin> codes_of decode f"
  shows "DAList.lookup (load_bytecode_cache (read_file decode f) DAList.empty) x = None"
proof -
  have "x \<notin> fst ` set xs \<Longrightarrow> DAList.lookup (fold (\<lambda>(a, c). DAList.update a c) xs m) x = DAList.lookup m x"
    for xs :: "(address \<times> bytes) list" and m
    by (induction xs arbitrary: m) (auto simp: lookup_update)
  with assms show ?thesis by (auto simp: codes_of_def load_bytecode_cache_def lookup_empty split: option.splits)
qed

text \<open>Everything a successful start-up fixes.\<close>

lemma run_engine_parts:
  assumes "run_engine h = Some (Inr b)"
  obtains s nonces executor where "read_settings h = Some (Inr s)"
    and "b = boot_components h s nonces executor"
    and "fx_contract_address executor = se_executor s" and "fx_min_profit_wei executor = 10 ^ 14"
  using assms
  by (cases "ho_chain_id_again h") (auto simp: run_engine_def and_try_Inr map_sum_Inr bind_eq_Some_conv executor_new_def)

lemma boot_components_simps [simp]:
  "wd_mirror (en_world (bt_engine (boot_components h s nonces executor))) = boot_mirror h"
  "wd_sent (en_world (bt_engine (boot_components h s nonces executor))) = []"
  "wd_executor (en_world (bt_engine (boot_components h s nonces executor))) = executor"
  "wd_breaker (en_world (bt_engine (boot_components h s nonces executor))) = breaker_new 5 30"
  "en_init_queue (bt_engine (boot_components h s nonces executor)) = []"
  "en_profit (bt_engine (boot_components h s nonces executor)) =
     profit_manager_new (se_chain s) 40000000000000000 (compounding_target h)"
  "bt_detector (boot_components h s nonces executor) = detector_new (boot_detector_config (se_chain s) (se_executor s))"
  "bt_builder (boot_components h s nonces executor) = boot_builder h s"
  by (simp_all add: boot_components_def boot_world_def Let_def)

lemma settings_parts:
  assumes "read_settings h = Some (Inr s)"
  shows "se_chain s = Base \<and> se_ws s \<noteq> [] \<and> se_http s \<noteq> [] \<and>
    se_executor s = parse_address_robust (ho_parse_address h) (env_default (ho_env h) ''EXECUTOR_ADDRESS'')"
  using assms
  by (auto simp: read_settings_def and_try_Inr Let_def bind_eq_Some_conv boot_chain_def split: if_splits)

end
