(* ===== verification/Code_File.thy ===== *)
theory Code_File
  imports State_Mirror "HOL-Library.Sublist"
begin

text \<open>
  What is relied on of the format of the bytecode file, which \<open>bincode\<close> writes and reads: what was
  written is read back, and a file that was cut short is rejected. A small self-delimiting format has
  both properties.
\<close>

section \<open>The contract\<close>

definition reads_back :: "(code_list \<Rightarrow> bytes) \<Rightarrow> (bytes \<rightharpoonup> code_list) \<Rightarrow> bool" where
  "reads_back encode decode \<longleftrightarrow> (\<forall>xs. decode (encode xs) = Some xs) \<and>
     (\<forall>xs b. strict_prefix b (encode xs) \<longrightarrow> decode b = None)"

lemma read_prefix:
  assumes "reads_back encode decode" and "prefix b (encode xs)"
  shows "decode b = Some xs \<or> decode b = None"
  using assms by (cases "b = encode xs") (auto simp: reads_back_def strict_prefix_def)

section \<open>An instance\<close>

text \<open>Every byte of a string is preceded by a one, every pair too; a zero ends each.\<close>

fun put_bytes :: "bytes \<Rightarrow> bytes" where
  "put_bytes [] = [0]"
| "put_bytes (b # bs) = 1 # b # put_bytes bs"

fun get_bytes :: "bytes \<Rightarrow> (bytes \<times> bytes) option" where
  "get_bytes (t # b # r) =
     (if t = 0 then Some ([], b # r) else map_option (\<lambda>(bs, r). (b # bs, r)) (get_bytes r))"
| "get_bytes [t] = (if t = 0 then Some ([], []) else None)"
| "get_bytes [] = None"

lemma get_put_bytes [simp]: "get_bytes (put_bytes bs @ r) = Some (bs, r)"
proof (induction bs)
  case Nil
  show ?case by (cases r) simp_all
qed simp

lemma get_bytes_shorter: "get_bytes b = Some (bs, r) \<Longrightarrow> length r < length b"
  by (induction b arbitrary: bs r rule: get_bytes.induct) (auto split: if_splits)

lemma get_bytes_more: "get_bytes b = Some (bs, r) \<Longrightarrow> get_bytes (b @ s) = Some (bs, r @ s)"
proof (induction b arbitrary: bs r rule: get_bytes.induct)
  case (2 t)
  then show ?case by (cases s) (auto split: if_splits)
qed (auto split: if_splits)

fun put_codes :: "code_list \<Rightarrow> bytes" where
  "put_codes [] = [0]"
| "put_codes ((a, c) # xs) = 1 # put_bytes (to_be_bytes a) @ put_bytes c @ put_codes xs"

function get_codes :: "bytes \<Rightarrow> (code_list \<times> bytes) option" where
  "get_codes [] = None"
| "get_codes (t # b) =
     (if t = 0 then Some ([], b)
      else case get_bytes b of
        None \<Rightarrow> None
      | Some (a, b') \<Rightarrow> (case get_bytes b' of
          None \<Rightarrow> None
        | Some (c, b'') \<Rightarrow> map_option (\<lambda>(xs, r). ((from_be_bytes a, c) # xs, r)) (get_codes b'')))"
  by pat_completeness auto

termination
  by (relation "measure length") (auto dest!: get_bytes_shorter)

definition read_codes :: "bytes \<rightharpoonup> code_list" where
  "read_codes b = map_option fst (get_codes b)"

lemma get_put_codes: "get_codes (put_codes xs @ r) = Some (xs, r)"
  by (induction xs rule: put_codes.induct) simp_all

lemma get_codes_more: "get_codes b = Some (xs, r) \<Longrightarrow> get_codes (b @ s) = Some (xs, r @ s)"
proof (induction b arbitrary: xs r rule: get_codes.induct)
  case (2 t b)
  then show ?case by (auto simp: get_bytes_more split: if_splits option.splits)
qed simp

theorem codes_read_back: "reads_back put_codes read_codes"
proof -
  have "read_codes b = None" if "strict_prefix b (put_codes xs)" for b xs
  proof (rule ccontr)
    assume "read_codes b \<noteq> None"
    then obtain ys r where "get_codes b = Some (ys, r)" by (auto simp: read_codes_def)
    moreover from that obtain s where "put_codes xs = b @ s" "s \<noteq> []"
      by (rule strict_prefixE') (metis list.distinct(1))
    ultimately show False using get_codes_more [of b ys r s] get_put_codes [of xs "[]"] by simp
  qed
  then show ?thesis using get_put_codes [of _ "[]"] by (simp add: reads_back_def read_codes_def)
qed

end
