(* ===== verification/Sample_System.thy ===== *)
theory Sample_System
  imports System Code_File
begin

text \<open>
  A machine the program starts on, and a run of it that finds an opportunity and handles it: the
  inputs at which the theorems about the whole program are applied.
\<close>

section \<open>A machine to start on\<close>

text \<open>A node that answers, addresses of one digit, the executor being \<open>0x9\<close>, and a bytecode file with the
  code of another account.\<close>

definition digit_address :: "string \<rightharpoonup> address" where
  "digit_address s = (if s = ''0x9'' then Some 9 else None)"

definition sample_codes :: code_list where
  "sample_codes = [(7, [0x60])]"

lemma read_sample_codes [simp]: "read_codes (put_codes xs) = Some xs" "codes_of read_codes (Some (put_codes sample_codes)) = {7}"
proof -
  show read: "read_codes (put_codes xs) = Some xs" for xs using codes_read_back by (simp add: reads_back_def)
  show "codes_of read_codes (Some (put_codes sample_codes)) = {7}"
    by (simp add: codes_of_def read_file_def read) (simp add: sample_codes_def)
qed

definition sample_host :: "string \<Rightarrow> (address \<times> pool_state) list option \<Rightarrow> (unit, unit) host" where
  "sample_host executor checkpoint =
     \<lparr>ho_env = [''SHADOW_WS_URL'' \<mapsto> ''ws://127.0.0.1'', ''SHADOW_RPC_URL_1'' \<mapsto> ''http://a, http://b'', ''PRIVATE_KEY'' \<mapsto> ''0xk'',
        ''EXECUTOR_ADDRESS'' \<mapsto> executor],
      ho_parse_address = digit_address, ho_parse_key = (\<lambda>_. Inr ()), ho_random_key = (), ho_key_address = (\<lambda>_. 3),
      ho_connect = (\<lambda>_. Some ()), ho_http = (\<lambda>_. Some ()), ho_chain_id = Inr 8453, ho_chain_id_again = Inr 8453,
      ho_nonce = Inr 0, ho_block_number = Inr 1, ho_bytecode_file = Some (put_codes sample_codes), ho_decode_codes = read_codes,
      ho_checkpoint_file = checkpoint, ho_instant = 0,
      ho_show_eth = (\<lambda>_. []), ho_balance = Inr (10 ^ 18), ho_show_error = (\<lambda>_. [])\<rparr>"

text \<open>A checkpoint with one pool, of a stable pair nobody else trades.\<close>

definition traded_pool :: pool_state where
  "traded_pool = (default_pool_state 0)\<lparr>ps_reserves0 := 10 ^ 24, ps_reserves1 := 10 ^ 21\<rparr>"

definition market_mirror :: mirror where
  "market_mirror = mirror_new (Some sample_codes) (Some [(5, traded_pool)])"

lemma sample_mirrors:
  "boot_mirror (sample_host executor None) = mirror_new (Some sample_codes) None"
  "boot_mirror (sample_host executor (Some [(5, traded_pool)])) = market_mirror"
  by (simp_all add: boot_mirror_def sample_host_def read_file_def market_mirror_def)

definition sample_settings :: "string \<Rightarrow> (unit, unit) settings" where
  "sample_settings executor =
     \<lparr>se_chain = Base, se_wallet = (), se_identity = (), se_ws = [(''ws://127.0.0.1'', ())],
      se_http = [(''http://a'', ()), (''http://b'', ())], se_executor = parse_address_robust digit_address executor,
      se_chain_id = 8453\<rparr>"

lemma sample_urls: "url_list ''ws://127.0.0.1'' = [''ws://127.0.0.1'']" "url_list ''http://a, http://b'' = [''http://a'', ''http://b'']"
  by code_simp+

lemma sample_reads: "read_settings (sample_host executor checkpoint) = Some (Inr (sample_settings executor))"
  by (simp add: sample_host_def read_settings_def env_or_def and_try_def identity_key_def env_default_def boot_chain_def
      working_def sample_urls read_key_def List.map_filter_def trim_def sample_settings_def)

definition sample_executor :: "string \<Rightarrow> unit executor" where
  "sample_executor executor =
     \<lparr>fx_contract_address = parse_address_robust digit_address executor, fx_min_profit_wei = 10 ^ 14, fx_chain = Base,
      fx_has_builder = True, fx_bribe_percent = 90, fx_occupied_pools = DAList.empty,
      fx_http_pool = Some (pool_new [(), ()]), fx_vetted_tokens = DAList.empty\<rparr>"

definition sample_booted :: "string \<Rightarrow> (address \<times> pool_state) list option \<Rightarrow> (unit, unit) booted" where
  "sample_booted executor checkpoint =
     boot_components (sample_host executor checkpoint) (sample_settings executor) \<lparr>nm_current = 0, nm_address = 3\<rparr>
       (sample_executor executor)"

lemma sample_boots: "run_engine (sample_host executor checkpoint) = Some (Inr (sample_booted executor checkpoint))"
proof -
  let ?h = "sample_host executor checkpoint"
  have host: "ho_nonce ?h = Inr 0" "ho_chain_id_again ?h = Inr 8453" "ho_balance ?h = Inr (10 ^ 18)" "ho_block_number ?h = Inr 1"
    "ho_key_address ?h () = 3"
    by (simp_all add: sample_host_def)
  show ?thesis
    by (simp add: run_engine_def sample_reads host and_try_def nonce_new_def executor_new_def chain_try_from_id_def
        ensure_ready_def MIN_SEARCHER_BALANCE_WEI_def sample_booted_def sample_executor_def Let_def)
      (simp add: sample_settings_def sample_host_def)
qed

section \<open>A run that finds something\<close>

text \<open>The pool of the checkpoint is registered, a swap on it is bridged, and the detector searches.\<close>

definition dear_token :: address where
  "dear_token = 0x9000000000000000000000000000000000000001"

definition market_event :: new_pool_event where
  "market_event = NewV2 \<lparr>v2_pair = 5, v2_token_0 = TOKEN_DAI, v2_token_1 = dear_token, v2_dex_name = NameAerodrome\<rparr>"

definition market_log :: rpc_log where
  "market_log = \<lparr>lg_address = 5, lg_topics = [], lg_data = [], lg_transaction_hash = Some 1\<rparr>"

definition market_pricing :: pricing_env where
  "market_pricing = \<lparr>pr_guess = (\<lambda>x a b. b), pr_newton = (\<lambda>hops states. Some (10 ^ 15)), pr_hasher = (\<lambda>xs. 0)\<rparr>"

lemma market_opportunity:
  "map_option (\<lambda>(opps, d, m, found). (map (\<lambda>opp. (op_expected_profit opp, op_profit_details opp,
       map (\<lambda>h. (hop_pool_address h, hop_token_out h)) (path_hops (op_path opp)))) opps,
       sm_last_block_timestamp m, DAList.lookup (sm_trader_registry m) 5, get_bytecode m 9)) (do {
     d \<leftarrow> on_new_pool (\<lambda>_. [TOKEN_DAI, dear_token]) 0 market_mirror market_event (detector_new (boot_detector_config Base x));
     process_event market_pricing (\<lambda>_ _. Some False) 0 (trigger_event 0 1 5)
       (touch_activity 0 (trigger_event 0 1 5) d) market_mirror 0
   }) = Some ([(995999005991991025, None, [(5, TOKEN_DAI)])], 0, None, None)"
  by code_simp

text \<open>What the run leaves: one opportunity, and an engine that may act on it.\<close>

definition market_state :: "string \<Rightarrow> unit system \<Rightarrow> opportunity \<Rightarrow> bool" where
  "market_state executor s opp \<longleftrightarrow>
     (let w = en_world (sy_engine s) in
      sy_opps s = [opp] \<and> op_expected_profit opp = 995999005991991025 \<and> op_profit_details opp = None \<and>
      map (\<lambda>h. (hop_pool_address h, hop_token_out h)) (path_hops (op_path opp)) = [(5, TOKEN_DAI)] \<and>
      wd_executor w = sample_executor executor \<and> wd_breaker w = breaker_new 5 30 \<and> \<not> wd_global_pause w \<and>
      sm_last_block_timestamp (wd_mirror w) = 0 \<and> DAList.lookup (sm_trader_registry (wd_mirror w)) 5 = None \<and>
      get_bytecode (wd_mirror w) 9 = None)"

lemma market_runs:
  assumes "F market_event"
  obtains s opp where "system_run E Q F (start_system (sample_booted executor (Some [(5, traded_pool)]))) s"
    and "market_state executor s opp"
proof -
  let ?ev = "trigger_event 0 1 5" and ?s = "start_system (sample_booted executor (Some [(5, traded_pool)]))"
  let ?x = "se_executor (sample_settings executor)"
  have det: "sy_detector ?s = detector_new (boot_detector_config Base ?x)" and mir: "wd_mirror (en_world (sy_engine ?s)) = market_mirror"
    by (simp_all add: start_system_def sample_booted_def sample_settings_def sample_mirrors)
  from market_opportunity [of ?x] obtain d opp d' m found where
    d: "on_new_pool (\<lambda>_. [TOKEN_DAI, dear_token]) 0 market_mirror market_event (detector_new (boot_detector_config Base ?x)) = Some d"
    and p: "process_event market_pricing (\<lambda>_ _. Some False) 0 ?ev (touch_activity 0 ?ev d) market_mirror 0 =
      Some ([opp], d', m, found)" and opp: "op_expected_profit opp = 995999005991991025" "op_profit_details opp = None"
      "map (\<lambda>h. (hop_pool_address h, hop_token_out h)) (path_hops (op_path opp)) = [(5, TOKEN_DAI)]"
    and m: "sm_last_block_timestamp m = 0" "DAList.lookup (sm_trader_registry m) 5 = None" "get_bytecode m 9 = None"
    by (auto simp: bind_eq_Some_conv)
  let ?s1 = "?s\<lparr>sy_detector := d\<rparr>" and ?s2 = "bridge_send 0 market_log (?s\<lparr>sy_detector := d\<rparr>)"
  have "system_step E Q F ?s ?s1" using assms d by (intro system_step.pool) (simp_all add: det mir)
  then have "system_run E Q F ?s ?s1" by (rule system_run.step [OF system_run.stay])
  then have run: "system_run E Q F ?s ?s2" by (rule system_run.step) (rule system_step.bridge)
  have known: "dm_contains (sm_pools market_mirror) 5"
    by (simp add: market_mirror_def mirror_new_def load_state_checkpoint_def dm_contains_def lookup_update)
  have s2: "sy_swaps ?s2 = [?ev]" "wd_mirror (en_world (sy_engine ?s2)) = market_mirror" "sy_detector ?s2 = d"
    "sy_found ?s2 = 0" "sy_opps ?s2 = []" "wd_executor (en_world (sy_engine ?s2)) = sample_executor executor"
    "wd_breaker (en_world (sy_engine ?s2)) = breaker_new 5 30" "\<not> wd_global_pause (en_world (sy_engine ?s2))"
    using mir known
    by (simp_all add: bridge_send_def bridge_log_def market_log_def start_system_def sample_booted_def boot_components_def
        boot_world_def Let_def)
  let ?s3 = "?s2\<lparr>sy_swaps := [], sy_engine := with_mirror (\<lambda>_. m) (sy_engine ?s2), sy_detector := d', sy_opps := [opp], sy_found := found\<rparr>"
  have "search_swap market_pricing (\<lambda>_ _. Some False) 0 ?ev (?s2\<lparr>sy_swaps := []\<rparr>) = Some ?s3"
    using p s2 by (simp add: search_swap_def)
  with s2(1) have "system_step E Q F ?s2 ?s3" by (intro system_step.search) simp_all
  with run have "system_run E Q F ?s ?s3" by (rule system_run.step)
  moreover have "market_state executor ?s3 opp"
    using opp m s2 by (simp add: market_state_def with_mirror_def)
  ultimately show thesis by (rule that)
qed

text \<open>The opportunity is handled up to the simulations, which earn nothing in a machine without code.\<close>

definition idle_treasury :: treasury_env where
  "idle_treasury = \<lparr>te_balance = Inr 0, te_l1_fee = Inr 0, te_gas_price = None, te_send = (\<lambda>_. True)\<rparr>"

lemma nine: "parse_address_robust digit_address ''0x9'' = 9"
  by (simp add: parse_address_robust_def trim_def is_space_def digit_address_def starts_with_def)

lemma sample_inert: "inert_machine x (sample_env inert_env)"
  unfolding inert_machine_def by (intro exI [of _ "\<lambda>_ e. e"]) (simp add: sample_env_def inert_codeless)

lemma market_avoids: "market_state executor s opp \<Longrightarrow> avoids 9 opp"
  by (auto simp: market_state_def avoids_def TOKEN_DAI_def Let_def map_eq_Cons_conv)

lemma market_handled:
  assumes "market_state ''0x9'' s opp"
  obtains v where "simulate_and_execute (sample_env inert_env) opp (en_world (sy_engine s)) =
      Some (v, Inl (SimulationFailed ''No lender provided profitable/robust results''))"
    and "DAList.lookup (fx_vetted_tokens (wd_executor v)) TOKEN_DAI = Some True"
proof -
  let ?w = "en_world (sy_engine s)"
  let ?v = "vet_world opp (lock_world (target_of ?w) opp ?w)"
  from assms obtain h where st: "path_hops (op_path opp) = [h]" "hop_pool_address h = 5" "hop_token_out h = TOKEN_DAI"
      "wd_executor ?w = sample_executor ''0x9''" "wd_breaker ?w = breaker_new 5 30"
      "sm_last_block_timestamp (wd_mirror ?w) = 0"
      "DAList.lookup (sm_trader_registry (wd_mirror ?w)) 5 = None" "get_bytecode (wd_mirror ?w) 9 = None"
    by (auto simp: market_state_def Let_def map_eq_Cons_conv)
  have closed: "\<not> is_open t (breaker_new 5 30)" for t
    by (simp add: is_open_def breaker_new_def total_failures_def MIN_SEARCHER_BALANCE_WEI_def MAX_BUILDER_LATENCY_MS_def)
  have "simulate_and_execute (sample_env inert_env) opp ?w = simulate_and_submit (sample_env inert_env) opp (target_of ?w) ?v"
    by (rule core_stages)
      (simp_all add: st closed sample_executor_def verify_state_freshness_def CORE_TOKENS_def get_head_def pool_new_def index_def)
  also have "\<dots> = Some (?v, Inl (SimulationFailed ''No lender provided profitable/robust results''))"
    by (rule inert_submit) (simp_all add: vet_world_def lock_world_def st sample_executor_def nine)
  finally have run: "simulate_and_execute (sample_env inert_env) opp ?w =
      Some (?v, Inl (SimulationFailed ''No lender provided profitable/robust results''))" .
  have "DAList.lookup (fx_vetted_tokens (wd_executor ?v)) TOKEN_DAI = Some True"
    by (simp add: vet_world_def vet_tokens_def st(1,3) lookup_update)
  then show thesis by (rule that [OF run])
qed

lemma market_dispatch:
  assumes "market_state ''0x9'' s opp"
  obtains en where "dispatch (sample_env inert_env) idle_treasury True opp (sy_engine s) = Some en"
    and "DAList.lookup (fx_vetted_tokens (wd_executor (en_world en))) TOKEN_DAI = Some True"
proof -
  obtain v where v: "simulate_and_execute (sample_env inert_env) opp (en_world (sy_engine s)) =
      Some (v, Inl (SimulationFailed ''No lender provided profitable/robust results''))"
      "DAList.lookup (fx_vetted_tokens (wd_executor v)) TOKEN_DAI = Some True"
    by (rule market_handled [OF assms])
  have "dispatch (sample_env inert_env) idle_treasury True opp (sy_engine s) = Some ((sy_engine s)\<lparr>en_world := v\<rparr>)"
    using assms v(1) nine by (simp add: market_state_def dispatch_def narrow_def sample_executor_def Let_def)
  then show thesis by (rule that) (simp add: v(2))
qed

end
