(* ===== verification/System_Facts.thy ===== *)
theory System_Facts
  imports System Sample_System
begin

text \<open>
  What holds of the whole program along every run from a successful start-up: what the detector
  hands to the main loop, that no profit is ever distributed, and when nothing is ever sent.
\<close>

section \<open>What the detector reports\<close>

definition log_triggered :: "swap_event \<Rightarrow> bool" where
  "log_triggered ev \<longleftrightarrow> (\<exists>now h pool. ev = trigger_event now h pool)"

definition plain :: "opportunity \<Rightarrow> bool" where
  "plain opp \<longleftrightarrow> (\<exists>n p profit token amount c. opp = new_opportunity n p profit token amount [] c 0)"

definition reported :: "u256 \<Rightarrow> opportunity \<Rightarrow> bool" where
  "reported k opp \<longleftrightarrow> plain opp \<and> k < op_expected_profit opp \<and> path_hops (op_path opp) \<noteq> []"

lemma get_pool_data_codes: "get_pool_data now a m = (r, m') \<Longrightarrow> sm_bytecodes m' = sm_bytecodes m"
  using pool_only_frames(6) [of now a m] by simp

lemma fetch_states_codes: "fetch_states now impacts hs m = (sts, m') \<Longrightarrow> sm_bytecodes m' = sm_bytecodes m"
  by (induction hs arbitrary: m sts)
    (auto split: prod.splits option.splits dest!: get_pool_data_codes)

lemma price_paths_plain:
  assumes "price_paths env now config impacts ev paths (m, found) = Some (opps, m', found')"
    and "ev_mempool_tx ev = None" and "ev_sender ev = 0"
  shows "(\<forall>opp \<in> set opps. plain opp) \<and> sm_bytecodes m' = sm_bytecodes m"
  using assms(1)
proof (induction paths arbitrary: m found opps)
  case (Cons hops paths)
  obtain states m1 where f: "fetch_states now impacts hops m = (states, m1)" by fastforce
  note codes = fetch_states_codes [OF f]
  show ?case
  proof (cases "price_paths env now config impacts ev paths (m1, found) = Some (opps, m', found')")
    case True
    from Cons.IH [OF this] codes show ?thesis by simp
  next
    case False
    with Cons.prems f assms(2,3) obtain rest p profit token amount where
      "price_paths env now config impacts ev paths (m1, found + 1) = Some (rest, m', found')"
      "opps = new_opportunity (found + 1) p profit token amount [] (dc_chain config) 0 # rest"
      by (auto simp: Let_def split: if_splits bind_splits)
    moreover have "plain (new_opportunity (found + 1) p profit token amount [] (dc_chain config) 0)"
      unfolding plain_def by blast
    ultimately show ?thesis using Cons.IH codes by auto
  qed
qed simp

lemma skew_codes: "skew_check skewed now ev m d = Some (m', d') \<Longrightarrow> sm_bytecodes m' = sm_bytecodes m \<and> de_config d' = de_config d"
  by (auto simp: skew_check_def Let_def split: if_splits prod.splits option.splits bind_splits dest: get_pool_data_codes)

lemma process_event_plain:
  assumes "process_event env skewed now ev d m found = Some (opps, d', m', found')" and "log_triggered ev"
  shows "(\<forall>opp \<in> set opps. plain opp) \<and> sm_bytecodes m' = sm_bytecodes m \<and> de_config d' = de_config d"
proof (cases "is_congested m (si_router (ev_swap_info ev)) 3")
  case False
  have ev: "ev_mempool_tx ev = None" "ev_sender ev = 0"
    using assms(2) by (auto simp: log_triggered_def trigger_event_def)
  from False assms(1) obtain impacts m1 tasks where
    skew: "skew_check skewed now ev m d = Some (m1, d')" and
    run: "exec_fold (run_task env now (de_config d) impacts ev (de_graph d)) tasks ([], m1, found) = Some (opps, m', found')"
    by (auto simp: process_event_def split: bind_splits)
  let ?I = "\<lambda>(os, mm, k :: u64). (\<forall>opp \<in> set os. plain opp) \<and> sm_bytecodes mm = sm_bytecodes m"
  have "?I (opps, m', found')"
  proof (rule exec_fold_inv [OF run])
    show "?I ([], m1, found)" using skew_codes [OF skew] by simp
    fix task st st' assume I: "?I st" and step: "run_task env now (de_config d) impacts ev (de_graph d) task st = Some st'"
    obtain os mm k where st: "st = (os, mm, k)" by (cases st)
    from step obtain paths new m3 k3 where
      r: "price_paths env now (de_config d) impacts ev paths (mm, k) = Some (new, m3, k3)" "st' = (os @ new, m3, k3)"
      by (cases task) (auto simp: run_task_def st split: bind_splits)
    from price_paths_plain [OF r(1) ev] I show "?I st'" by (auto simp: st r(2))
  qed
  with skew_codes [OF skew] show ?thesis by simp
qed (use assms in \<open>simp add: process_event_def\<close>)

lemma process_event_reported:
  assumes "process_event env skewed now ev d m found = Some (opps, d', m', found')" and "log_triggered ev"
  shows "\<forall>opp \<in> set opps. reported (dc_min_profit_wei (de_config d)) opp"
  using process_event_plain [OF assms] process_event_sound [OF assms(1)]
  by (auto simp: reported_def sound_opportunity_def Let_def)

lemma touch_config: "de_config (touch_activity now ev d) = de_config d"
  by (simp add: touch_activity_def Let_def split: option.split)

lemma registry_config:
  "on_new_pool order now m event d = Some d' \<Longrightarrow> de_config d' = de_config d"
  "sync_registry order now m d = Some d' \<Longrightarrow> de_config d' = de_config d"
  by (auto simp: on_new_pool_def sync_registry_def refresh_graph_def bind_eq_Some_conv split: prod.splits)

lemma bridge_triggers: "bridge_log now l en = (Some ev, en') \<Longrightarrow> log_triggered ev"
  by (auto simp: bridge_log_def log_triggered_def Let_def split: if_splits)

section \<open>The tasks of the engine\<close>

lemma engine_step_mono:
  "engine_step E Q F en en' \<Longrightarrow> (\<And>env. E env \<Longrightarrow> E' env) \<Longrightarrow> (\<And>opp. Q opp \<Longrightarrow> Q' opp) \<Longrightarrow>
   (\<And>ev. F ev \<Longrightarrow> F' ev) \<Longrightarrow> engine_step E' Q' F' en en'"
  by (induction rule: engine_step.induct) (auto intro: engine_step.intros)

definition task_frame :: "'p engine \<Rightarrow> 'p engine \<Rightarrow> bool" where
  "task_frame en en' \<longleftrightarrow> wd_sent (en_world en') = wd_sent (en_world en) \<and>
     wd_executor (en_world en') = wd_executor (en_world en) \<and>
     (en_profit en' = en_profit en \<or> en_profit en' = snd (report_harvest (en_profit en)))"

lemma init_frame:
  assumes "init_worker D now code replies en = Some en'"
  shows "task_frame en en'"
  using assms
  by (cases "en_init_queue en")
    (auto simp: init_worker_def task_frame_def with_mirror_def Let_def bind_eq_Some_conv split: prod.splits)

lemma engine_task_frame: "engine_step (\<lambda>_. False) (\<lambda>_. False) F en en' \<Longrightarrow> task_frame en en'"
proof (induction rule: engine_step.induct)
  case (feed event en now)
  then show ?case
    by (auto simp: task_frame_def pool_feed_def pool_of_event_def with_mirror_def Let_def split: new_pool_event.split)
next
  case (init D now code replies en en')
  then show ?case by (rule init_frame)
qed (simp_all add: task_frame_def heartbeat_log_def heartbeat_block_def bridge_log_def with_mirror_def gas_check_def
    harvest_def daily_report_def case_prod_beta Let_def)

lemma dispatch_profit:
  assumes "dispatch env tenv permit opp en = Some en'" and "op_profit_details opp = None"
  shows "en_profit en' = en_profit en"
proof (cases "en' = en")
  case False
  with assms(1) obtain w r where "simulate_and_execute env opp (en_world en) = Some (w, r)"
    "(case r of Inl _ \<Rightarrow> Some (en\<lparr>en_world := w\<rparr>) | Inr _ \<Rightarrow> after_success tenv opp (en\<lparr>en_world := w\<rparr>)) = Some en'"
    by (auto simp: dispatch_def bind_eq_Some_conv Let_def split: if_splits)
  with assms(2) show ?thesis by (cases r) (auto simp: after_success_def)
qed simp

section \<open>The channels\<close>

definition channels :: "detector_config \<Rightarrow> 'p system \<Rightarrow> bool" where
  "channels c s \<longleftrightarrow> (\<forall>ev \<in> set (sy_swaps s). log_triggered ev) \<and> de_config (sy_detector s) = c \<and>
     (\<forall>opp \<in> set (sy_opps s). reported (dc_min_profit_wei c) opp)"

lemma search_parts:
  assumes "search_swap penv skewed now ev s = Some s'" and "channels c s" and "log_triggered ev"
  shows "channels c s' \<and> (\<exists>m. sm_bytecodes m = sm_bytecodes (wd_mirror (en_world (sy_engine s))) \<and>
    sy_engine s' = with_mirror (\<lambda>_. m) (sy_engine s))"
proof -
  from assms(1) obtain opps d m found where
    p: "process_event penv skewed now ev (touch_activity now ev (sy_detector s)) (wd_mirror (en_world (sy_engine s)))
       (sy_found s) = Some (opps, d, m, found)"
    and s': "s' = s\<lparr>sy_engine := with_mirror (\<lambda>_. m) (sy_engine s), sy_detector := d, sy_opps := sy_opps s @ opps, sy_found := found\<rparr>"
    by (auto simp: search_swap_def bind_eq_Some_conv)
  from process_event_plain [OF p assms(3)] process_event_reported [OF p assms(3)] assms(2) show ?thesis
    by (auto simp: s' channels_def touch_config)
qed

lemma channels_engine: "channels c (s\<lparr>sy_engine := en\<rparr>) = channels c s"
  "channels c (s\<lparr>sy_feed := g\<rparr>) = channels c s"
  by (simp_all add: channels_def)

lemma channels_step:
  assumes "channels c s" and "system_step E Q F s s'"
  shows "channels c s'"
  using assms(2,1)
proof (induction rule: system_step.induct)
  case (bridge s now log)
  obtain ev en where b: "bridge_log now log (sy_engine s) = (ev, en)" by fastforce
  with bridge bridge_triggers [of now log "sy_engine s"] show ?case
    by (cases ev) (auto simp: bridge_send_def channels_def)
next
  case (search s ev rest penv skewed now s')
  then have "channels c (s\<lparr>sy_swaps := rest\<rparr>)" "log_triggered ev" by (simp_all add: channels_def)
  from search_parts [OF search(2) this] show ?case by simp
next
  case (pool event order now s d)
  then show ?case using registry_config(1) by (auto simp: channels_def)
next
  case (registry order now s d)
  then show ?case using registry_config(2) by (auto simp: channels_def)
qed (simp_all add: channels_engine channels_def)

lemma channels_run:
  assumes "system_run E Q F (start_system b) s"
  shows "channels (de_config (bt_detector b)) s"
  using assms by (rule run_invariant) (simp add: channels_def start_system_def, rule channels_step)

section \<open>Executor and profit under the steps\<close>

lemma bridge_engine: "sy_engine (bridge_send now log s) = snd (bridge_log now log (sy_engine s))"
  by (simp add: bridge_send_def case_prod_beta Let_def)

lemma engine_step_of_task:
  "engine_step (\<lambda>_ :: 'e exec_env. False) (\<lambda>_. False) F en en' \<Longrightarrow> engine_step (E :: 'e exec_env \<Rightarrow> bool) Q F en en'"
  by (erule engine_step_mono) simp_all

text \<open>A step of the system is, for the engine, a step of the engine, a search that only moves the
  mirror, a change of the fee scalars, or nothing.\<close>

lemma system_step_engine:
  fixes E :: "'e exec_env \<Rightarrow> bool"
  assumes "system_step E Q F s s'" and "channels c s"
  shows "engine_step (\<lambda>_ :: 'e exec_env. False) (\<lambda>_. False) F (sy_engine s) (sy_engine s') \<or>
    (\<exists>env opp tenv permit. opp \<in> set (sy_opps s) \<and> E env \<and> Q opp \<and>
       dispatch env tenv permit opp (sy_engine s) = Some (sy_engine s')) \<or>
    (\<exists>m. sm_bytecodes m = sm_bytecodes (wd_mirror (en_world (sy_engine s))) \<and>
       sy_engine s' = with_mirror (\<lambda>_. m) (sy_engine s)) \<or>
    (\<exists>sc. sy_engine s' = refresh_l1 sc (sy_engine s)) \<or> sy_engine s' = sy_engine s"
  using assms
proof (induction rule: system_step.induct)
  case (bridge s now log)
  show ?case by (simp add: bridge_engine engine_step.bridge)
next
  case (search s ev rest penv skewed now s')
  then have "channels c (s\<lparr>sy_swaps := rest\<rparr>)" "log_triggered ev" by (simp_all add: channels_def)
  from search_parts [OF search(2) this] show ?case by simp
next
  case (opportunity s opp rest env tenv permit en)
  have "opp \<in> set (sy_opps s)" using opportunity(1) by simp
  moreover have "sy_engine (s\<lparr>sy_opps := rest, sy_engine := en\<rparr>) = en" by simp
  ultimately show ?case using opportunity(2-4) by metis
qed auto

text \<open>What every opportunity in the channel looks like.\<close>

lemma reported_parts:
  assumes "reported k opp"
  shows "op_profit_details opp = None" "op_trigger_sender opp = Some 0" "op_trigger_gas_price opp = None"
    "\<not> op_is_whale_trigger opp" "op_gas_estimate opp = 0" "op_pending_txs opp = []"
    "k < op_expected_profit opp" "path_hops (op_path opp) \<noteq> []"
  using assms by (auto simp: reported_def plain_def new_opportunity_def)

definition undistributed :: "profit_manager \<Rightarrow> 'p system \<Rightarrow> bool" where
  "undistributed p s \<longleftrightarrow> en_profit (sy_engine s) = p"

lemma undistributed_step:
  assumes "system_step E Q F s s'" and "channels c s" and "undistributed p s" and "pm_daily_profit p = 0"
  shows "undistributed p s'"
proof -
  have "snd (report_harvest p) = p" using assms(4) by (simp add: report_harvest_def)
  moreover have "\<forall>opp \<in> set (sy_opps s). op_profit_details opp = None"
    using assms(2) by (auto simp: channels_def reported_parts)
  ultimately show ?thesis using system_step_engine [OF assms(1,2)] assms(3)
    by (auto simp: undistributed_def refresh_l1_def with_mirror_def task_frame_def
        dest!: engine_task_frame dispatch_profit)
qed

section \<open>Nothing is sent\<close>

text \<open>Without an executor, and with one whose code is not in the bytecode file.\<close>

definition dry :: "'p system \<Rightarrow> bool" where
  "dry s \<longleftrightarrow> fx_contract_address (wd_executor (en_world (sy_engine s))) = 0 \<and> wd_sent (en_world (sy_engine s)) = []"

lemma dry_dispatch:
  assumes "dispatch env tenv permit opp en = Some en'" and "fx_contract_address (wd_executor (en_world en)) = 0"
  shows "en' = en"
  using assms by (auto simp: dispatch_def bind_eq_Some_conv split: if_splits)

lemma dry_step:
  assumes "system_step E Q F s s'" and "channels c s" and "dry s"
  shows "dry s'"
proof -
  have dry: "fx_contract_address (wd_executor (en_world (sy_engine s))) = 0" using assms(3) by (simp add: dry_def)
  from system_step_engine [OF assms(1,2)] assms(3) show ?thesis
    by (auto simp: dry_def refresh_l1_def with_mirror_def task_frame_def
        dest!: engine_task_frame dry_dispatch [OF _ dry])
qed

lemma silent_system_step:
  assumes "system_step (inert_machine x) (avoids x) (other_pool x) s s'" and "channels c s"
    and "silent x [] (sy_engine s)"
  shows "silent x [] (sy_engine s')"
  using system_step_engine [OF assms(1,2)]
proof (elim disjE exE conjE)
  assume "engine_step (\<lambda>_. False) (\<lambda>_. False) (other_pool x) (sy_engine s) (sy_engine s')"
  from silent_step [OF engine_step_of_task [OF this] assms(3)] show ?thesis .
next
  fix env opp tenv permit assume "inert_machine x env" "avoids x opp"
    "dispatch env tenv permit opp (sy_engine s) = Some (sy_engine s')"
  then show ?thesis by (rule silent_dispatch [OF assms(3)])
next
  fix m assume m: "sm_bytecodes m = sm_bytecodes (wd_mirror (en_world (sy_engine s)))"
    "sy_engine s' = with_mirror (\<lambda>_. m) (sy_engine s)"
  then show ?thesis using assms(3) codes_cong [OF m(1), of x] by (simp add: silent_def)
next
  fix sc assume "sy_engine s' = refresh_l1 sc (sy_engine s)"
  then show ?thesis using assms(3) by (simp add: silent_def refresh_l1_def)
qed (use assms(3) in simp)

section \<open>From the start-up\<close>

text \<open>An invariant beside the channels.\<close>

lemma system_invariant:
  assumes "system_run E Q F (start_system b) s" and "I (start_system b)"
    and "\<And>t t'. I t \<Longrightarrow> channels (de_config (bt_detector b)) t \<Longrightarrow> system_step E Q F t t' \<Longrightarrow> I t'"
  shows "channels (de_config (bt_detector b)) s \<and> I s"
  using assms(1)
proof (rule run_invariant)
  show "channels (de_config (bt_detector b)) (start_system b) \<and> I (start_system b)"
    using assms(2) by (simp add: channels_def start_system_def)
qed (use assms(3) channels_step in blast)

lemma booted_config:
  assumes "run_engine h = Some (Inr b)"
  shows "dc_min_profit_wei (de_config (bt_detector b)) = 2 * 10 ^ 14"
    "en_profit (bt_engine b) = profit_manager_new Base 40000000000000000 (compounding_target h)"
    "wd_sent (en_world (bt_engine b)) = []" "en_init_queue (bt_engine b) = []"
    "fx_contract_address (wd_executor (en_world (bt_engine b))) =
       parse_address_robust (ho_parse_address h) (env_default (ho_env h) ''EXECUTOR_ADDRESS'')"
    "fx_min_profit_wei (wd_executor (en_world (bt_engine b))) = 10 ^ 14"
    "sm_bytecodes (wd_mirror (en_world (bt_engine b))) =
       load_bytecode_cache (read_file (ho_decode_codes h) (ho_bytecode_file h)) DAList.empty"
  using assms
  by (auto elim!: run_engine_parts simp: boot_codes boot_detector_config_def detector_new_def dest!: settings_parts)

lemma booted_silent:
  assumes "run_engine h = Some (Inr b)"
    and "x = parse_address_robust (ho_parse_address h) (env_default (ho_env h) ''EXECUTOR_ADDRESS'')"
    and "system_run (inert_machine x) (avoids x) (other_pool x) (start_system b) s"
    and "x \<notin> codes_of (ho_decode_codes h) (ho_bytecode_file h)"
  shows "silent x [] (sy_engine s)"
proof -
  have "silent x [] (sy_engine (start_system b))"
    using loaded_code [OF assms(4)]
    by (simp add: silent_def start_system_def booted_config [OF assms(1)] assms(2) get_bytecode_def)
  with system_invariant [OF assms(3), of "\<lambda>s. silent x [] (sy_engine s)"] silent_system_step
  show ?thesis by blast
qed

section \<open>Properties\<close>

text \<open>C7 No profit is ever distributed: from a start-up, in every sequence of steps of the tasks, every
  opportunity the detector puts into the channel is without profit details, so the profit manager
  keeps the state it was created with: no share for the gas vault, nothing compounded, nothing in
  the daily report.\<close>

theorem booted_profit_never_distributed:
  assumes "run_engine h = Some (Inr b)" and "system_run E Q F (start_system b) s"
  shows "en_profit (sy_engine s) = profit_manager_new Base 40000000000000000 (compounding_target h) \<and>
    (\<forall>opp \<in> set (sy_opps s). op_profit_details opp = None)"
proof -
  let ?p = "profit_manager_new Base 40000000000000000 (compounding_target h)"
  have "channels (de_config (bt_detector b)) s \<and> undistributed ?p s"
  proof (rule system_invariant [OF assms(2)])
    show "undistributed ?p (start_system b)"
      by (simp add: undistributed_def start_system_def booted_config [OF assms(1)])
    show "undistributed ?p t'" if "undistributed ?p t" "channels (de_config (bt_detector b)) t" "system_step E Q F t t'" for t t'
      using undistributed_step [OF that(3,2,1)] by (simp add: profit_manager_new_def)
  qed
  then show ?thesis by (auto simp: undistributed_def channels_def reported_parts)
qed


theorem booted_profit_never_distributed_witness:
  "\<exists>s opp. run_engine (sample_host ''0x9'' (Some [(5, traded_pool)])) = Some (Inr (sample_booted ''0x9'' (Some [(5, traded_pool)]))) \<and>
     system_run (\<lambda>_ :: unit exec_env. True) (\<lambda>_. True) (\<lambda>_. True) (start_system (sample_booted ''0x9'' (Some [(5, traded_pool)]))) s \<and>
     sy_opps s = [opp] \<and> op_profit_details opp = None"
proof -
  let ?b = "sample_booted ''0x9'' (Some [(5, traded_pool)])"
  obtain s opp where run: "system_run (\<lambda>_ :: unit exec_env. True) (\<lambda>_. True) (\<lambda>_. True) (start_system ?b) s"
      "market_state ''0x9'' s opp"
    by (rule market_runs [of "\<lambda>_. True"]) simp
  show ?thesis
    using booted_profit_never_distributed [OF sample_boots run(1)] run sample_boots by (auto simp: market_state_def Let_def)
qed

text \<open>C8 What reaches the executor: every opportunity in the channel promises more than the detector's
  floor of 0.0002 ETH, has a hop, and tells nothing of the transaction that triggered it: no gas
  price, no whale flag, no gas estimate, and a sender that is no known competitor.\<close>

theorem booted_opportunities:
  assumes "run_engine h = Some (Inr b)" and "system_run E Q F (start_system b) s" and "opp \<in> set (sy_opps s)"
  shows "2 * 10 ^ 14 < op_expected_profit opp \<and> path_hops (op_path opp) \<noteq> [] \<and> \<not> is_predator_active opp \<and>
    op_trigger_gas_price opp = None \<and> \<not> op_is_whale_trigger opp \<and> op_gas_estimate opp = 0 \<and> op_pending_txs opp = []"
proof -
  have "reported (2 * 10 ^ 14) opp"
    using channels_run [OF assms(2)] assms(3) by (simp add: channels_def booted_config [OF assms(1)])
  then show ?thesis by (simp add: reported_parts is_predator_active_def KNOWN_COMPETITORS_def)
qed

theorem booted_opportunities_witness:
  "\<exists>s opp. run_engine (sample_host ''0x9'' (Some [(5, traded_pool)])) = Some (Inr (sample_booted ''0x9'' (Some [(5, traded_pool)]))) \<and>
     system_run (\<lambda>_ :: unit exec_env. True) (\<lambda>_. True) (\<lambda>_. True) (start_system (sample_booted ''0x9'' (Some [(5, traded_pool)]))) s \<and>
     sy_opps s = [opp] \<and> op_expected_profit opp = 995999005991991025 \<and> \<not> is_predator_active opp"
proof -
  let ?b = "sample_booted ''0x9'' (Some [(5, traded_pool)])"
  obtain s opp where run: "system_run (\<lambda>_ :: unit exec_env. True) (\<lambda>_. True) (\<lambda>_. True) (start_system ?b) s"
      "market_state ''0x9'' s opp"
    by (rule market_runs [of "\<lambda>_. True"]) simp
  then have "opp \<in> set (sy_opps s)" by (simp add: market_state_def Let_def)
  with booted_opportunities [OF sample_boots run(1)] run sample_boots show ?thesis
    by (auto simp: market_state_def Let_def)
qed

text \<open>C9 A dry run never sends: if the executor address is missing, blank or not parsed, with its \<open>0x\<close> added when
  it lacks one, and the program starts, no bundle is sent in any sequence of steps of its tasks, whatever
  machine simulates and whatever pools are announced.\<close>

theorem dry_run_never_sends:
  assumes "run_engine h = Some (Inr b)" and "system_run E Q F (start_system b) s"
    and "s0 = trim (env_default (ho_env h) ''EXECUTOR_ADDRESS'')"
    and "s0 = [] \<or> ho_parse_address h (if starts_with ''0x'' s0 then s0 else ''0x'' @ s0) = None"
  shows "wd_sent (en_world (sy_engine s)) = []"
proof -
  have "parse_address_robust (ho_parse_address h) (env_default (ho_env h) ''EXECUTOR_ADDRESS'') = 0"
    using assms(3,4) by (auto simp: parse_address_robust_def Let_def split: if_splits)
  then have "dry (start_system b)" by (simp add: dry_def start_system_def booted_config [OF assms(1)])
  from system_invariant [OF assms(2), of dry, OF this] dry_step have "dry s" by blast
  then show ?thesis by (simp add: dry_def)
qed

theorem dry_run_never_sends_witness:
  "\<exists>s s' opp. run_engine (sample_host ''0x9g'' (Some [(5, traded_pool)])) = Some (Inr (sample_booted ''0x9g'' (Some [(5, traded_pool)]))) \<and>
     system_run (\<lambda>_ :: unit exec_env. True) (\<lambda>_. True) (\<lambda>_. True) (start_system (sample_booted ''0x9g'' (Some [(5, traded_pool)]))) s \<and>
     sy_opps s = [opp] \<and> s' = s\<lparr>sy_opps := []\<rparr> \<and>
     system_run (\<lambda>_ :: unit exec_env. True) (\<lambda>_. True) (\<lambda>_. True) (start_system (sample_booted ''0x9g'' (Some [(5, traded_pool)]))) s' \<and>
     wd_sent (en_world (sy_engine s')) = []"
proof -
  let ?b = "sample_booted ''0x9g'' (Some [(5, traded_pool)])"
  let ?run = "system_run (\<lambda>_ :: unit exec_env. True) (\<lambda>_. True) (\<lambda>_. True) (start_system ?b)"
  obtain s opp where run: "?run s" and st: "market_state ''0x9g'' s opp"
    by (rule market_runs [of "\<lambda>_. True"]) simp
  have opps: "sy_opps s = [opp]" and idle: "dispatch env idle_treasury True opp (sy_engine s) = Some (sy_engine s)"
    for env :: "unit exec_env"
    using st by (simp_all add: market_state_def dispatch_def narrow_def sample_executor_def parse_address_robust_def
        trim_def is_space_def digit_address_def starts_with_def Let_def)
  have "system_step (\<lambda>_ :: unit exec_env. True) (\<lambda>_. True) (\<lambda>_. True) s (s\<lparr>sy_opps := [], sy_engine := sy_engine s\<rparr>)"
    by (rule system_step.opportunity [where opp = opp]) (use opps idle in simp_all)
  with run have run': "?run (s\<lparr>sy_opps := []\<rparr>)" by (auto intro: system_run.step)
  have "wd_sent (en_world (sy_engine (s\<lparr>sy_opps := []\<rparr>))) = []"
    by (rule dry_run_never_sends [OF sample_boots run' HOL.refl])
      (simp add: sample_host_def env_default_def trim_def is_space_def digit_address_def starts_with_def)
  with run run' opps sample_boots show ?thesis by blast
qed

text \<open>C1 The program as started by \<open>main.rs\<close> never sends a bundle, in any sequence of steps of the bridge, the
  detector, the pool feeds, the background feeds, the engine's own tasks and the handling of the
  opportunities the detector finds, if at the start the bytecode file does not hold the executor
  contract; and if all along the simulating machine treats accounts without code as inert, no hop of an
  opportunity that is handled has the executor contract as its pool or its output token, and no pool that
  is announced is the executor contract.\<close>

theorem booted_system_never_sends:
  assumes "run_engine h = Some (Inr b)"
    and "x = parse_address_robust (ho_parse_address h) (env_default (ho_env h) ''EXECUTOR_ADDRESS'')"
    and "system_run (inert_machine x) (avoids x) (other_pool x) (start_system b) s"
    and "x \<notin> codes_of (ho_decode_codes h) (ho_bytecode_file h)"
  shows "wd_sent (en_world (sy_engine s)) = []"
  using booted_silent [OF assms] by (simp add: silent_def)

text \<open>A bytecode file with another account, a found opportunity, and its handling in a machine that is inert,
  up to the simulations.\<close>

theorem booted_system_never_sends_witness:
  "run_engine (sample_host ''0x9'' (Some [(5, traded_pool)])) = Some (Inr (sample_booted ''0x9'' (Some [(5, traded_pool)]))) \<and>
   (\<exists>s s' opp en. system_run (inert_machine 9 :: (address \<Rightarrow> bool) exec_env \<Rightarrow> bool) (avoids 9) (other_pool 9)
       (start_system (sample_booted ''0x9'' (Some [(5, traded_pool)]))) s \<and>
     sy_opps s = [opp] \<and> inert_machine 9 (sample_env inert_env) \<and> avoids 9 opp \<and>
     dispatch (sample_env inert_env) idle_treasury True opp (sy_engine s) = Some en \<and>
     DAList.lookup (fx_vetted_tokens (wd_executor (en_world en))) TOKEN_DAI = Some True \<and>
     s' = s\<lparr>sy_opps := [], sy_engine := en\<rparr> \<and>
     system_run (inert_machine 9 :: (address \<Rightarrow> bool) exec_env \<Rightarrow> bool) (avoids 9) (other_pool 9)
       (start_system (sample_booted ''0x9'' (Some [(5, traded_pool)]))) s' \<and> wd_sent (en_world (sy_engine s')) = [])"
proof -
  let ?h = "sample_host ''0x9'' (Some [(5, traded_pool)])" and ?b = "sample_booted ''0x9'' (Some [(5, traded_pool)])"
  let ?run = "system_run (inert_machine 9 :: (address \<Rightarrow> bool) exec_env \<Rightarrow> bool) (avoids 9) (other_pool 9) (start_system ?b)"
  obtain s opp where run: "?run s" and st: "market_state ''0x9'' s opp"
    by (rule market_runs [of "other_pool 9"]) (simp add: other_pool_def pool_of_event_def market_event_def)
  obtain en where en: "dispatch (sample_env inert_env) idle_treasury True opp (sy_engine s) = Some en"
      "DAList.lookup (fx_vetted_tokens (wd_executor (en_world en))) TOKEN_DAI = Some True"
    using market_dispatch [OF st] by blast
  have inert: "inert_machine 9 (sample_env inert_env)" by (rule sample_inert)
  have avoid: "avoids 9 opp" by (rule market_avoids [OF st])
  have opps: "sy_opps s = [opp]" using st by (simp add: market_state_def Let_def)
  have "system_step (inert_machine 9 :: (address \<Rightarrow> bool) exec_env \<Rightarrow> bool) (avoids 9) (other_pool 9) s (s\<lparr>sy_opps := [], sy_engine := en\<rparr>)"
    by (rule system_step.opportunity [where opp = opp]) (use opps inert avoid en(1) in simp_all)
  with run have run': "?run (s\<lparr>sy_opps := [], sy_engine := en\<rparr>)" by (rule system_run.step)
  have x: "9 = parse_address_robust (ho_parse_address ?h) (env_default (ho_env ?h) ''EXECUTOR_ADDRESS'')"
    by (simp add: sample_host_def env_default_def nine)
  have "9 \<notin> codes_of (ho_decode_codes ?h) (ho_bytecode_file ?h)" by (simp add: sample_host_def)
  from booted_system_never_sends [OF sample_boots x run' this] run run' opps inert avoid en sample_boots show ?thesis by blast
qed

text \<open>Anvil mode does not bypass the public relays: with a local node and no private relay the relay
  list of the configuration is empty, yet a bundle still goes to the five public relays.\<close>

theorem anvil_still_broadcasts:
  assumes "run_engine h = Some (Inr b)" and "read_settings h = Some (Inr st)"
    and "is_local_node (map fst (se_ws st))" and "ho_env h ''PRIVATE_RELAY_URL'' = None"
    and "broadcast_bundle env (bt_builder b) bundle = Some (posts, replies)"
  shows "bc_relays (bb_config (bt_builder b)) = [] \<and> map po_url posts = PRIVATE_RELAYS \<and>
    list_all (\<lambda>url. starts_with ''https://'' url) (map po_url posts)"
proof -
  from assms(5) have "map po_url posts = PRIVATE_RELAYS"
    by (auto simp: broadcast_bundle_def Let_def bind_eq_Some_conv relay_post_def comp_def)
  moreover have "bc_relays (bb_config (bt_builder b)) = []"
    using assms(1-4)
    by (auto elim!: run_engine_parts simp: boot_builder_def builder_new_def boot_builder_config_def boot_relays_def)
  moreover have "list_all (\<lambda>url. starts_with ''https://'' url) PRIVATE_RELAYS" by code_simp
  ultimately show ?thesis by simp
qed

theorem anvil_still_broadcasts_witness:
  "\<exists>posts replies. run_engine (sample_host ''0x9'' None) = Some (Inr (sample_booted ''0x9'' None)) \<and>
     broadcast_bundle quiet_relays (bt_builder (sample_booted ''0x9'' None)) bundle_new = Some (posts, replies) \<and>
     map po_url posts = PRIVATE_RELAYS"
proof -
  let ?b = "sample_booted ''0x9'' None"
  obtain posts replies where run: "broadcast_bundle quiet_relays (bt_builder ?b) bundle_new = Some (posts, replies)"
    by (simp add: broadcast_bundle_def sign_request_def quiet_relays_def)
  have "is_local_node (map fst (se_ws (sample_settings ''0x9'')))"
    by code_simp
  from anvil_still_broadcasts [OF sample_boots sample_reads this _ run] run sample_boots show ?thesis
    by (auto simp: sample_host_def)
qed

end
