(* ===== verification/Float64.thy ===== *)
theory Float64
  imports Shadow_Base "HOL-Library.Log_Nat"
begin

text \<open>
  The \<open>f64\<close> of the source: binary64 with round to nearest, ties to even, in integer arithmetic. A
  finite number is its sign, its mantissa below \<open>2 ^ 53\<close> and the exponent of its unit, so that both
  zeros are there. \<open>powi\<close>, whose precision Rust leaves open, is an argument where it is used.
\<close>

section \<open>Rounding\<close>

datatype f64 = NotANumber | Infinite bool | Number bool int int

abbreviation zero_of :: "bool \<Rightarrow> f64" where
  "zero_of s \<equiv> Number s 0 (- 1074)"

text \<open>The fraction \<open>a / (b * 2 powi t)\<close>.\<close>

definition scaled :: "int \<Rightarrow> int \<Rightarrow> int \<Rightarrow> int \<times> int" where
  "scaled a b t = (if 0 \<le> t then (a, b * 2 ^ nat t) else (a * 2 ^ nat (- t), b))"

text \<open>The exponent \<open>x\<close> of a positive fraction: \<open>2 powi x \<le> a / b < 2 powi (x + 1)\<close>.\<close>

definition exponent_of :: "int \<Rightarrow> int \<Rightarrow> int" where
  "exponent_of a b =
     (let l = bitlen a - bitlen b; (n, d) = scaled a b l in if d \<le> n then l else l - 1)"

definition round_even :: "int \<Rightarrow> int \<Rightarrow> int" where
  "round_even n d =
     (let q = n div d; r = n mod d in if 2 * r < d \<or> 2 * r = d \<and> even q then q else q + 1)"

text \<open>The number \<open>a / b * 2 powi e\<close>, rounded; \<open>a\<close> is not negative and \<open>b\<close> is positive.\<close>

definition round64 :: "bool \<Rightarrow> int \<Rightarrow> int \<Rightarrow> int \<Rightarrow> f64" where
  "round64 s a b e =
     (if a = 0 then zero_of s
      else
        let k = max (exponent_of a b + e - 52) (- 1074);
            (n, d) = scaled a b (k - e);
            m = round_even n d;
            (m, k) = (if m = 2 ^ 53 then (2 ^ 52, k + 1) else (m, k))
        in if 971 < k then Infinite s else if m = 0 then zero_of s else Number s m k)"

section \<open>Arithmetic\<close>

definition signed :: "bool \<Rightarrow> int \<Rightarrow> int" where
  "signed s m = (if s then - m else m)"

text \<open>Two numbers on their smaller unit.\<close>

definition aligned :: "bool \<Rightarrow> int \<Rightarrow> int \<Rightarrow> bool \<Rightarrow> int \<Rightarrow> int \<Rightarrow> int \<times> int \<times> int" where
  "aligned s m e t n f =
     (let k = min e f in (signed s m * 2 ^ nat (e - k), signed t n * 2 ^ nat (f - k), k))"

fun fneg :: "f64 \<Rightarrow> f64" where
  "fneg NotANumber = NotANumber"
| "fneg (Infinite s) = Infinite (\<not> s)"
| "fneg (Number s m e) = Number (\<not> s) m e"

fun fabs :: "f64 \<Rightarrow> f64" where
  "fabs NotANumber = NotANumber"
| "fabs (Infinite s) = Infinite False"
| "fabs (Number s m e) = Number False m e"

fun fadd :: "f64 \<Rightarrow> f64 \<Rightarrow> f64" where
  "fadd (Number s m e) (Number t n f) =
     (let (x, y, k) = aligned s m e t n f; v = x + y
      in if v = 0 then zero_of (s \<and> t) else round64 (v < 0) \<bar>v\<bar> 1 k)"
| "fadd (Infinite s) (Infinite t) = (if s = t then Infinite s else NotANumber)"
| "fadd (Infinite s) (Number t n f) = Infinite s"
| "fadd (Number s m e) (Infinite t) = Infinite t"
| "fadd _ _ = NotANumber"

definition fsub :: "f64 \<Rightarrow> f64 \<Rightarrow> f64" where
  "fsub a b = fadd a (fneg b)"

fun fmul :: "f64 \<Rightarrow> f64 \<Rightarrow> f64" where
  "fmul (Number s m e) (Number t n f) = round64 (s \<noteq> t) (m * n) 1 (e + f)"
| "fmul (Infinite s) (Infinite t) = Infinite (s \<noteq> t)"
| "fmul (Infinite s) (Number t n f) = (if n = 0 then NotANumber else Infinite (s \<noteq> t))"
| "fmul (Number s m e) (Infinite t) = (if m = 0 then NotANumber else Infinite (s \<noteq> t))"
| "fmul _ _ = NotANumber"

fun fdiv :: "f64 \<Rightarrow> f64 \<Rightarrow> f64" where
  "fdiv (Number s m e) (Number t n f) =
     (if n = 0 then (if m = 0 then NotANumber else Infinite (s \<noteq> t)) else round64 (s \<noteq> t) m n (e - f))"
| "fdiv (Infinite s) (Number t n f) = Infinite (s \<noteq> t)"
| "fdiv (Number s m e) (Infinite t) = zero_of (s \<noteq> t)"
| "fdiv _ _ = NotANumber"

fun fless :: "f64 \<Rightarrow> f64 \<Rightarrow> bool" where
  "fless (Number s m e) (Number t n f) = (let (x, y, k) = aligned s m e t n f in x < y)"
| "fless (Infinite s) (Infinite t) = (s \<and> \<not> t)"
| "fless (Infinite s) (Number t n f) = s"
| "fless (Number s m e) (Infinite t) = (\<not> t)"
| "fless _ _ = False"

fun feq :: "f64 \<Rightarrow> f64 \<Rightarrow> bool" where
  "feq (Number s m e) (Number t n f) = (let (x, y, k) = aligned s m e t n f in x = y)"
| "feq (Infinite s) (Infinite t) = (s = t)"
| "feq _ _ = False"

definition fleq :: "f64 \<Rightarrow> f64 \<Rightarrow> bool" where
  "fleq a b \<longleftrightarrow> fless a b \<or> feq a b"

text \<open>\<open>f64::max\<close> ignores a NaN on one side.\<close>

definition fmax :: "f64 \<Rightarrow> f64 \<Rightarrow> f64" where
  "fmax a b = (if a = NotANumber then b else if b = NotANumber then a else if fless a b then b else a)"

section \<open>Conversions\<close>

text \<open>A decimal literal \<open>a / b\<close>.\<close>

definition lit :: "int \<Rightarrow> int \<Rightarrow> f64" where
  "lit a b = round64 False a b 0"

text \<open>\<open>as f64\<close> of an unsigned integer, and \<open>as\<close> back, which truncates and saturates.\<close>

definition of_word :: "'a::len word \<Rightarrow> f64" where
  "of_word w = round64 False (uint w) 1 0"

definition truncate :: "int \<Rightarrow> int \<Rightarrow> int" where
  "truncate m e = (if 0 \<le> e then m * 2 ^ nat e else m div 2 ^ nat (- e))"

definition as_word :: "f64 \<Rightarrow> 'a::len word" where
  "as_word x =
     (case x of
        NotANumber \<Rightarrow> 0
      | Infinite s \<Rightarrow> if s then 0 else - 1
      | Number s m e \<Rightarrow>
          if s then 0 else if 2 ^ LENGTH('a) \<le> truncate m e then - 1 else word_of_int (truncate m e))"

section \<open>How far rounding moves\<close>

text \<open>The rational value of a number.\<close>

fun rat_of :: "f64 \<Rightarrow> rat" where
  "rat_of (Number s m e) = of_int (signed s m) * 2 powi e"
| "rat_of _ = 0"

lemma two_powi_pos [simp]: "(0 :: rat) < 2 powi i"
  by simp

lemma bitlen_powi:
  assumes a: "0 < a"
  shows "(2 :: rat) powi (bitlen a - 1) \<le> of_int a" and "(of_int a :: rat) < 2 powi bitlen a"
proof -
  have one: "1 \<le> bitlen a" using a by (simp add: bitlen_alt_def)
  then have powi: "(2 :: rat) powi bitlen a = of_int (2 ^ nat (bitlen a))"
    "(2 :: rat) powi (bitlen a - 1) = of_int (2 ^ nat (bitlen a - 1))"
    by (simp_all add: power_int_def)
  show "(2 :: rat) powi (bitlen a - 1) \<le> of_int a" "(of_int a :: rat) < 2 powi bitlen a"
    unfolding powi of_int_le_iff of_int_less_iff using bitlen_bounds [OF a] by simp_all
qed

lemma scaled_value:
  assumes "scaled a b t = (n, d)" and "0 < b"
  shows "0 < d" and "(of_int n :: rat) / of_int d = of_int a / of_int b / 2 powi t"
  using assms by (auto simp: scaled_def power_int_def field_simps split: if_splits)

lemma exponent_bounds:
  assumes a: "0 < a" and b: "0 < b"
  shows "2 powi exponent_of a b \<le> (of_int a / of_int b :: rat)"
    and "(of_int a / of_int b :: rat) < 2 powi (exponent_of a b + 1)"
proof -
  let ?q = "of_int a / of_int b :: rat" and ?A = "2 powi bitlen a :: rat" and ?B = "2 powi bitlen b :: rat"
  have A: "?A / 2 \<le> of_int a" "of_int a < ?A" and B: "?B / 2 \<le> of_int b" "of_int b < ?B"
    using bitlen_powi [OF a] bitlen_powi [OF b] by (simp_all add: power_int_diff)
  have b': "(0 :: rat) < of_int b" using b by simp
  let ?l = "bitlen a - bitlen b"
  have e: "2 powi ?l = ?A / ?B" by (simp add: power_int_diff)
  have "?q < ?A / of_int b" using A(2) b' by (rule divide_strict_right_mono)
  also have "\<dots> \<le> ?A / (?B / 2)" using B(1) b' by (intro divide_left_mono) simp_all
  finally have up: "?q < 2 * 2 powi ?l" by (simp add: e mult.commute)
  have "(?A / 2) / ?B \<le> ?q" using A(1) B(2) b' a by (intro frac_le) simp_all
  then have lo: "2 powi ?l / 2 \<le> ?q" by (simp add: e)
  obtain n d where nd: "scaled a b ?l = (n, d)" by fastforce
  have "d \<le> n \<longleftrightarrow> 1 \<le> (of_int n :: rat) / of_int d"
    using scaled_value(1) [OF nd b] by (simp add: le_divide_eq)
  also have "\<dots> \<longleftrightarrow> 2 powi ?l \<le> ?q" unfolding scaled_value(2) [OF nd b] by (rule le_divide_eq_1_pos) simp
  finally have test: "d \<le> n \<longleftrightarrow> 2 powi ?l \<le> ?q" .
  show "2 powi exponent_of a b \<le> ?q" "?q < 2 powi (exponent_of a b + 1)"
    using lo up test by (auto simp: exponent_of_def nd power_int_diff power_int_add mult.commute [of 2])
qed

lemma round_even_near:
  assumes "0 < d"
  shows "\<bar>of_int (round_even n d) - of_int n / of_int d\<bar> \<le> (1 / 2 :: rat)"
proof -
  have "n = d * (n div d) + n mod d" by simp
  then have "(of_int n :: rat) = of_int d * of_int (n div d) + of_int (n mod d)"
    by (metis of_int_add of_int_mult)
  then have q: "(of_int n :: rat) / of_int d = of_int (n div d) + of_int (n mod d) / of_int d"
    using assms by (simp add: field_simps)
  define f where "f = (of_int (n mod d) :: rat) / of_int d"
  have "0 \<le> n mod d" "n mod d < d" using assms by simp_all
  then have f: "0 \<le> f" "f < 1" using assms by (simp_all add: f_def divide_less_eq)
  have "of_int (2 * (n mod d)) \<le> (of_int d :: rat) \<longleftrightarrow> 2 * (n mod d) \<le> d"
    "(of_int d :: rat) \<le> of_int (2 * (n mod d)) \<longleftrightarrow> d \<le> 2 * (n mod d)"
    by (simp_all only: of_int_le_iff)
  then have half: "f \<le> 1 / 2 \<longleftrightarrow> 2 * (n mod d) \<le> d" "1 / 2 \<le> f \<longleftrightarrow> d \<le> 2 * (n mod d)"
    using assms by (simp_all add: f_def divide_le_eq le_divide_eq mult.commute)
  consider "round_even n d = n div d" "f \<le> 1 / 2" | "round_even n d = n div d + 1" "1 / 2 \<le> f"
    unfolding half round_even_def Let_def by (cases "2 * (n mod d) \<le> d"; cases "2 * (n mod d) = d"; cases "even (n div d)") auto
  then show ?thesis
    unfolding q f_def [symmetric] by cases (use f in \<open>simp_all add: abs_le_iff\<close>)
qed

text \<open>The normal range, with room on both sides.\<close>

definition tiny :: rat where "tiny = 1 / 2 ^ 1000"
definition huge :: rat where "huge = 2 ^ 1000"

lemma tiny_powi: "tiny = 2 powi (- 1000)" and huge_powi: "huge = 2 powi 1000"
  by (simp_all only: tiny_def huge_def power_int_minus power_int_numeral inverse_eq_divide)

lemma tiny_small: "1 / 2 ^ 300 \<le> q \<Longrightarrow> tiny \<le> q"
  by (rule order_trans [rotated], assumption) (simp add: tiny_def)

lemma huge_large: "q < 2 ^ 300 \<Longrightarrow> q < huge"
  by (erule less_le_trans) (simp add: huge_def)

text \<open>Numbers well inside the normal range are rounded to one within one part in \<open>2 ^ 53\<close>.\<close>

lemma round64_near:
  assumes a: "0 < a" and b: "0 < b" and q: "q = of_int a / of_int b * (2 :: rat) powi e" and "tiny \<le> q" and "q < huge"
  obtains m k where "round64 s a b e = Number s m k" and "0 < m"
    and "\<bar>of_int m * 2 powi k - q\<bar> \<le> q / 2 ^ 53"
proof -
  let ?x = "exponent_of a b + e"
  have add: "(2 :: rat) powi ?x = 2 powi exponent_of a b * 2 powi e"
    "(2 :: rat) powi (?x + 1) = 2 powi (exponent_of a b + 1) * 2 powi e"
    by (simp_all add: power_int_add)
  have bounds: "2 powi ?x \<le> q" "q < 2 powi (?x + 1)"
    unfolding add q using mult_right_mono [OF exponent_bounds(1) [OF a b], of "2 powi e"]
      mult_strict_right_mono [OF exponent_bounds(2) [OF a b], of "2 powi e"]
    by simp_all
  have x: "- 1000 \<le> ?x"
  proof (rule ccontr)
    assume "\<not> - 1000 \<le> ?x"
    then have "2 powi (?x + 1) \<le> (2 :: rat) powi (- 1000)" by (intro power_int_increasing) simp_all
    with bounds(2) assms(4) show False by (simp add: tiny_powi)
  qed
  have x': "?x < 1000"
  proof (rule ccontr)
    assume "\<not> ?x < 1000"
    then have "(2 :: rat) powi 1000 \<le> 2 powi ?x" by (intro power_int_increasing) simp_all
    with bounds(1) assms(5) show False by (simp add: huge_powi)
  qed
  define k where "k = ?x - 52"
  have k: "max (?x - 52) (- 1074) = k" using x by (simp add: k_def)
  obtain n d where nd: "scaled a b (k - e) = (n, d)" by fastforce
  have d: "0 < d" and frac: "(of_int n :: rat) / of_int d = q / 2 powi k"
    using scaled_value [OF nd b] by (simp_all add: q power_int_diff)
  define m where "m = round_even n d"
  have near: "\<bar>of_int m - q / 2 powi k\<bar> \<le> (1 / 2 :: rat)"
    using round_even_near [OF d, of n] by (simp add: m_def frac)
  have "(2 :: rat) ^ 52 \<le> q / 2 powi k" "q / 2 powi k < (2 :: rat) ^ 53"
    using bounds by (simp_all add: k_def power_int_diff power_int_add le_divide_eq divide_less_eq mult.commute mult.left_commute)
  moreover have "of_int m - q / 2 powi k \<le> 1 / 2" "q / 2 powi k - of_int m \<le> 1 / 2"
    using near unfolding abs_le_iff by linarith+
  ultimately have "(2 :: rat) ^ 52 - 1 < of_int m" "of_int m < (2 :: rat) ^ 53 + 1" by linarith+
  then have "of_int (2 ^ 52 - 1) < (of_int m :: rat)" "of_int m < (of_int (2 ^ 53 + 1) :: rat)" by simp_all
  then have m: "2 ^ 52 \<le> m" "m \<le> 2 ^ 53" unfolding of_int_less_iff by simp_all
  have unit: "(2 :: rat) powi k \<le> q / 2 ^ 52" using bounds(1) by (simp add: k_def power_int_diff)
  have "of_int m * 2 powi k - q = (of_int m - q / 2 powi k) * 2 powi k" by (simp add: left_diff_distrib)
  then have "\<bar>of_int m * 2 powi k - q\<bar> = \<bar>of_int m - q / 2 powi k\<bar> * 2 powi k" by (simp add: abs_mult)
  also have "\<dots> \<le> 1 / 2 * 2 powi k" using near by (intro mult_right_mono) simp_all
  finally have err: "\<bar>of_int m * 2 powi k - q\<bar> \<le> q / 2 ^ 53" using unit by simp
  have kb: "\<not> 971 < k" "\<not> 971 < k + 1" using x' by (simp_all add: k_def)
  show thesis
  proof (cases "m = 2 ^ 53")
    case True
    have "round64 s a b e = Number s (2 ^ 52) (k + 1)"
      using a kb True by (simp add: round64_def k nd Let_def m_def [symmetric])
    moreover have "of_int (2 ^ 52) * (2 :: rat) powi (k + 1) = of_int m * 2 powi k" by (simp add: True power_int_add)
    ultimately show thesis using err by (intro that [of "2 ^ 52" "k + 1"]) simp_all
  next
    case False
    have "round64 s a b e = Number s m k"
      using a kb m(1) False by (simp add: round64_def k nd Let_def m_def [symmetric])
    with m(1) err show thesis by (intro that [of m k]) simp_all
  qed
qed

section \<open>Intervals\<close>

text \<open>A positive number inside an interval; the operations widen it by one part in \<open>2 ^ 53\<close>.\<close>

definition inside :: "rat \<Rightarrow> rat \<Rightarrow> f64 \<Rightarrow> bool" where
  "inside lo hi v \<longleftrightarrow> (\<exists>m k. v = Number False m k \<and> 0 < m \<and> lo \<le> of_int m * 2 powi k \<and> of_int m * 2 powi k \<le> hi)"

definition down :: rat where "down = 1 - 1 / 2 ^ 53"
definition up :: rat where "up = 1 + 1 / 2 ^ 53"

lemma inside_mono: "inside lo hi v \<Longrightarrow> lo' \<le> lo \<Longrightarrow> hi \<le> hi' \<Longrightarrow> inside lo' hi' v"
  by (force simp: inside_def)

lemma inside_round:
  assumes "0 < a" and "0 < b" and "lo \<le> of_int a / of_int b * 2 powi e" and "of_int a / of_int b * 2 powi e \<le> hi"
    and "tiny \<le> lo" and "hi < huge"
  shows "inside (lo * down) (hi * up) (round64 False a b e)"
proof -
  define q where "q = of_int a / of_int b * (2 :: rat) powi e"
  then have q: "lo \<le> q" "q \<le> hi" using assms(3,4) by simp_all
  then have "tiny \<le> q" "q < huge" using assms(5,6) by (auto intro: order_trans le_less_trans)
  then obtain m k where m: "round64 False a b e = Number False m k" "0 < m" "\<bar>of_int m * 2 powi k - q\<bar> \<le> q / 2 ^ 53"
    by (rule round64_near [OF assms(1,2) q_def, where s = False])
  have "q * down \<le> of_int m * 2 powi k" "of_int m * 2 powi k \<le> q * up"
    using m(3) unfolding abs_le_iff down_def up_def by (simp_all add: algebra_simps)
  moreover have "lo * down \<le> q * down" "q * up \<le> hi * up"
    using q by (simp_all add: down_def up_def)
  ultimately show ?thesis using m(1,2) unfolding inside_def by fastforce
qed

lemma inside_mul:
  assumes "inside lo hi x" and "inside lo' hi' y" and "0 < lo" and "0 < lo'" and "tiny \<le> lo * lo'" and "hi * hi' < huge"
  shows "inside (lo * lo' * down) (hi * hi' * up) (fmul x y)"
proof -
  obtain m k n l where x: "x = Number False m k" "0 < m" "lo \<le> of_int m * 2 powi k" "of_int m * 2 powi k \<le> hi"
    and y: "y = Number False n l" "0 < n" "lo' \<le> of_int n * 2 powi l" "of_int n * 2 powi l \<le> hi'"
    using assms(1,2) unfolding inside_def by blast
  have q: "of_int (m * n) / of_int 1 * (2 :: rat) powi (k + l) = (of_int m * 2 powi k) * (of_int n * 2 powi l)"
    by (simp add: power_int_add)
  have "inside (lo * lo' * down) (hi * hi' * up) (round64 False (m * n) 1 (k + l))"
  proof (rule inside_round)
    show "lo * lo' \<le> of_int (m * n) / of_int 1 * 2 powi (k + l)"
      unfolding q using x y assms(3,4) by (intro mult_mono) simp_all
    show "of_int (m * n) / of_int 1 * 2 powi (k + l) \<le> hi * hi'"
      unfolding q using x y assms(3,4) by (intro mult_mono) auto
  qed (use x y assms in simp_all)
  then show ?thesis by (simp add: x y)
qed

lemma inside_div:
  assumes "inside lo hi x" and "inside lo' hi' y" and "0 < lo" and "0 < lo'" and "tiny \<le> lo / hi'" and "hi / lo' < huge"
  shows "inside (lo / hi' * down) (hi / lo' * up) (fdiv x y)"
proof -
  obtain m k n l where x: "x = Number False m k" "0 < m" "lo \<le> of_int m * 2 powi k" "of_int m * 2 powi k \<le> hi"
    and y: "y = Number False n l" "0 < n" "lo' \<le> of_int n * 2 powi l" "of_int n * 2 powi l \<le> hi'"
    using assms(1,2) unfolding inside_def by blast
  have q: "of_int m / of_int n * (2 :: rat) powi (k - l) = (of_int m * 2 powi k) / (of_int n * 2 powi l)"
    by (simp add: power_int_diff)
  have "inside (lo / hi' * down) (hi / lo' * up) (round64 False m n (k - l))"
  proof (rule inside_round)
    show "lo / hi' \<le> of_int m / of_int n * 2 powi (k - l)"
      unfolding q using x y assms(3,4) by (intro frac_le) simp_all
    show "of_int m / of_int n * 2 powi (k - l) \<le> hi / lo'"
      unfolding q using x y assms(3,4) by (intro frac_le) simp_all
  qed (use x y assms in simp_all)
  moreover have "n \<noteq> 0" using y(2) by simp
  ultimately show ?thesis by (simp add: x(1) y(1))
qed

text \<open>The value of a machine word.\<close>

definition val :: "'a::len word \<Rightarrow> rat" where
  "val w = of_nat (unat w)"

lemma val_word: "of_int (uint w) = val w"
  unfolding val_def by (metis of_int_of_nat_eq uint_nat)

lemma inside_word:
  assumes "0 < w" and "LENGTH('a) \<le> 256"
  shows "inside (val w * down) (val w * up) (of_word (w :: 'a::len word))" and "1 \<le> val w" and "val w < 2 ^ 256"
proof -
  have pos: "0 < uint w" using assms(1) by (simp add: word_gt_0 uint_0_iff order_less_le)
  then have "of_int 1 \<le> (of_int (uint w) :: rat)" by (simp only: of_int_le_iff)
  then show one: "1 \<le> val w" by (simp only: val_word of_int_1)
  have "(2 :: nat) ^ LENGTH('a) \<le> 2 ^ 256" using assms(2) by (intro power_increasing) simp_all
  then have "unat w < 2 ^ 256" by (rule less_le_trans [OF unat_bound])
  then have "(of_nat (unat w) :: rat) < of_nat (2 ^ 256)" by (simp only: of_nat_less_iff)
  then show bound: "val w < 2 ^ 256" by (simp only: val_def of_nat_power of_nat_numeral)
  have "val w < huge" using less_le_trans [OF bound, of "2 ^ 300"] by (intro huge_large) simp
  moreover have "tiny \<le> val w" using order_trans [OF _ one, of "1 / 2 ^ 300"] by (intro tiny_small) simp
  moreover have "of_int (uint w) / of_int 1 * (2 :: rat) powi 0 = val w" by (simp only: val_word) simp
  ultimately show "inside (val w * down) (val w * up) (of_word w)"
    unfolding of_word_def by (intro inside_round [OF pos]) simp_all
qed

lemma truncate_floor: "truncate m k = \<lfloor>of_int m * (2 :: rat) powi k\<rfloor>"
proof (cases "0 \<le> k")
  case True
  then have "of_int m * (2 :: rat) powi k = of_int (m * 2 ^ nat k)" by (simp add: power_int_def)
  then show ?thesis unfolding truncate_def using True by (simp only: floor_of_int if_True)
next
  case False
  then have "(2 :: rat) powi k = inverse 2 ^ nat (- k)" by (simp only: power_int_def if_False)
  then have "of_int m * (2 :: rat) powi k = of_int m / of_int (2 ^ nat (- k))"
    by (simp only: divide_inverse power_inverse of_int_power of_int_numeral)
  then show ?thesis unfolding truncate_def using False by (simp only: floor_divide_of_int_eq if_False)
qed

lemma inside_as_word:
  assumes "inside lo hi v" and "hi < 2 ^ LENGTH('a)"
  shows "lo < val (as_word v :: 'a::len word) + 1" and "val (as_word v :: 'a word) \<le> hi"
proof -
  obtain m k where v: "v = Number False m k" "0 < m" and r: "lo \<le> of_int m * 2 powi k" "of_int m * 2 powi k \<le> hi"
    using assms(1) unfolding inside_def by blast
  have "of_int m * (2 :: rat) powi k < of_int (2 ^ LENGTH('a))" using le_less_trans [OF r(2) assms(2)] by simp
  then have less: "truncate m k < 2 ^ LENGTH('a)" unfolding truncate_floor floor_less_iff .
  have nonneg: "0 \<le> truncate m k" using v(2) by (simp add: truncate_floor)
  have "as_word v = (word_of_int (truncate m k) :: 'a word)" using less by (simp add: v(1) as_word_def)
  moreover have "uint (word_of_int (truncate m k) :: 'a word) = truncate m k"
    using less nonneg by (simp add: uint_word_of_int_eq take_bit_int_eq_self)
  ultimately have w: "val (as_word v :: 'a word) = of_int (truncate m k)" by (simp only: flip: val_word)
  show "lo < val (as_word v :: 'a word) + 1" "val (as_word v :: 'a word) \<le> hi"
    unfolding w truncate_floor using r by linarith+
qed

text \<open>Comparison is comparison of values.\<close>

lemma aligned_value:
  assumes "aligned s m e t n f = (x, y, k)"
  shows "of_int (signed s m) * (2 :: rat) powi e = of_int x * 2 powi k"
    and "of_int (signed t n) * (2 :: rat) powi f = of_int y * 2 powi k"
proof -
  have "(2 :: rat) ^ nat (e - min e f) * 2 powi min e f = 2 powi e"
    "(2 :: rat) ^ nat (f - min e f) * 2 powi min e f = 2 powi f"
    by (simp_all add: power_int_diff flip: power_int_of_nat)
  then show "of_int (signed s m) * (2 :: rat) powi e = of_int x * 2 powi k"
    "of_int (signed t n) * (2 :: rat) powi f = of_int y * 2 powi k"
    using assms by (auto simp: aligned_def Let_def mult.assoc)
qed

lemma fless_value: "fless (Number s m e) (Number t n f) \<longleftrightarrow> rat_of (Number s m e) < rat_of (Number t n f)"
proof -
  obtain x y k where a: "aligned s m e t n f = (x, y, k)" by (cases "aligned s m e t n f") auto
  have "of_int x * (2 :: rat) powi k < of_int y * 2 powi k \<longleftrightarrow> x < y" by simp
  with aligned_value [OF a] show ?thesis by (simp add: a)
qed

end
