(* ===== verification/Float_Engine.thy ===== *)
theory Float_Engine
  imports Detector Flash_Executor Float64
begin

text \<open>
  The floating point of the engine, on the numbers of \<open>Float64\<close>: the first guess of the stable
  curve and the Newton search of \<open>src/math_engine.rs\<close>, the marginal price the detector gives it
  (\<open>src/arbitrage_detector.rs\<close>), the skew test, the heat test of the bidding engine and the gas
  buffer of the executor. \<open>real_pricing\<close> is what the detector's parameters stand for. The looks at
  the mirror only move access times, so the closure is a function of the amount.
\<close>

section \<open>The stable curve\<close>

type_synonym int_power = "f64 \<Rightarrow> int \<Rightarrow> f64"

definition curve_step :: "int_power \<Rightarrow> f64 \<Rightarrow> f64 \<Rightarrow> f64 \<Rightarrow> f64" where
  "curve_step pw x_f k_f y_f =
     (let f_y = fadd (fmul (pw x_f 3) y_f) (fmul (pw y_f 3) x_f);
          f_prime_y = fadd (pw x_f 3) (fmul (fmul (lit 3 1) (pw y_f 2)) x_f)
      in fsub y_f (fdiv (fsub f_y k_f) f_prime_y))"

definition aerodrome_guess :: "int_power \<Rightarrow> float_guess" where
  "aerodrome_guess pw x_new r_in r_out =
     (let x_f = of_word x_new; r_in_f = of_word r_in; r_out_f = of_word r_out;
          k_f = fadd (fmul (pw r_in_f 3) r_out_f) (fmul (pw r_out_f 3) r_in_f)
      in as_word (curve_step pw x_f k_f (curve_step pw x_f k_f r_out_f)))"

section \<open>The Newton search\<close>

text \<open>One round: \<open>None\<close> in the second place ends the search at \<open>x\<close>.\<close>

definition newton_derivative ::
  "(u256 \<Rightarrow> f64 exec) \<Rightarrow> f64 \<Rightarrow> f64 \<Rightarrow> f64 \<Rightarrow> f64 \<Rightarrow> f64 exec" where
  "newton_derivative price_check x_f last_x_f price last_price =
     (if fless (fabs (fsub x_f last_x_f)) (lit 1 1000000)
      then
        let delta = fadd (fmul x_f (lit 1 100)) (lit 1000000 1) in do {
          price_next \<leftarrow> price_check (ucast (as_word (fadd x_f delta) :: u128));
          Some (fdiv (fsub price_next price) delta)
        }
      else Some (fdiv (fsub price last_price) (fsub x_f last_x_f)))"

fun newton_loop :: "nat \<Rightarrow> (u256 \<Rightarrow> f64 exec) \<Rightarrow> u256 \<Rightarrow> u256 \<Rightarrow> f64 \<Rightarrow> u256 exec" where
  "newton_loop 0 price_check x last_x last_price = Some x"
| "newton_loop (Suc n) price_check x last_x last_price = do {
     price \<leftarrow> price_check x;
     let error = fsub price (lit 1 1);
     if fless (fabs error) (lit 1 100000) \<or> x = 0 then Some x
     else do {
       x' \<leftarrow> (narrow x :: u128 exec);
       last_x' \<leftarrow> (narrow last_x :: u128 exec);
       derivative \<leftarrow> newton_derivative price_check (of_word x') (of_word last_x') price last_price;
       if fleq (lit 0 1) derivative \<or> fless (fabs derivative) (lit 1 (10 ^ 28)) then Some x
       else
         let step = fdiv error derivative;
             next_x_f = fmax (fsub (of_word x') step) (lit 0 1);
             next_x = ucast (as_word next_x_f :: u128)
         in if next_x = x \<or> next_x = 0 then Some x
            else newton_loop n price_check next_x x price
     }
   }"

definition find_optimal_input_newton :: "u256 \<Rightarrow> (u256 \<Rightarrow> f64 exec) \<Rightarrow> u256 exec" where
  "find_optimal_input_newton initial_guess price_check = do {
     last_price \<leftarrow> price_check initial_guess;
     newton_loop 12 price_check initial_guess initial_guess last_price
   }"

section \<open>The marginal price of a path\<close>

definition hop_price ::
  "float_guess \<Rightarrow> ((address \<times> address) list \<Rightarrow> u64) \<Rightarrow> u64 \<Rightarrow> mirror \<Rightarrow> hop \<Rightarrow> pool_state \<Rightarrow> u256 \<Rightarrow> u256 exec" where
  "hop_price guess hasher now m h state amt =
     (if hop_dex_name h = NameAerodrome \<and> ps_is_stable state then
        (let (r_in, r_out) = (if hop_zero_for_one h then (ps_reserves0 state, ps_reserves1 state)
                              else (ps_reserves1 state, ps_reserves0 state))
         in Some (get_aerodrome_marginal_price r_in r_out))
      else do {
        let delta = 10 ^ 14;
        (out_start, m') \<leftarrow> get_path_output guess now (path_new hasher [h] 0) amt m;
        (out_end, _) \<leftarrow> get_path_output guess now (path_new hasher [h] 0) (amt + delta) m';
        d \<leftarrow> (narrow (sat_sub out_end out_start) :: u128 exec);
        Some (ucast (as_word (fmul (fdiv (of_word d) (lit (10 ^ 14) 1)) (lit (10 ^ 18) 1)) :: u128))
      })"

text \<open>\<open>fetched_states[i]\<close> panics when there are fewer states than hops.\<close>

fun marginal_product ::
  "float_guess \<Rightarrow> ((address \<times> address) list \<Rightarrow> u64) \<Rightarrow> u64 \<Rightarrow> mirror \<Rightarrow> u256 \<Rightarrow> hop list \<Rightarrow> pool_state list \<Rightarrow> f64 \<Rightarrow> f64 exec" where
  "marginal_product guess hasher now m amt [] states acc = Some acc"
| "marginal_product guess hasher now m amt (h # hs) [] acc = None"
| "marginal_product guess hasher now m amt (h # hs) (st # sts) acc = do {
     price \<leftarrow> hop_price guess hasher now m h st amt;
     p \<leftarrow> (narrow price :: u128 exec);
     marginal_product guess hasher now m amt hs sts (fmul acc (fdiv (of_word p) (lit (10 ^ 18) 1)))
   }"

definition path_marginal_price ::
  "float_guess \<Rightarrow> ((address \<times> address) list \<Rightarrow> u64) \<Rightarrow> u64 \<Rightarrow> mirror \<Rightarrow> hop list \<Rightarrow> pool_state list \<Rightarrow> u256 \<Rightarrow> f64 exec" where
  "path_marginal_price guess hasher now m hops states amt =
     (if amt = 0 then Some (lit 0 1) else marginal_product guess hasher now m amt hops states (lit 1 1))"

definition path_newton ::
  "float_guess \<Rightarrow> ((address \<times> address) list \<Rightarrow> u64) \<Rightarrow> u64 \<Rightarrow> mirror \<Rightarrow> newton_search" where
  "path_newton guess hasher now m hops states =
     find_optimal_input_newton (10 ^ 17) (path_marginal_price guess hasher now m hops states)"

definition real_pricing :: "int_power \<Rightarrow> ((address \<times> address) list \<Rightarrow> u64) \<Rightarrow> u64 \<Rightarrow> mirror \<Rightarrow> pricing_env" where
  "real_pricing pw hasher now m =
     \<lparr>pr_guess = aerodrome_guess pw, pr_newton = path_newton (aerodrome_guess pw) hasher now m, pr_hasher = hasher\<rparr>"

section \<open>Tests and buffers\<close>

definition calculate_liquidity_skew :: "u256 \<Rightarrow> u256 \<Rightarrow> f64 exec" where
  "calculate_liquidity_skew r0 r1 =
     (if r0 = 0 \<or> r1 = 0 then Some (lit 0 1)
      else do {
        a \<leftarrow> (narrow r0 :: u128 exec);
        b \<leftarrow> (narrow r1 :: u128 exec);
        let ratio = fdiv (of_word a) (of_word b);
        Some (if fless ratio (lit 1 1) then fdiv (lit 1 1) ratio else ratio)
      })"

definition real_skewed :: "u256 \<Rightarrow> u256 \<Rightarrow> bool exec" where
  "real_skewed r0 r1 = map_option (\<lambda>skew. fless (lit 102 100) skew) (calculate_liquidity_skew r0 r1)"

definition heat_rises :: "u64 \<Rightarrow> u64 \<Rightarrow> bool" where
  "heat_rises current prev = fless (lit 15 100) (fsub (fdiv (of_word current) (of_word prev)) (lit 1 1))"

definition gas_scale :: "u64 \<Rightarrow> u64" where
  "gas_scale gas_used = as_word (fmul (of_word gas_used) (lit 11 10))"

text \<open>The environment of the executor with its float parameters filled in.\<close>

definition real_floats :: "'e exec_env \<Rightarrow> 'e exec_env" where
  "real_floats env = env\<lparr>xe_rises := heat_rises, xe_scale := gas_scale\<rparr>"

end
