(* ===== verification/Float_Facts.thy ===== *)
theory Float_Facts
  imports Float_Engine Executor_Facts Detector_Facts
begin

text \<open>
  What the floating point of the engine does: how far the gas buffer and the skew and heat tests are
  from the exact ratios, that the Newton search stays inside its range, and where it has no effect
  or panics.
\<close>

section \<open>The Newton search\<close>

lemma narrow_small: "unat x < 2 ^ LENGTH('b) \<Longrightarrow> (narrow (x :: 'a::len word) :: 'b::len word exec) = Some (ucast x)"
  by (simp add: narrow_def)

lemma u128_in_range: "unat (ucast (w :: u128) :: u256) < 2 ^ 128"
proof -
  have "unat w < 2 ^ LENGTH(256)" by (rule less_trans [OF unat_u128]) simp
  then have "unat (ucast w :: u256) = unat w" by (rule unat_ucast_le)
  then show ?thesis using unat_u128 [of w] by simp
qed

lemma newton_loop_range:
  assumes "\<And>y. unat y < 2 ^ 128 \<Longrightarrow> price_check y \<noteq> None" and "unat x < 2 ^ 128" and "unat last_x < 2 ^ 128"
  shows "\<exists>y. newton_loop n price_check x last_x last_price = Some y \<and> unat y < 2 ^ 128 \<and> (y = 0 \<longrightarrow> x = 0)"
  using assms(2,3)
proof (induction n arbitrary: x last_x last_price)
  case (Suc n)
  obtain price where p: "price_check x = Some price" using assms(1) [OF Suc.prems(1)] by blast
  have x: "(narrow x :: u128 exec) = Some (ucast x)" "(narrow last_x :: u128 exec) = Some (ucast last_x)"
    using Suc.prems by (simp_all add: narrow_small)
  have "\<exists>d. newton_derivative price_check a b price last_price = Some d" for a b
  proof -
    obtain q where "price_check (ucast (as_word (fadd a (fadd (fmul a (lit 1 100)) (lit 1000000 1))) :: u128)) = Some q"
      using assms(1) [OF u128_in_range] by blast
    then show ?thesis by (simp add: newton_derivative_def Let_def)
  qed
  then obtain d where d: "newton_derivative price_check (of_word (ucast x :: u128)) (of_word (ucast last_x :: u128)) price last_price = Some d"
    by blast
  define next_x where "next_x = (ucast (as_word (fmax (fsub (of_word (ucast x :: u128)) (fdiv (fsub price (lit 1 1)) d)) (lit 0 1)) :: u128) :: u256)"
  have "unat next_x < 2 ^ 128" unfolding next_x_def by (rule u128_in_range)
  from Suc.IH [OF this Suc.prems(1), of price] Suc.prems(1) show ?case
    by (auto simp: p x d Let_def next_x_def [symmetric])
qed (use assms(2) in simp)

text \<open>A price that is the same at the two first points ends the search where it began.\<close>

lemma newton_start:
  "of_word (100000000000000000 :: u128) = Number False 6250000000000000 4"
  "fadd (fmul (Number False 6250000000000000 4) (lit 1 100)) (lit 1000000 1) = Number False 8000000008000000 (- 3)"
  "as_word (fadd (Number False 6250000000000000 4) (Number False 8000000008000000 (- 3))) = (101000000001000000 :: u128)"
  "fless (fabs (fsub (Number False 6250000000000000 4) (Number False 6250000000000000 4))) (lit 1 1000000)"
  "as_word (lit 0 1) = (0 :: u128)" "lit 0 1 \<noteq> NotANumber" "lit 0 1 = zero_of False"
  by code_simp+

lemma self_difference: "fsub p p = zero_of False \<or> fsub p p = NotANumber"
  by (cases p) (auto simp: fsub_def aligned_def signed_def Let_def)

lemma newton_constant:
  assumes "price_check (100000000000000000) = Some p" and "price_check 101000000001000000 = Some p"
  shows "find_optimal_input_newton (100000000000000000) price_check = Some (100000000000000000)"
proof -
  let ?x = "100000000000000000 :: u256"
  have x: "(narrow ?x :: u128 exec) = Some (100000000000000000)" "?x \<noteq> 0" by (simp_all add: narrow_def)
  let ?delta = "Number False 8000000008000000 (- 3)"
  have d: "newton_derivative price_check (of_word (100000000000000000 :: u128)) (of_word (100000000000000000 :: u128)) p p = Some (fdiv (fsub p p) ?delta)"
    unfolding newton_derivative_def newton_start(1) using newton_start(4)
    by (simp add: newton_start(2,3) assms(2) Let_def del: fadd.simps fdiv.simps)
  have zero: "fleq (zero_of False) (fdiv (zero_of False) ?delta)"
    by (simp add: fleq_def round64_def aligned_def signed_def)
  have nan: "fmax (fsub a NotANumber) (lit 0 1) = lit 0 1" "fdiv a NotANumber = NotANumber" "fdiv NotANumber a = NotANumber"
    "\<not> fleq a NotANumber" "\<not> fless NotANumber a" for a
    by (cases a; simp add: fmax_def fsub_def fleq_def)+
  have "newton_loop (Suc 11) price_check ?x ?x p = Some ?x"
    using self_difference [of p]
  proof (elim disjE conjE)
    assume "fsub p p = zero_of False"
    then show ?thesis unfolding newton_loop.simps using zero by (simp add: assms(1) x d newton_start(7) Let_def del: fdiv.simps)
  next
    assume "fsub p p = NotANumber"
    then show ?thesis unfolding newton_loop.simps
      by (simp add: assms(1) x d nan newton_start(5) Let_def)
  qed
  then show ?thesis by (simp add: find_optimal_input_newton_def assms(1))
qed

section \<open>Stable paths\<close>

definition stable_path :: "hop list \<Rightarrow> pool_state list \<Rightarrow> bool" where
  "stable_path hops states \<longleftrightarrow>
     length states = length hops \<and> (\<forall>(h, st) \<in> set (zip hops states). hop_dex_name h = NameAerodrome \<and> ps_is_stable st)"

text \<open>The marginal price of a stable path is a constant, if it is defined.\<close>

lemma stable_product:
  "stable_path hops states \<Longrightarrow>
    marginal_product guess hasher now m amt hops states acc = marginal_product guess hasher now m amt' hops states acc"
proof (induction hops arbitrary: states acc)
  case (Cons h hops)
  then obtain st sts where st: "states = st # sts" by (cases states) (auto simp: stable_path_def)
  with Cons.prems have "stable_path hops sts" "hop_price guess hasher now m h st amt = hop_price guess hasher now m h st amt'"
    by (auto simp: stable_path_def hop_price_def)
  with Cons.IH show ?case by (simp add: st)
qed simp

lemma stable_newton:
  assumes "stable_path hops states" and "path_newton guess hasher now m hops states = Some x"
  shows "x = 10 ^ 17"
proof -
  let ?f = "path_marginal_price guess hasher now m hops states"
  obtain p where p: "?f (10 ^ 17) = Some p"
    using assms(2) by (auto simp: path_newton_def find_optimal_input_newton_def bind_eq_Some_conv)
  have "?f 101000000001000000 = ?f (10 ^ 17)"
    using stable_product [OF assms(1)] by (simp add: path_marginal_price_def)
  with p newton_constant [of ?f p] assms(2) show ?thesis by (simp add: path_newton_def)
qed

lemma hop_panic:
  "(h, st) \<in> set (zip hops states) \<Longrightarrow> hop_price guess hasher now m h st amt = Some price \<Longrightarrow>
    2 ^ 128 \<le> unat price \<Longrightarrow> marginal_product guess hasher now m amt hops states acc = None"
proof (induction hops arbitrary: states acc)
  case (Cons g hops)
  then obtain t sts where st: "states = t # sts" by (cases states) auto
  show ?case
  proof (cases "(h, st) = (g, t)")
    case True
    then show ?thesis using Cons.prems(2,3) by (simp add: st narrow_def)
  next
    case False
    then have "(h, st) \<in> set (zip hops sts)" using Cons.prems(1) st by auto
    then have "marginal_product guess hasher now m amt hops sts acc' = None" for acc'
      using Cons.IH Cons.prems(2,3) by blast
    then show ?thesis by (simp add: st bind_eq_None_conv)
  qed
qed simp

text \<open>A lopsided stable pool has a marginal price that does not fit 128 bits.\<close>

lemma lopsided_nat:
  fixes x y :: nat
  assumes "2 ^ 71 * x \<le> y"
  shows "(x * x * x + 3 * x * (y * y)) * 2 ^ 128 \<le> (3 * (x * x) * y + y * y * y) * 10 ^ 18"
proof -
  have "x \<le> y" using assms by simp
  then have "x * x * x \<le> x * (y * y)" unfolding mult.assoc by (intro mult_le_mono) simp_all
  then have "x * x * x + 3 * x * (y * y) \<le> 4 * (x * (y * y))" by simp
  then have "(x * x * x + 3 * x * (y * y)) * 2 ^ 128 \<le> 4 * (x * (y * y)) * 2 ^ 128" by (rule mult_le_mono1)
  also have "\<dots> = 2 ^ 71 * x * (y * y) * 2 ^ 59" by simp
  also have "\<dots> \<le> y * (y * y) * 10 ^ 18" using assms by (intro mult_le_mono) simp_all
  also have "\<dots> \<le> (3 * (x * x) * y + y * y * y) * 10 ^ 18" by (simp add: algebra_simps)
  finally show ?thesis .
qed

text \<open>A word of a known width, and what the operations do to it.\<close>

definition sized :: "nat \<Rightarrow> u512 \<Rightarrow> nat \<Rightarrow> bool" where
  "sized k w n \<longleftrightarrow> unat w = n \<and> n < 2 ^ k"

lemma sized_mul: "sized k v m \<Longrightarrow> sized l w n \<Longrightarrow> k + l \<le> 512 \<Longrightarrow> sized (k + l) (v * w) (m * n)"
proof -
  assume v: "sized k v m" and w: "sized l w n" and "k + l \<le> 512"
  then have "m * n < 2 ^ (k + l)" unfolding power_add sized_def by (intro mult_strict_mono) simp_all
  moreover have "(2 :: nat) ^ (k + l) \<le> 2 ^ 512" using \<open>k + l \<le> 512\<close> by (intro power_increasing) simp_all
  ultimately show ?thesis using v w by (simp add: sized_def unat_mult_nowrap)
qed

lemma sized_add: "sized k v m \<Longrightarrow> sized k w n \<Longrightarrow> k + 1 \<le> 512 \<Longrightarrow> sized (k + 1) (v + w) (m + n)"
proof -
  assume v: "sized k v m" and w: "sized k w n" and "k + 1 \<le> 512"
  then have "m + n < 2 ^ (k + 1)" by (simp add: sized_def)
  moreover have "(2 :: nat) ^ (k + 1) \<le> 2 ^ 512" using \<open>k + 1 \<le> 512\<close> by (intro power_increasing) simp_all
  ultimately show ?thesis using v w by (simp add: sized_def unat_add_nowrap)
qed

lemma sized_more: "sized k w n \<Longrightarrow> k \<le> l \<Longrightarrow> sized l w n"
  unfolding sized_def by (meson less_le_trans one_le_numeral power_increasing)

lemma lopsided_price:
  assumes x: "0 < unat r_in" and y: "2 ^ 71 * unat r_in \<le> unat r_out" and bound: "unat r_out < 2 ^ 112"
  shows "2 ^ 128 \<le> unat (get_aerodrome_marginal_price r_in r_out)"
proof -
  define X Y where XY: "X = unat r_in" "Y = unat r_out"
  have X: "sized 112 (wide r_in) X" and Y: "sized 112 (wide r_out) Y" and three: "sized 2 3 3"
    using y bound by (simp_all add: XY sized_def)
  have wad: "sized 60 (10 ^ 18) (10 ^ 18)" by (simp add: sized_def)
  note XX = sized_mul [OF X X, simplified] and YY = sized_mul [OF Y Y, simplified]
  have n1: "sized 338 (3 * (wide r_in * wide r_in) * wide r_out) (3 * (X * X) * Y)"
    using sized_mul [OF sized_mul [OF three XX] Y] by simp
  have n2: "sized 338 (wide r_out * wide r_out * wide r_out) (Y * Y * Y)"
    by (rule sized_more [OF sized_mul [OF YY Y]]) simp_all
  note num = sized_mul [OF sized_add [OF n1 n2] wad, simplified]
  have d1: "sized 338 (wide r_in * wide r_in * wide r_in) (X * X * X)"
    by (rule sized_more [OF sized_mul [OF XX X]]) simp_all
  have d2: "sized 338 (3 * wide r_in * (wide r_out * wide r_out)) (3 * X * (Y * Y))"
    using sized_mul [OF sized_mul [OF three X] YY] by simp
  note den = sized_add [OF d1 d2, simplified]
  have pos: "0 < X * X * X + 3 * X * (Y * Y)" using x by (simp add: XY)
  then have "wide r_in * wide r_in * wide r_in + 3 * wide r_in * (wide r_out * wide r_out) \<noteq> 0"
    using den by (auto simp: sized_def)
  moreover have "2 ^ 128 \<le> (3 * (X * X) * Y + Y * Y * Y) * 10 ^ 18 div (X * X * X + 3 * X * (Y * Y))"
    using lopsided_nat [of X Y] y pos by (simp add: XY less_eq_div_iff_mult_less_eq mult.commute)
  ultimately show ?thesis
    using num den by (simp add: get_aerodrome_marginal_price_def Let_def unat_safe unat_div sized_def)
qed

section \<open>The gas buffer and the skew test\<close>

lemma inside_less:
  assumes "inside lo hi v" and "inside lo' hi' w"
  shows "hi < lo' \<Longrightarrow> fless v w" and "hi' \<le> lo \<Longrightarrow> \<not> fless v w"
proof -
  obtain m k n l where v: "v = Number False m k" "lo \<le> of_int m * 2 powi k" "of_int m * 2 powi k \<le> hi"
    and w: "w = Number False n l" "lo' \<le> of_int n * 2 powi l" "of_int n * 2 powi l \<le> hi'"
    using assms unfolding inside_def by blast
  have less: "fless v w \<longleftrightarrow> of_int m * (2 :: rat) powi k < of_int n * 2 powi l"
    unfolding v(1) w(1) fless_value by (simp add: signed_def)
  show "hi < lo' \<Longrightarrow> fless v w" "hi' \<le> lo \<Longrightarrow> \<not> fless v w" unfolding less using v w by linarith+
qed

lemma inside_lits:
  "inside (11 / 10 * down) (11 / 10 * up) (lit 11 10)" "inside (102 / 100 * down) (102 / 100 * up) (lit 102 100)"
  "inside (1 * down) (1 * up) (lit 1 1)"
  unfolding lit_def by (intro inside_round tiny_small huge_large; simp)+

lemma gas_scale_near:
  assumes "unat g < 2 ^ 40"
  shows "10 * unat (gas_scale g) \<le> 11 * unat g" and "11 * unat g \<le> 10 * unat (gas_scale g) + 10"
proof -
  have "10 * unat (gas_scale g) \<le> 11 * unat g \<and> 11 * unat g \<le> 10 * unat (gas_scale g) + 10"
  proof (cases "g = 0")
    case True
    have "gas_scale 0 = 0" by code_simp
    with True show ?thesis by simp
  next
    case False
    then have pos: "0 < g" by (simp add: word_gt_0)
    note w = inside_word [OF pos, simplified]
    have "(of_nat (unat g) :: rat) < of_nat (2 ^ 40)" using assms by (simp only: of_nat_less_iff)
    then have g: "val g < 2 ^ 40" by (simp add: val_def)
    have "inside (val g * down * (11 / 10 * down) * down) (val g * up * (11 / 10 * up) * up) (fmul (of_word g) (lit 11 10))"
      using w g by (intro inside_mul inside_lits tiny_small huge_large) (simp_all add: down_def up_def)
    note near = inside_as_word [OF this, where 'a = 64]
    have hi: "val g * up * (11 / 10 * up) * up < 2 ^ 64" using g by (simp add: up_def)
    have "val (gas_scale g) \<le> val g * up * (11 / 10 * up) * up"
      unfolding gas_scale_def using near(2) hi by simp
    also have "\<dots> < 11 / 10 * val g + 1 / 10" using g by (simp add: up_def)
    finally have upper: "10 * val (gas_scale g) < 11 * val g + 1" by simp
    have "val g * down * (11 / 10 * down) * down < val (gas_scale g) + 1"
      unfolding gas_scale_def using near(1) hi by simp
    moreover have "11 / 10 * val g - 1 / 10 < val g * down * (11 / 10 * down) * down" using g by (simp add: down_def)
    ultimately have "11 * val g < 10 * val (gas_scale g) + 11" by simp
    with upper have "of_nat (10 * unat (gas_scale g)) < (of_nat (11 * unat g + 1) :: rat)"
      "(of_nat (11 * unat g) :: rat) < of_nat (10 * unat (gas_scale g) + 11)"
      by (simp_all add: val_def)
    then show ?thesis unfolding of_nat_less_iff by simp
  qed
  then show "10 * unat (gas_scale g) \<le> 11 * unat g" "11 * unat g \<le> 10 * unat (gas_scale g) + 10" by simp_all
qed

text \<open>The skew is the quotient of the larger by the smaller reserve, up to rounding.\<close>

lemma ratio_inside:
  assumes "0 < (a :: u128)" and "0 < (b :: u128)"
  shows "inside (val a / val b * (down * down / up)) (val a / val b * (up * up / down)) (fdiv (of_word a) (of_word b))"
    and "1 / 2 ^ 128 \<le> val a / val b" and "val a / val b \<le> 2 ^ 128"
proof -
  have le: "val w \<le> 2 ^ 128" for w :: u128
  proof -
    have "(of_nat (unat w) :: rat) \<le> of_nat (2 ^ 128)" using unat_u128 [of w] by (simp only: of_nat_le_iff less_imp_le)
    then show ?thesis by (simp add: val_def)
  qed
  note A = inside_word [OF assms(1), simplified] and B = inside_word [OF assms(2), simplified]
  have one: "1 \<le> val a" "1 \<le> val b" using A(2) B(2) by simp_all
  have "1 / 2 ^ 128 \<le> 1 / val b" using le [of b] one by (intro divide_left_mono) simp_all
  also have "1 / val b \<le> val a / val b" using one by (intro divide_right_mono) simp_all
  finally show low: "1 / 2 ^ 128 \<le> val a / val b" .
  have "val a / val b \<le> val a" using one by (simp add: divide_le_eq)
  with le [of a] show high: "val a / val b \<le> 2 ^ 128" by simp
  have "1 / 2 ^ 300 \<le> (1 :: rat) / 2 ^ 128 * (down / up)" by (simp add: down_def up_def)
  also have "\<dots> \<le> val a / val b * (down / up)" using low by (intro mult_right_mono) (simp_all add: down_def up_def)
  finally have tiny: "tiny \<le> val a * down / (val b * up)" by (intro tiny_small) simp
  have "val a / val b * (up / down) \<le> 2 ^ 128 * (up / down)" using high by (intro mult_right_mono) (simp_all add: down_def up_def)
  also have "\<dots> < 2 ^ 300" by (simp add: down_def up_def)
  finally have huge: "val a * up / (val b * down) < huge" by (intro huge_large) simp
  have "inside (val a * down / (val b * up) * down) (val a * up / (val b * down) * up) (fdiv (of_word a) (of_word b))"
    using one tiny huge by (intro inside_div A(1) B(1)) (simp_all add: down_def up_def)
  then show "inside (val a / val b * (down * down / up)) (val a / val b * (up * up / down)) (fdiv (of_word a) (of_word b))"
    by (rule inside_mono) (simp_all add: divide_simps)
qed

lemma narrow_word: "unat r < 2 ^ 128 \<Longrightarrow> (narrow (r :: u256) :: u128 exec) = Some (ucast r)" "unat r < 2 ^ 128 \<Longrightarrow> val (ucast r :: u128) = val r"
  by (simp_all add: narrow_def val_def unat_ucast_le)

lemma skew_test:
  assumes r: "0 < r0" "0 < r1" "unat r0 < 2 ^ 128" "unat r1 < 2 ^ 128" and q: "q = val r0 / val r1"
  shows "103 / 100 \<le> q \<or> q \<le> 100 / 103 \<Longrightarrow> real_skewed r0 r1 = Some True"
    and "100 / 101 \<le> q \<and> q \<le> 101 / 100 \<Longrightarrow> real_skewed r0 r1 = Some False"
proof -
  let ?a = "ucast r0 :: u128" and ?b = "ucast r1 :: u128"
  have "0 < unat ?a" "0 < unat ?b" using r by (simp_all add: unat_ucast_le word_less_nat_alt)
  then have "0 < ?a" "0 < ?b" by (simp_all add: word_less_nat_alt)
  note ratio = ratio_inside [OF this, unfolded narrow_word(2) [OF r(3)] narrow_word(2) [OF r(4)], folded q]
  define v where "v = fdiv (of_word ?a) (of_word ?b)"
  note v = ratio(1) [folded v_def]
  have skew: "real_skewed r0 r1 = Some (fless (lit 102 100) (if fless v (lit 1 1) then fdiv (lit 1 1) v else v))"
    using r by (simp add: real_skewed_def calculate_liquidity_skew_def narrow_word v_def word_gt_0 Let_def)
  have pos: "0 < q" using ratio(2) by (rule less_le_trans [rotated]) simp
  have inv: "inside (down * down / (q * (up * up / down))) (up * up / (q * (down * down / up))) (fdiv (lit 1 1) v)"
  proof (rule inside_mono [OF inside_div [OF inside_lits(3) v]])
    have "1 / 2 ^ 300 \<le> (down / (up * up / down)) / 2 ^ 128" by (simp add: down_def up_def)
    also have "\<dots> \<le> (down / (up * up / down)) / q" using ratio(3) pos by (intro divide_left_mono) (simp_all add: down_def up_def)
    finally show "tiny \<le> 1 * down / (q * (up * up / down))" by (intro tiny_small) (simp add: mult.commute)
    have "up / (down * down / up) / q \<le> up / (down * down / up) / (1 / 2 ^ 128)"
      using ratio(2) pos by (intro divide_left_mono) (simp_all add: down_def up_def)
    also have "\<dots> < 2 ^ 300" by (simp add: down_def up_def)
    finally show "1 * up / (q * (down * down / up)) < huge" by (intro huge_large) (simp add: mult.commute)
  qed (use pos in \<open>simp_all add: down_def up_def\<close>)
  show "real_skewed r0 r1 = Some True" if "103 / 100 \<le> q \<or> q \<le> 100 / 103"
    using that
  proof
    assume big: "103 / 100 \<le> q"
    then have "\<not> fless v (lit 1 1)" by (intro inside_less(2) [OF v inside_lits(3)]) (simp add: down_def up_def)
    moreover have "fless (lit 102 100) v" using big by (intro inside_less(1) [OF inside_lits(2) v]) (simp add: down_def up_def)
    ultimately show ?thesis by (simp add: skew)
  next
    assume small: "q \<le> 100 / 103"
    then have "fless v (lit 1 1)" by (intro inside_less(1) [OF v inside_lits(3)]) (simp add: down_def up_def)
    moreover have "fless (lit 102 100) (fdiv (lit 1 1) v)"
      using small pos by (intro inside_less(1) [OF inside_lits(2) inv]) (simp add: down_def up_def less_divide_eq)
    ultimately show ?thesis by (simp add: skew)
  qed
  show "real_skewed r0 r1 = Some False" if "100 / 101 \<le> q \<and> q \<le> 101 / 100"
  proof -
    have "\<not> fless (lit 102 100) v" using that by (intro inside_less(2) [OF inside_lits(2) v]) (simp add: down_def up_def)
    moreover have "\<not> fless (lit 102 100) (fdiv (lit 1 1) v)"
      using that pos by (intro inside_less(2) [OF inside_lits(2) inv]) (simp add: down_def up_def divide_le_eq)
    ultimately show ?thesis by (simp add: skew)
  qed
qed

section \<open>Properties\<close>

text \<open>C17 The Newton search ends within its twelve rounds and stays in range: from a guess below
  \<open>2 ^ 128\<close>, and with a price that does not panic there, it returns an input below \<open>2 ^ 128\<close>, which is
  zero only if the guess was, whatever the prices are, infinite and undefined ones included.\<close>

theorem newton_ends_in_range:
  assumes "\<And>y. unat y < 2 ^ 128 \<Longrightarrow> price_check y \<noteq> None" and "unat guess < 2 ^ 128"
  shows "\<exists>x. find_optimal_input_newton guess price_check = Some x \<and> unat x < 2 ^ 128 \<and> (x = 0 \<longrightarrow> guess = 0)"
proof -
  obtain p where "price_check guess = Some p" using assms by blast
  with newton_loop_range [OF assms(1) assms(2) assms(2), where n = 12 and last_price = p] show ?thesis
    by (simp add: find_optimal_input_newton_def)
qed

theorem newton_ends_in_range_witness:
  "\<exists>x. find_optimal_input_newton 5 (\<lambda>x. Some (fdiv (lit 7 1) (of_word x))) = Some x \<and> unat x < 2 ^ 128 \<and> x \<noteq> 0"
  using newton_ends_in_range [of "\<lambda>x. Some (fdiv (lit 7 1) (of_word x))" 5] by auto

text \<open>C11 The input of a stable path is never optimised: the marginal price the detector gives the
  Newton search depends on the reserves alone, so a path of stable Aerodrome pools is always traded
  with the initial guess of 0.1 ETH, whatever the reserves are.\<close>

theorem stable_input_not_optimised:
  assumes "stable_path hops states" and "hops \<noteq> []"
    and "price_path (pr_guess env) (pr_newton env) hops states = Some (inp, profit)"
    and "env = real_pricing pw hasher now m"
  shows "inp = 10 ^ 17"
proof -
  obtain h hs where hops: "hops = h # hs" using assms(2) by (cases hops) auto
  with assms(1) have "hop_dex_name h = NameAerodrome" by (cases states) (auto simp: stable_path_def)
  then have "pr_newton env hops states = Some inp" using assms(3) hops by (auto simp: price_path_def bind_eq_Some_conv)
  then show ?thesis using stable_newton [OF assms(1)] assms(4) by (simp add: real_pricing_def)
qed

text \<open>A stable pool with given reserves.\<close>

definition stable_pool :: "u256 \<Rightarrow> u256 \<Rightarrow> pool_state" where
  "stable_pool r0 r1 = (default_pool_state 0)\<lparr>ps_reserves0 := r0, ps_reserves1 := r1, ps_is_stable := True\<rparr>"

theorem stable_input_not_optimised_witness:
  "\<exists>profit. price_path (pr_guess (real_pricing (\<lambda>x n. x) (\<lambda>_. 0) 0 fresh_mirror)) (pr_newton (real_pricing (\<lambda>x n. x) (\<lambda>_. 0) 0 fresh_mirror))
     [small_hop True] [stable_pool (10 ^ 20) (10 ^ 20)] = Some (10 ^ 17, profit)"
proof -
  let ?env = "real_pricing (\<lambda>x n. x) (\<lambda>_. 0) 0 fresh_mirror" and ?st = "stable_pool (10 ^ 20) (10 ^ 20)"
  let ?f = "path_marginal_price (aerodrome_guess (\<lambda>x n. x)) (\<lambda>_. 0) 0 fresh_mirror [small_hop True] [?st]"
  have price: "get_aerodrome_marginal_price (10 ^ 20) (10 ^ 20) = 10 ^ 18"
    by (simp add: get_aerodrome_marginal_price_def u512_to_u256_safe_def)
  have "\<exists>p. ?f (10 ^ 17) = Some p \<and> ?f 101000000001000000 = Some p"
    using price by (simp add: path_marginal_price_def hop_price_def small_hop_def stable_pool_def narrow_def)
  then obtain p where "?f 100000000000000000 = Some p" "?f 101000000001000000 = Some p" by auto
  then have newton: "pr_newton ?env [small_hop True] [?st] = Some 100000000000000000"
    using newton_constant [of ?f p] by (simp add: real_pricing_def path_newton_def)
  have "\<exists>out. hop_output (pr_guess ?env) (small_hop True) 100000000000000000 ?st = Some out"
    by (simp add: hop_output_def small_hop_def get_aerodrome_output_def stable_pool_def narrow_def Let_def)
  then obtain profit inp where run: "price_path (pr_guess ?env) (pr_newton ?env) [small_hop True] [?st] = Some (inp, profit)"
    using newton by (auto simp: price_path_def small_hop_def)
  have "stable_path [small_hop True] [?st]" by (simp add: stable_path_def small_hop_def stable_pool_def)
  from stable_input_not_optimised [OF this _ run HOL.refl] run show ?thesis by auto
qed

text \<open>C18 A lopsided stable pool stops the engine: if one pool of a path is a stable Aerodrome pool
  whose outgoing reserve is at least \<open>2 ^ 71\<close> times its incoming one, its marginal price does not fit
  the 128 bits it is converted to, and pricing the path panics.\<close>

theorem lopsided_pool_panics:
  assumes "(h, st) \<in> set (zip hops states)" and "hop_dex_name h = NameAerodrome" and "ps_is_stable st"
    and "(r_in, r_out) = (if hop_zero_for_one h then (ps_reserves0 st, ps_reserves1 st) else (ps_reserves1 st, ps_reserves0 st))"
    and "0 < unat r_in" and "2 ^ 71 * unat r_in \<le> unat r_out" and "unat r_out < 2 ^ 112"
  shows "price_path (aerodrome_guess pw) (path_newton (aerodrome_guess pw) hasher now m) hops states = None"
proof -
  have "hop_price (aerodrome_guess pw) hasher now m h st (10 ^ 17) = Some (get_aerodrome_marginal_price r_in r_out)"
    using assms(2-4) by (auto simp: hop_price_def split: if_splits)
  from hop_panic [OF assms(1) this lopsided_price [OF assms(5-7)]]
  have "path_newton (aerodrome_guess pw) hasher now m hops states = None"
    by (simp add: path_newton_def find_optimal_input_newton_def path_marginal_price_def)
  moreover have "\<exists>h \<in> set hops. hop_dex_name h = NameAerodrome" using assms(1,2) set_zip_leftD by fastforce
  ultimately show ?thesis by (simp add: price_path_def)
qed

theorem lopsided_pool_panics_witness:
  "price_path (aerodrome_guess (\<lambda>x n. x)) (path_newton (aerodrome_guess (\<lambda>x n. x)) (\<lambda>_. 0) 0 fresh_mirror)
     [small_hop True] [stable_pool 1 (2 ^ 71)] = None"
  using lopsided_pool_panics [of "small_hop True" "stable_pool 1 (2 ^ 71)" "[small_hop True]" "[stable_pool 1 (2 ^ 71)]" 1 "2 ^ 71"
      "\<lambda>x n. x" "\<lambda>_. 0" 0 fresh_mirror]
  by (simp add: small_hop_def stable_pool_def)

text \<open>The gas limit of every prepared transaction is the simulated gas plus ten per cent plus
  10000, exact up to one unit of gas, as long as the simulated gas is below \<open>2 ^ 40\<close>.\<close>

theorem gas_limit_buffered:
  assumes "prepare_tx (real_floats env) opp c w = Some (tx, pct, w')" and "unat (sr_gas_used (cd_sim c)) < 2 ^ 40"
  shows "10 * unat (tq_gas_limit tx) \<le> 11 * unat (sr_gas_used (cd_sim c)) + 100000 \<and>
    11 * unat (sr_gas_used (cd_sim c)) + 99990 \<le> 10 * unat (tq_gas_limit tx)"
proof -
  let ?g = "sr_gas_used (cd_sim c)"
  have limit: "tq_gas_limit tx = ucast (gas_scale ?g + 10000)"
    using assms(1) by (auto simp: prepare_tx_def real_floats_def nonce_next_def Let_def bind_eq_Some_conv split: prod.splits)
  note near = gas_scale_near [OF assms(2)]
  have "unat (gas_scale ?g + 10000) = unat (gas_scale ?g) + 10000"
    using near(1) assms(2) by (subst unat_add_nowrap) simp_all
  moreover have "unat (ucast (gas_scale ?g + 10000) :: u128) = unat (gas_scale ?g + 10000)"
    by (rule unat_ucast_le) (rule less_trans [OF unat_bound], simp)
  ultimately show ?thesis using near by (simp add: limit)
qed

theorem gas_limit_buffered_witness:
  "\<exists>tx pct w'. prepare_tx (real_floats (sample_env earning_env)) sample_opp
      \<lparr>cd_lender = LBalancer, cd_sim = \<lparr>sr_profit = 10 ^ 15, sr_gas_used = 100000, sr_branch = Top, sr_success = True,
         sr_access_list = []\<rparr>, cd_calldata = [], cd_net_profit = 10 ^ 15, cd_l1_fee = 0, cd_l2_fee = 0, cd_adjusted = 0\<rparr> sample_world =
      Some (tx, pct, w') \<and> unat (tq_gas_limit tx) \<le> 120000 \<and> 119999 \<le> unat (tq_gas_limit tx)"
proof -
  let ?c = "\<lparr>cd_lender = LBalancer, cd_sim = \<lparr>sr_profit = 10 ^ 15, sr_gas_used = 100000, sr_branch = Top, sr_success = True,
         sr_access_list = []\<rparr>, cd_calldata = [], cd_net_profit = 10 ^ 15, cd_l1_fee = 0, cd_l2_fee = 0, cd_adjusted = 0\<rparr>"
  let ?env = "real_floats (sample_env earning_env)"
  have env: "xe_rises ?env = heat_rises" "xe_instant ?env k = 0" for k by (simp_all add: sample_env_def real_floats_def)
  obtain tx pct v where prep: "prepare_tx ?env sample_opp ?c sample_world = Some (tx, pct, v)"
    by (simp add: prepare_tx_def env sample_bribe current_fees_def default_gas_state_def suggest_priority_fee_def sample_world_def
        overshoot_fee_def narrow_def nonce_next_def MIN_BUILDER_TIP_WEI_def Let_def)
  from gas_limit_buffered [OF this] prep show ?thesis by auto
qed

text \<open>The skew test fires on every pool whose reserves differ by three per cent or more, in either
  direction, and on none whose reserves differ by at most one per cent; below \<open>2 ^ 128\<close> it never panics.\<close>

theorem skew_test_exact:
  assumes "0 < r0" and "0 < r1" and "unat r0 < 2 ^ 128" and "unat r1 < 2 ^ 128"
  shows "(103 * unat r1 \<le> 100 * unat r0 \<or> 103 * unat r0 \<le> 100 * unat r1 \<longrightarrow> real_skewed r0 r1 = Some True) \<and>
    (100 * unat r0 \<le> 101 * unat r1 \<and> 100 * unat r1 \<le> 101 * unat r0 \<longrightarrow> real_skewed r0 r1 = Some False)"
proof -
  have pos: "0 < val r0" "0 < val r1" using inside_word(2) [OF assms(1)] inside_word(2) [OF assms(2)] by simp_all
  have le: "j * unat a \<le> k * unat b \<longleftrightarrow> of_nat j * val a \<le> of_nat k * val b" for j k and a b :: u256
    unfolding val_def by (metis of_nat_le_iff of_nat_mult)
  show ?thesis
    unfolding le using skew_test [OF assms HOL.refl] pos by (simp add: divide_le_eq le_divide_eq mult.commute)
qed

theorem skew_test_exact_witness: "real_skewed 1030 1000 = Some True \<and> real_skewed 1000 1001 = Some False"
  using skew_test_exact [of 1030 1000] skew_test_exact [of 1000 1001] by simp

end
