(* ===== verification/Feeds.thy ===== *)
theory Feeds
  imports Rpc_Services Log_Pipeline
begin

text \<open>
  The subscriptions around the log handlers of \<open>Log_Pipeline\<close>: the filters, the reconnecting loops
  of the mempool listener and of the factory scanner, and the addresses the warm start asks for. The
  answers of the nodes are lists, one entry per connection; a filter means what the node documents.
\<close>

section \<open>Filters\<close>

text \<open>No address means any address.\<close>

record log_filter =
  lf_addresses :: "address set"
  lf_topics :: "b256 list"

definition admits :: "log_filter \<Rightarrow> rpc_log \<Rightarrow> bool" where
  "admits f log \<longleftrightarrow> (lf_addresses f = {} \<or> lg_address log \<in> lf_addresses f) \<and>
     (case lg_topics log of [] \<Rightarrow> False | t # _ \<Rightarrow> t \<in> set (lf_topics f))"

section \<open>The mempool listener\<close>

datatype listener_error = NoEndpoints | ListenerFailure string

record mempool_listener =
  ml_config :: listener_config
  ml_seen_hashes :: "b256 set"

definition listener_new :: "listener_config \<Rightarrow> listener_error + mempool_listener" where
  "listener_new config = Inr \<lparr>ml_config = config, ml_seen_hashes = {}\<rparr>"

definition listener_filter :: log_filter where
  "listener_filter = \<lparr>lf_addresses = {}, lf_topics = [V2_SYNC_TOPIC, V3_SWAP_TOPIC]\<rparr>"

datatype connection = Unreachable string | Unsubscribed string | Streamed "rpc_log list"

fun listener_sessions ::
  "u64 \<Rightarrow> connection list \<Rightarrow> mirror \<Rightarrow> b256 set \<Rightarrow> swap_event list \<times> mirror \<times> b256 set" where
  "listener_sessions now [] m seen = ([], m, seen)"
| "listener_sessions now (Streamed logs # cs) m seen =
     (let (evs, m', seen') = listen now logs m seen; (evs', m'', seen'') = listener_sessions now cs m' seen'
      in (evs @ evs', m'', seen''))"
| "listener_sessions now (_ # cs) m seen = listener_sessions now cs m seen"

text \<open>Only the first endpoint is ever used.\<close>

definition listener_run ::
  "u64 \<Rightarrow> (string \<Rightarrow> connection list) \<Rightarrow> mempool_listener \<Rightarrow> mirror \<Rightarrow> listener_error + (swap_event list \<times> mirror \<times> b256 set)" where
  "listener_run now connect l m =
     (case lc_endpoints (ml_config l) of
        [] \<Rightarrow> Inl NoEndpoints
      | endpoint # _ \<Rightarrow> Inr (listener_sessions now (connect endpoint) m (ml_seen_hashes l)))"

section \<open>The factory scanner\<close>

record 'p factory_scanner =
  fs_ws_provider_pool :: "'p provider_pool"
  fs_chain :: chain

definition scanner_new :: "'p provider_pool \<Rightarrow> chain \<Rightarrow> 'p factory_scanner" where
  "scanner_new pool c = \<lparr>fs_ws_provider_pool = pool, fs_chain = c\<rparr>"

definition scanner_filter :: "chain \<Rightarrow> log_filter" where
  "scanner_filter c = \<lparr>lf_addresses = dom (setup_factories c),
     lf_topics = [EVENT_V2_PAIR_CREATED, EVENT_V3_POOL_CREATED, EVENT_AERO_POOL_CREATED]\<rparr>"

text \<open>One round: head 2 subscribes and streams until the stream ends, or is put on cooldown.\<close>

definition scanner_round ::
  "u64 \<Rightarrow> string + rpc_log list \<Rightarrow> 'p factory_scanner \<Rightarrow> (new_pool_event list \<times> 'p factory_scanner) exec" where
  "scanner_round now reply sc = do {
     (idx, _) \<leftarrow> get_head (fs_ws_provider_pool sc) 2;
     case reply of
       Inr logs \<Rightarrow> Some (List.map_filter (parse_factory_log (setup_factories (fs_chain sc))) logs, sc)
     | Inl _ \<Rightarrow> do {
         pool \<leftarrow> mark_unhealthy now idx 60 (fs_ws_provider_pool sc);
         Some ([], sc\<lparr>fs_ws_provider_pool := pool\<rparr>)
       }
   }"

fun scanner_rounds ::
  "(u64 \<times> (string + rpc_log list)) list \<Rightarrow> 'p factory_scanner \<Rightarrow> (new_pool_event list \<times> 'p factory_scanner) exec" where
  "scanner_rounds [] sc = Some ([], sc)"
| "scanner_rounds ((now, reply) # rs) sc = do {
     (evs, sc') \<leftarrow> scanner_round now reply sc;
     (evs', sc'') \<leftarrow> scanner_rounds rs sc';
     Some (evs @ evs', sc'')
   }"

text \<open>Without factories the scanner stops at once.\<close>

definition scanner_run ::
  "(u64 \<times> (string + rpc_log list)) list \<Rightarrow> 'p factory_scanner \<Rightarrow> (new_pool_event list \<times> 'p factory_scanner) exec" where
  "scanner_run rounds sc =
     (if lf_addresses (scanner_filter (fs_chain sc)) = {} then Some ([], sc) else scanner_rounds rounds sc)"

section \<open>The warm start\<close>

definition warm_start_factories :: "address list" where
  "warm_start_factories = [BASE_AERODROME_FACTORY, BASE_BASESWAP_FACTORY, BASE_PANCAKESWAP_FACTORY, BASE_SUSHISWAP_FACTORY,
     BASE_MAVERICK_FACTORY, 0x33128a8fc170d56ed8068699e168a9a301c035de, 0x04c9f118a4864700721a163744021d21db27c11f,
     0x3d2d7681335a74be482d207137f814ba688849e8]"

definition warm_start_filter :: log_filter where
  "warm_start_filter = \<lparr>lf_addresses = set warm_start_factories,
     lf_topics = [EVENT_V2_PAIR_CREATED, EVENT_V3_POOL_CREATED, EVENT_AERO_POOL_CREATED]\<rparr>"

section \<open>Facts\<close>

definition streamed :: "connection list \<Rightarrow> rpc_log list" where
  "streamed cs = concat (map (\<lambda>c. case c of Streamed logs \<Rightarrow> logs | _ \<Rightarrow> []) cs)"

lemma listen_append:
  "listen now (xs @ ys) m seen =
     (let (evs, m', seen') = listen now xs m seen; (evs', m'', seen'') = listen now ys m' seen' in (evs @ evs', m'', seen''))"
  by (induction xs arbitrary: m seen) (auto split: prod.split option.split)

lemma sessions_one_stream: "listener_sessions now cs m seen = listen now (streamed cs) m seen"
proof (induction cs arbitrary: m seen)
  case (Cons c cs)
  then show ?case by (cases c) (simp_all add: streamed_def listen_append)
qed (simp add: streamed_def)

lemma round_pool:
  assumes "scanner_round now reply sc = Some (evs, sc')" and "pool_ok (fs_ws_provider_pool sc)"
  shows "pool_ok (fs_ws_provider_pool sc') \<and> fs_chain sc' = fs_chain sc \<and>
    pp_providers (fs_ws_provider_pool sc') = pp_providers (fs_ws_provider_pool sc)"
proof (cases reply)
  case (Inl e)
  with assms show ?thesis by (auto simp: scanner_round_def mark_unhealthy_def pool_ok_def Let_def bind_eq_Some_conv split: if_splits)
next
  case (Inr logs)
  with assms show ?thesis by (auto simp: scanner_round_def bind_eq_Some_conv)
qed

lemma round_emits:
  assumes "scanner_round now reply sc = Some (evs, sc')"
  shows "evs = List.map_filter (parse_factory_log (setup_factories (fs_chain sc))) (case_sum (\<lambda>_. []) id reply)"
proof (cases reply)
  case (Inl e)
  with assms show ?thesis by (auto simp: scanner_round_def bind_eq_Some_conv List.map_filter_def)
next
  case (Inr logs)
  with assms show ?thesis by (auto simp: scanner_round_def bind_eq_Some_conv)
qed

lemma round_defined:
  assumes "pool_ok (fs_ws_provider_pool sc)"
  shows "\<exists>evs sc'. scanner_round now reply sc = Some (evs, sc')"
proof -
  let ?p = "fs_ws_provider_pool sc"
  have "2 mod length (pp_providers ?p) < length (pp_providers ?p)" using assms by (simp add: pool_ok_def)
  then show ?thesis
    using assms by (cases reply) (simp_all add: scanner_round_def get_head_def mark_unhealthy_def pool_ok_def index_def Let_def)
qed

lemma rounds_events:
  assumes "pool_ok (fs_ws_provider_pool sc)"
  shows "\<exists>sc'. scanner_rounds rs sc =
    Some (List.map_filter (parse_factory_log (setup_factories (fs_chain sc))) (concat (map (case_sum (\<lambda>_. []) id \<circ> snd) rs)), sc')"
  using assms
proof (induction rs arbitrary: sc)
  case (Cons r rs)
  obtain now reply where r: "r = (now, reply)" by (cases r)
  obtain evs sc1 where round: "scanner_round now reply sc = Some (evs, sc1)" using round_defined [OF Cons.prems] by blast
  note keep = round_pool [OF round Cons.prems]
  with Cons.IH [of sc1] keep round_emits [OF round] show ?case by (auto simp: r round List.map_filter_def)
qed (simp add: List.map_filter_def)


section \<open>Properties\<close>

text \<open>Reconnects lose nothing and repeat nothing: however the streams of the first endpoint are cut
  and the connections between them fail, the listener leaves the mirror as one stream would and
  raises one event for every transaction. The other endpoints are never asked.\<close>

theorem listener_survives_reconnects:
  assumes "lc_endpoints config = endpoint # others" and "listener_new config = Inr l"
    and "length (streamed (connect endpoint)) \<le> 100000"
  shows "\<exists>evs m' seen'. listener_run now connect l m = Inr (evs, m', seen') \<and>
    listen now (streamed (connect endpoint)) m {} = (evs, m', seen') \<and>
    distinct (map ev_tx_hash evs) \<and> ev_tx_hash ` set evs = log_hashes (streamed (connect endpoint))"
proof -
  obtain evs m' seen' where run: "listen now (streamed (connect endpoint)) m {} = (evs, m', seen')"
    by (metis prod_cases3)
  have "listener_run now connect l m = Inr (evs, m', seen')"
    using assms(1,2) by (auto simp: listener_new_def listener_run_def sessions_one_stream run)
  with run listen_events [of "{}" "streamed (connect endpoint)" now m] assms(3) show ?thesis by auto
qed

theorem listener_survives_reconnects_witness:
  "\<exists>evs m' seen'. listener_run 0
      (\<lambda>_. [Unreachable ''refused'', Streamed [\<lparr>lg_address = 1, lg_topics = [], lg_data = [], lg_transaction_hash = Some 5\<rparr>],
            Streamed [\<lparr>lg_address = 1, lg_topics = [], lg_data = [], lg_transaction_hash = Some 5\<rparr>]])
      \<lparr>ml_config = default_listener_config\<lparr>lc_endpoints := [''a'']\<rparr>, ml_seen_hashes = {}\<rparr> (mirror_new None None) = Inr (evs, m', seen') \<and>
    ev_tx_hash ` set evs = {5}"
  using listener_survives_reconnects [where connect = "\<lambda>_. [Unreachable ''refused'',
            Streamed [\<lparr>lg_address = 1, lg_topics = [], lg_data = [], lg_transaction_hash = Some 5\<rparr>],
            Streamed [\<lparr>lg_address = 1, lg_topics = [], lg_data = [], lg_transaction_hash = Some 5\<rparr>]]"
      and config = "default_listener_config\<lparr>lc_endpoints := [''a'']\<rparr>" and endpoint = "''a''" and others = "[]" and now = 0 and m = "mirror_new None None",
      OF _ listener_new_def]
  by (auto simp: streamed_def log_hashes_def)

text \<open>The factory scanner reports every pool its factories announce, and nothing else: whatever
  subscriptions fail between the streams, its events are the parsed logs of all streams in order,
  and it never panics.\<close>

theorem scanner_reports_every_pool:
  assumes "pool_ok pool"
  shows "\<exists>sc'. scanner_run rounds (scanner_new pool c) =
    Some (List.map_filter (parse_factory_log (setup_factories c)) (concat (map (case_sum (\<lambda>_. []) id \<circ> snd) rounds)), sc')"
proof -
  have some: "lf_addresses (scanner_filter c) \<noteq> {}" by (cases c) (simp add: scanner_filter_def setup_factories_def)
  have "pool_ok (fs_ws_provider_pool (scanner_new pool c))" using assms by (simp add: scanner_new_def)
  from rounds_events [OF this, of rounds] some show ?thesis by (simp add: scanner_run_def scanner_new_def)
qed

theorem scanner_reports_every_pool_witness:
  "\<exists>sc'. scanner_run [(0, Inl ''refused'')] (scanner_new \<lparr>pp_providers = [''ws''], pp_next = 0, pp_health = [0], pp_usage_stats = [0]\<rparr> Base) = Some ([], sc')"
  using scanner_reports_every_pool [of "\<lparr>pp_providers = [''ws''], pp_next = 0, pp_health = [0], pp_usage_stats = [0]\<rparr>"
      "[(0, Inl ''refused'')]" Base]
  by (simp add: pool_ok_def List.map_filter_def)

text \<open>Two of the core pools are the addresses of tokens and two those of factories: none of them
  can answer a query for reserves.\<close>

theorem core_pools_without_reserves:
  "{core_event TOKEN_WETH TOKEN_CBETH TOKEN_CBETH BaseSwap, core_event TOKEN_WETH TOKEN_VIRTUAL TOKEN_VIRTUAL NameAerodrome,
    core_event TOKEN_WETH TOKEN_DAI 0x04c9f118a4864700721a163744021d21db27c11f NameUniswapV2,
    core_event TOKEN_WETH TOKEN_USDT 0x3d2d7681335a74be482d207137f814ba688849e8 NameUniswapV2} \<subseteq> set (bootstrap_core_pools Base) \<and>
   {0x04c9f118a4864700721a163744021d21db27c11f, 0x3d2d7681335a74be482d207137f814ba688849e8} \<subseteq> set warm_start_factories"
  unfolding bootstrap_core_pools_def warm_start_factories_def TOKEN_CBETH_def TOKEN_VIRTUAL_def
  by (simp only: list.set if_True HOL.simp_thms insert_subset insert_iff empty_subsetI)

text \<open>The topic of the Aerodrome events the scanner and the warm start wait for ends in the last
  sixteen bytes of the Uniswap V3 swap topic.\<close>

theorem aero_topic_ends_in_swap_topic:
  "EVENT_AERO_POOL_CREATED AND 0xffffffffffffffffffffffffffffffff = V3_SWAP_TOPIC AND 0xffffffffffffffffffffffffffffffff"
  by (simp add: EVENT_AERO_POOL_CREATED_def V3_SWAP_TOPIC_def)

end
