(* ===== verification/Telemetry.thy ===== *)
theory Telemetry
  imports Bundle_Relay Float64 Engine
begin

text \<open>
  \<open>src/telemetry.rs\<close>, the events, their texts and the posts to the chat, and the events the main
  loop sends around a dispatch (\<open>main.rs\<close>). Strings are bytes. The text of an error, of a hash and
  the debug format of a path are arguments.
\<close>

section \<open>Numbers as text\<close>

text \<open>\<open>{:.k}\<close> of a number: its exact value rounded to \<open>k\<close> digits after the point, ties to even.\<close>

definition fixed_units :: "nat \<Rightarrow> int \<Rightarrow> int \<Rightarrow> nat" where
  "fixed_units k m e = (let (n, d) = scaled (m * 10 ^ k) 1 (- e) in nat (round_even n d))"

definition padded :: "nat \<Rightarrow> nat \<Rightarrow> string" where
  "padded k n = replicate (k - length (decimal n)) (CHR ''0'') @ decimal n"

definition show_units :: "nat \<Rightarrow> nat \<Rightarrow> string" where
  "show_units k u = decimal (u div 10 ^ k) @ ''.'' @ padded k (u mod 10 ^ k)"

fun show_fixed :: "nat \<Rightarrow> f64 \<Rightarrow> string" where
  "show_fixed k NotANumber = ''NaN''"
| "show_fixed k (Infinite s) = (if s then ''-inf'' else ''inf'')"
| "show_fixed k (Number s m e) = (if s then ''-'' else '''') @ show_units k (fixed_units k m e)"

section \<open>Events\<close>

datatype telemetry_event =
    OpportunityFound string f64
  | SimulationPassed f64 u64
  | SimulationFailed string
  | Rejection string f64
  | ExecutionStarted string
  | ExecutionSuccess string f64
  | ExecutionFailed string
  | Heartbeat f64 u64

fun telemetry_message :: "telemetry_event \<Rightarrow> string" where
  "telemetry_message (OpportunityFound path est_profit) =
     [CHR 0xF0, CHR 0x9F, CHR 0x94, CHR 0x8D] @ '' <b>Opp Found!</b>'' @ [CHR 0x0A] @ ''Path: <code>'' @ path @ ''</code>'' @ [CHR 0x0A] @ ''Est. Profit: <b>'' @ show_fixed 6 est_profit @ '' ETH</b>''"
| "telemetry_message (SimulationPassed profit gas_used) =
     [CHR 0xF0, CHR 0x9F, CHR 0x9B, CHR 0xA1, CHR 0xEF, CHR 0xB8, CHR 0x8F] @ '' <b>Sim Success</b>'' @ [CHR 0x0A] @ ''Profit: <code>'' @ show_fixed 6 profit @ '' ETH</code>'' @ [CHR 0x0A] @ ''Gas: <code>'' @ decimal (unat gas_used) @ ''</code>''"
| "telemetry_message (SimulationFailed reason) =
     [CHR 0xE2, CHR 0x9D, CHR 0x8C] @ '' <b>Sim Failed</b>'' @ [CHR 0x0A] @ ''Reason: <i>'' @ reason @ ''</i>''"
| "telemetry_message (Rejection reason profit) =
     [CHR 0xE2, CHR 0x9A, CHR 0xA0, CHR 0xEF, CHR 0xB8, CHR 0x8F] @ '' <b>Rejected</b>'' @ [CHR 0x0A] @ ''Reason: '' @ reason @ [CHR 0x0A] @ ''Profit lost: '' @ show_fixed 4 profit @ '' ETH''"
| "telemetry_message (ExecutionStarted hash) =
     [CHR 0xF0, CHR 0x9F, CHR 0x9A, CHR 0x80] @ '' <b>Firing Transaction!</b>'' @ [CHR 0x0A] @ ''Hash: <a href='' @ [CHR 0x27] @ ''https://basescan.org/tx/'' @ hash @ [CHR 0x27] @ ''>View</a>''"
| "telemetry_message (ExecutionSuccess hash net_profit) =
     [CHR 0xF0, CHR 0x9F, CHR 0x92, CHR 0xB0] @ '' <b>PROFIT HARVESTED!</b>'' @ [CHR 0x0A] @ ''Net: <b>'' @ show_fixed 6 net_profit @ '' ETH</b>'' @ [CHR 0x0A] @ ''Tx: <code>'' @ hash @ ''</code>''"
| "telemetry_message (ExecutionFailed error) =
     [CHR 0xF0, CHR 0x9F, CHR 0x92, CHR 0x80] @ '' <b>Execution REVERTED</b>'' @ [CHR 0x0A] @ ''Error: <code>'' @ error @ ''</code>''"
| "telemetry_message (Heartbeat balance block) =
     [CHR 0xF0, CHR 0x9F, CHR 0x92, CHR 0x93] @ '' <b>Bot Alive</b>'' @ [CHR 0x0A] @ ''Block: <code>'' @ decimal (unat block) @ ''</code>'' @ [CHR 0x0A] @ ''Wallet: <code>'' @ show_fixed 4 balance @ '' ETH</code>''"

definition telemetry_payload :: "string \<Rightarrow> telemetry_event \<Rightarrow> json" where
  "telemetry_payload chat_id event =
     JObject
       [(''chat_id'', JString chat_id), (''text'', JString (telemetry_message event)),
        (''parse_mode'', JString ''HTML''), (''disable_web_page_preview'', JBool True)]"

definition telemetry_url :: "string \<Rightarrow> string" where
  "telemetry_url token = ''https://api.telegram.org/bot'' @ token @ ''/sendMessage''"

text \<open>The posts of the loop: without credentials it ends at once; a failed post is only logged.\<close>

definition run_telemetry_loop :: "(string \<Rightarrow> string option) \<Rightarrow> telemetry_event list \<Rightarrow> (string \<times> json) list" where
  "run_telemetry_loop env events =
     (let token = (case env ''TELEGRAM_BOT_TOKEN'' of Some t \<Rightarrow> t | None \<Rightarrow> '''');
          chat_id = (case env ''TELEGRAM_CHAT_ID'' of Some c \<Rightarrow> c | None \<Rightarrow> '''')
      in if token = [] \<or> chat_id = [] then []
         else map (\<lambda>event. (telemetry_url token, telemetry_payload chat_id event)) events)"

section \<open>What the main loop reports\<close>

record reporter =
  rp_path :: "hop list \<Rightarrow> string"
  rp_error :: "mev_error \<Rightarrow> string"
  rp_hash :: "b256 \<Rightarrow> string"

definition profit_eth :: "u128 \<Rightarrow> f64" where
  "profit_eth profit = fdiv (of_word profit) (of_word (1000000000000000000 :: u64))"

text \<open>The branch of \<open>dispatch\<close> with the events it sends.\<close>

definition dispatch_events ::
  "reporter \<Rightarrow> 'e exec_env \<Rightarrow> treasury_env \<Rightarrow> bool \<Rightarrow> opportunity \<Rightarrow> 'p engine \<Rightarrow> (telemetry_event list \<times> 'p engine) exec" where
  "dispatch_events rp env tenv permit opp en =
     (if wd_global_pause (en_world en) then Some ([], en)
      else do {
        profit \<leftarrow> narrow (op_expected_profit opp);
        if fx_contract_address (wd_executor (en_world en)) = 0 then Some ([], en)
        else if \<not> permit then Some ([], en)
        else do {
          let found = OpportunityFound (rp_path rp (path_hops (op_path opp))) (profit_eth profit);
          (w, r) \<leftarrow> simulate_and_execute env opp (en_world en);
          let en = en\<lparr>en_world := w\<rparr>;
          case r of
            Inl e \<Rightarrow> Some ([found, ExecutionFailed (rp_error rp e)], en)
          | Inr hash \<Rightarrow> do {
              en \<leftarrow> after_success tenv opp en;
              Some ([found, ExecutionSuccess (rp_hash rp hash) (profit_eth profit)], en)
            }
        }
      })"

lemma outcome_sent:
  "(case r of Inl e \<Rightarrow> Some ([found, X e], z) | Inr h \<Rightarrow> Option.bind A (\<lambda>en. Some ([found, Y h], en))) = Some (evs, en') \<Longrightarrow>
    evs = [found, case r of Inl e \<Rightarrow> X e | Inr h \<Rightarrow> Y h]"
  by (cases r) (auto simp: bind_eq_Some_conv)

section \<open>Properties\<close>

text \<open>Reporting does not change what a dispatch does, and what it reports is what happened: nothing
  when the engine is paused, a dry run or busy, otherwise the opportunity and then one outcome with
  the same profit, a success exactly when the transaction was sent. Of the eight kinds of events only
  these three are ever sent.\<close>

theorem dispatch_reports_outcome:
  "map_option snd (dispatch_events rp env tenv permit opp en) = dispatch env tenv permit opp en"
  "\<forall>evs en'. dispatch_events rp env tenv permit opp en = Some (evs, en') \<longrightarrow> evs = [] \<and> en' = en \<or>
      (\<exists>path w r profit. narrow (op_expected_profit opp) = Some profit \<and>
         simulate_and_execute env opp (en_world en) = Some (w, r) \<and>
         evs = [OpportunityFound path (profit_eth profit),
                case r of Inl e \<Rightarrow> ExecutionFailed (rp_error rp e) | Inr h \<Rightarrow> ExecutionSuccess (rp_hash rp h) (profit_eth profit)])"
proof -
  let ?run = "simulate_and_execute env opp (en_world en)"
  show "map_option snd (dispatch_events rp env tenv permit opp en) = dispatch env tenv permit opp en"
    by (auto simp: dispatch_events_def dispatch_def Let_def map_option_case split: option.splits sum.splits Option.bind_splits)
  show "\<forall>evs en'. dispatch_events rp env tenv permit opp en = Some (evs, en') \<longrightarrow> evs = [] \<and> en' = en \<or>
      (\<exists>path w r profit. narrow (op_expected_profit opp) = Some profit \<and> ?run = Some (w, r) \<and>
         evs = [OpportunityFound path (profit_eth profit),
                case r of Inl e \<Rightarrow> ExecutionFailed (rp_error rp e) | Inr h \<Rightarrow> ExecutionSuccess (rp_hash rp h) (profit_eth profit)])"
    by (auto simp: dispatch_events_def Let_def bind_eq_Some_conv dest!: outcome_sent split: if_splits prod.splits)
qed

text \<open>Numbers are shown to the nearest unit of the last digit: the text of a number that is not
  negative is that of a multiple of \<open>10 ^ - k\<close> at most half of it away.\<close>

theorem shown_to_the_digit:
  assumes "0 \<le> m"
  shows "\<exists>u. show_fixed k (Number False m e) = show_units k u \<and>
    \<bar>of_nat u - of_int m * 2 powi e * (10 :: rat) ^ k\<bar> \<le> 1 / 2"
proof -
  obtain n d where s: "scaled (m * 10 ^ k) 1 (- e) = (n, d)" by (cases "scaled (m * 10 ^ k) 1 (- e)")
  note v = scaled_value [OF s]
  have d: "0 < d" and q: "(of_int n :: rat) / of_int d = of_int m * 2 powi e * 10 ^ k"
    using v by (simp_all add: power_int_minus field_simps)
  have "0 \<le> n" using s assms by (auto simp: scaled_def split: if_splits)
  then have "0 \<le> round_even n d" using d by (auto simp: round_even_def Let_def pos_imp_zdiv_nonneg_iff add_nonneg_nonneg)
  then have "(of_nat (fixed_units k m e) :: rat) = of_int (round_even n d)" by (simp add: fixed_units_def s)
  with round_even_near [OF d, of n] show ?thesis by (auto simp: q intro!: exI [of _ "fixed_units k m e"])
qed

theorem shown_to_the_digit_witness:
  "\<exists>u. show_fixed 6 (Number False 1 (- 1)) = show_units 6 u \<and> \<bar>of_nat u - 1 * 2 powi (- 1) * (10 :: rat) ^ 6\<bar> \<le> 1 / 2"
  using shown_to_the_digit [of 1 6 "- 1"] by simp

text \<open>One post for every event, in the order they were sent, to the bot of the token; the text of
  each is that of its event. Without a token or a chat nothing is posted.\<close>

theorem one_post_per_event:
  assumes "env ''TELEGRAM_BOT_TOKEN'' = Some token" and "env ''TELEGRAM_CHAT_ID'' = Some chat"
  shows "map (\<lambda>(url, body). (url, Option.bind (field ''text'' body) as_string)) (run_telemetry_loop env events) =
    (if token = [] \<or> chat = [] then [] else map (\<lambda>ev. (telemetry_url token, Some (telemetry_message ev))) events)"
  using assms by (simp add: run_telemetry_loop_def telemetry_payload_def field_def as_string_def)

theorem one_post_per_event_witness:
  "length (run_telemetry_loop (\<lambda>_. Some ''x'') [Heartbeat (zero_of False) 1, ExecutionFailed ''e'']) = 2"
  using arg_cong [OF one_post_per_event [of "\<lambda>_. Some ''x''" "''x''" "''x''" "[Heartbeat (zero_of False) 1, ExecutionFailed ''e'']"], of length]
  by simp

lemma half_an_ether: "show_fixed 6 (Number False 1 (- 1)) = ''0.500000''"
  by (simp add: show_units_def fixed_units_def padded_def scaled_def round_even_def decimal.simps char_of_def bit_iff_odd)

end
