(* ===== verification/Audit_Log.thy ===== *)
theory Audit_Log
  imports State_Mirror
begin

text \<open>
  The rejection log of \<open>src/utils.rs\<close> (\<open>audit_log\<close>, \<open>cleanup_auditor_logs\<close>) on the contents of its
  file, a byte string, or none when the file does not exist. Whether a line is valid UTF-8 and whether
  a file can be opened are arguments.
\<close>

section \<open>Lines\<close>

abbreviation newline :: char where
  "newline \<equiv> CHR 0x0A"

text \<open>\<open>BufRead::lines\<close>: split at line feeds, with no line after the last one; a carriage return
  before a line feed goes with it.\<close>

definition strip_return :: "string \<Rightarrow> string" where
  "strip_return l = (if l \<noteq> [] \<and> last l = CHR 0x0D then butlast l else l)"

fun read_lines :: "string \<Rightarrow> string \<Rightarrow> string list" where
  "read_lines acc [] = (if acc = [] then [] else [rev acc])"
| "read_lines acc (c # cs) = (if c = newline then strip_return (rev acc) # read_lines [] cs else read_lines (c # acc) cs)"

definition file_lines :: "string \<Rightarrow> string list" where
  "file_lines = read_lines []"

definition write_lines :: "string list \<Rightarrow> string" where
  "write_lines ls = concat (map (\<lambda>l. l @ [newline]) ls)"

section \<open>The log\<close>

definition audit_entry :: "nat \<Rightarrow> string \<Rightarrow> string \<Rightarrow> string" where
  "audit_entry now pillar msg = ''['' @ decimal now @ ''] ['' @ pillar @ ''] '' @ msg"

definition audit_log :: "bool \<Rightarrow> bool \<Rightarrow> nat \<Rightarrow> string \<Rightarrow> string \<Rightarrow> string option \<Rightarrow> string option" where
  "audit_log dir_ok open_ok now pillar msg file =
     (if \<not> dir_ok then file
      else if open_ok then Some ((case file of Some c \<Rightarrow> c | None \<Rightarrow> '''') @ audit_entry now pillar msg @ [newline])
      else file)"

definition cleanup_auditor_logs :: "(string \<Rightarrow> bool) \<Rightarrow> bool \<Rightarrow> string option \<Rightarrow> string option" where
  "cleanup_auditor_logs utf8 create_ok file =
     (case file of
        None \<Rightarrow> None
      | Some content \<Rightarrow>
          let ls = List.filter utf8 (file_lines content) in
          if length ls > 2000 then
            (if create_ok then Some (write_lines (drop (length ls - 1000) ls)) else file)
          else file)"

section \<open>Facts\<close>

lemma read_append: "read_lines acc (c @ newline # rest) = read_lines acc (c @ [newline]) @ read_lines [] rest"
  by (induction c arbitrary: acc) auto

lemma read_plain: "newline \<notin> set l \<Longrightarrow> read_lines acc (l @ [newline]) = [strip_return (rev acc @ l)]"
  by (induction l arbitrary: acc) auto

lemma no_newline_strip: "newline \<notin> set l \<Longrightarrow> newline \<notin> set (strip_return l)"
  by (auto simp: strip_return_def dest: in_set_butlastD)

lemma lines_plain: "newline \<notin> set acc \<Longrightarrow> l \<in> set (read_lines acc cs) \<Longrightarrow> newline \<notin> set l"
  by (induction acc cs rule: read_lines.induct) (auto simp: no_newline_strip split: if_splits)

lemma read_written: "\<forall>l \<in> set ls. newline \<notin> set l \<Longrightarrow> file_lines (write_lines ls) = map strip_return ls"
proof (induction ls)
  case (Cons l ls)
  then show ?case using read_append [of "[]" l "write_lines ls"] by (simp add: file_lines_def write_lines_def read_plain)
qed (simp add: file_lines_def write_lines_def)

lemma decimal_plain: "newline \<notin> set (decimal n)"
proof (induction n rule: decimal.induct)
  case (1 n)
  have digit: "newline \<noteq> char_of (k + 48)" if "k < 10" for k :: nat
  proof
    assume "newline = char_of (k + 48)"
    then have "of_char newline = (of_char (char_of (k + 48) :: char) :: nat)" by simp
    with that show False by (simp add: of_char_of)
  qed
  from 1 digit [of n] digit [of "n mod 10"] show ?case by (subst decimal.simps) auto
qed

section \<open>Properties\<close>

text \<open>An entry is one line: on a file of whole lines, an entry whose parts have no line feed adds
  exactly its own line to those already there.\<close>

theorem entry_is_one_line:
  assumes "file = None \<or> file = Some [] \<or> (\<exists>c. file = Some (c @ [newline]))"
    and "newline \<notin> set pillar" and "newline \<notin> set msg"
  shows "\<exists>content. audit_log True True now pillar msg file = Some content \<and>
    file_lines content = (case file of Some c \<Rightarrow> file_lines c | None \<Rightarrow> []) @ [strip_return (audit_entry now pillar msg)]"
proof -
  let ?e = "audit_entry now pillar msg"
  have e: "newline \<notin> set ?e" using assms(2,3) decimal_plain by (simp add: audit_entry_def)
  from assms(1) show ?thesis
    using read_plain [OF e, of "[]"] read_append [of "[]" _ "?e @ [newline]"]
    by (auto simp: audit_log_def file_lines_def)
qed

theorem entry_is_one_line_witness:
  "\<exists>content. audit_log True True 5 ''L'' ''x'' None = Some content \<and> file_lines content = [''[5] [L] x'']"
  using entry_is_one_line [of None "''L''" "''x''" 5]
  by (simp add: audit_entry_def decimal.simps strip_return_def char_of_def bit_iff_odd)

text \<open>The rotation keeps the newest thousand readable lines of a file of more than two thousand, and
  no other file changes; rotating again changes nothing more.\<close>

theorem rotation_keeps_newest:
  assumes "file = Some content" and "ls = List.filter utf8 (file_lines content)"
  shows "length ls > 2000 \<Longrightarrow> \<exists>kept. cleanup_auditor_logs utf8 True file = Some kept \<and> length (file_lines kept) = 1000 \<and>
      file_lines kept = map strip_return (drop (length ls - 1000) ls) \<and>
      cleanup_auditor_logs utf8 True (Some kept) = Some kept"
    and "length ls \<le> 2000 \<Longrightarrow> cleanup_auditor_logs utf8 create_ok file = file"
proof -
  assume many: "length ls > 2000"
  let ?new = "drop (length ls - 1000) ls"
  have "newline \<notin> set l" if "l \<in> set ?new" for l
    using that lines_plain [of "[]" l content] by (auto simp: assms(2) file_lines_def dest: in_set_dropD)
  then have lines: "file_lines (write_lines ?new) = map strip_return ?new" by (simp add: read_written)
  have "length (List.filter utf8 (map strip_return ?new)) \<le> 1000"
    by (rule order_trans [OF length_filter_le]) (use many in simp)
  with many lines show "\<exists>kept. cleanup_auditor_logs utf8 True file = Some kept \<and> length (file_lines kept) = 1000 \<and>
      file_lines kept = map strip_return ?new \<and> cleanup_auditor_logs utf8 True (Some kept) = Some kept"
    by (auto simp: cleanup_auditor_logs_def assms(1) assms(2) [symmetric])
next
  assume "length ls \<le> 2000"
  then show "cleanup_auditor_logs utf8 create_ok file = file"
    by (simp add: cleanup_auditor_logs_def assms(1) assms(2) [symmetric])
qed

end
