(* ===== verification/Legacy_Engine.thy ===== *)
theory Legacy_Engine
  imports Simulator
begin

text \<open>
  \<open>src/simulation_engine.rs\<close>, the predecessor of the simulator. \<open>lib.rs\<close> does not declare it as a
  module, so no other component calls it. The machine is a parameter again; here it has a gas price
  and a block number, and a transaction may be run without being committed.
\<close>

section \<open>The engine\<close>

record legacy_tx =
  lt_block_number :: u64
  lt_caller :: address
  lt_transact_to :: address
  lt_data :: bytes
  lt_gas_limit :: u64
  lt_gas_price :: u256

record account_info =
  ai_balance :: u256
  ai_nonce :: u64
  ai_code_hash :: b256
  ai_code :: "bytes option"

text \<open>\<open>lv_run\<close> gives the result of a transaction and the database after its commit.\<close>

record 'e legacy_vm =
  lv_cache :: "mirror \<Rightarrow> 'e"
  lv_insert :: "address \<Rightarrow> account_info \<Rightarrow> 'e \<Rightarrow> 'e"
  lv_run :: "legacy_tx \<Rightarrow> 'e \<Rightarrow> string + exec_result \<times> 'e"
  lv_keccak :: "bytes \<Rightarrow> b256"

record 'e simulation_engine =
  se_db :: 'e
  se_base_asset :: address

definition engine_new :: "'e legacy_vm \<Rightarrow> mirror \<Rightarrow> chain \<Rightarrow> 'e simulation_engine" where
  "engine_new vm m c = \<lparr>se_db = lv_cache vm m, se_base_asset = (if c = Base then 0x4200000000000000000000000000000000000006 else 0)\<rparr>"

definition strategy_tx :: "address \<Rightarrow> bytes \<Rightarrow> u64 \<Rightarrow> legacy_tx" where
  "strategy_tx bot_address calldata target_block_number =
     \<lparr>lt_block_number = target_block_number, lt_caller = bot_address, lt_transact_to = bot_address, lt_data = calldata,
      lt_gas_limit = SIMULATION_GAS_LIMIT, lt_gas_price = 1000000000\<rparr>"

text \<open>The balance call borrows the environment of the strategy and commits nothing.\<close>

definition get_balance_optimized ::
  "'e legacy_vm \<Rightarrow> legacy_tx \<Rightarrow> address \<Rightarrow> address \<Rightarrow> 'e \<Rightarrow> (mev_error + u256) exec" where
  "get_balance_optimized vm env token account db =
     (let data = balance_of_data account in
      case lv_run vm (env\<lparr>lt_data := data, lt_transact_to := token\<rparr>) db of
        Inl e \<Rightarrow> Some (Inl (SimulationFailed e))
      | Inr (ExecSuccess _ output, _) \<Rightarrow> map_option Inr (from_be_slice output)
      | Inr (ExecOther, _) \<Rightarrow> Some (Inr 0))"

text \<open>The verdict on a committed run.\<close>

definition legacy_verdict :: "u256 \<Rightarrow> u256 \<Rightarrow> u256 \<Rightarrow> u64 \<Rightarrow> mev_error + u256 \<times> u64" where
  "legacy_verdict min_profit_threshold bal_before bal_after gas_used =
     (let profit = sat_sub bal_after bal_before in
      if profit < min_profit_threshold then Inl (SimulationFailed ''Insufficient profit after execution'')
      else if profit = 0 \<and> min_profit_threshold \<noteq> 0 then Inl (HoneypotDetected ''Zero liquid profit in simulation'')
      else Inr (profit, gas_used))"

text \<open>The result and the database; once the strategy has run, its commit stays whatever the verdict.\<close>

definition simulate_execution ::
  "'e legacy_vm \<Rightarrow> address \<Rightarrow> bytes \<Rightarrow> u64 \<Rightarrow> u256 \<Rightarrow> 'e simulation_engine \<Rightarrow>
    ((mev_error + u256 \<times> u64) \<times> 'e simulation_engine) exec" where
  "simulate_execution vm bot_address calldata target_block_number min_profit_threshold en =
     (let env = strategy_tx bot_address calldata target_block_number;
          balance = get_balance_optimized vm env (se_base_asset en) bot_address
      in do {
        before \<leftarrow> balance (se_db en);
        case before of
          Inl e \<Rightarrow> Some (Inl e, en)
        | Inr bal_before \<Rightarrow>
            (case lv_run vm env (se_db en) of
               Inl e \<Rightarrow> Some (Inl (SimulationFailed e), en)
             | Inr (ExecOther, db) \<Rightarrow> Some (Inl (SimulationFailed ''Local EVM Revert''), en\<lparr>se_db := db\<rparr>)
             | Inr (ExecSuccess gas_used _, db) \<Rightarrow> do {
                 after \<leftarrow> balance db;
                 Some (case after of
                         Inl e \<Rightarrow> Inl e
                       | Inr bal_after \<Rightarrow> legacy_verdict min_profit_threshold bal_before bal_after gas_used,
                       en\<lparr>se_db := db\<rparr>)
               })
      })"

definition inject_state :: "'e legacy_vm \<Rightarrow> address \<Rightarrow> bytes \<Rightarrow> u256 \<Rightarrow> 'e simulation_engine \<Rightarrow> 'e simulation_engine" where
  "inject_state vm a code balance en =
     en\<lparr>se_db := lv_insert vm a \<lparr>ai_balance = balance, ai_nonce = 0, ai_code_hash = lv_keccak vm code, ai_code = Some code\<rparr> (se_db en)\<rparr>"

section \<open>Facts\<close>

lemma verdict_cases:
  "legacy_verdict t b a g = (if sat_sub a b < t then Inl (SimulationFailed ''Insufficient profit after execution'') else Inr (sat_sub a b, g))"
  by (auto simp: legacy_verdict_def Let_def word_gt_0)

lemma balance_no_honeypot:
  assumes "get_balance_optimized vm env token account db = Some (Inl e)"
  shows "\<exists>s. e = SimulationFailed s"
proof (cases "lv_run vm (env\<lparr>lt_data := balance_of_data account, lt_transact_to := token\<rparr>) db")
  case (Inl r)
  with assms show ?thesis by (auto simp: get_balance_optimized_def)
next
  case (Inr r)
  with assms show ?thesis by (cases r; cases "fst r") (auto simp: get_balance_optimized_def)
qed

text \<open>The stages of a run: the balance before, the strategy, the balance after.\<close>

lemma stages:
  fixes vm :: "'e legacy_vm"
  assumes "simulate_execution vm owner calldata block threshold en = Some (r, en')"
  obtains (unread) e where "get_balance_optimized vm (strategy_tx owner calldata block) (se_base_asset en) owner (se_db en) = Some (Inl e)"
      and "r = Inl e" and "en' = en"
    | (refused) e where "r = Inl (SimulationFailed e)"
    | (lost) e where "get_balance_optimized vm (strategy_tx owner calldata block) (se_base_asset en) owner (se_db en') = Some (Inl e)"
      and "r = Inl e"
    | (ran) b a gas where "get_balance_optimized vm (strategy_tx owner calldata block) (se_base_asset en) owner (se_db en) = Some (Inr b)"
      and "get_balance_optimized vm (strategy_tx owner calldata block) (se_base_asset en) owner (se_db en') = Some (Inr a)"
      and "r = legacy_verdict threshold b a gas"
proof -
  let ?env = "strategy_tx owner calldata block"
  let ?balance = "get_balance_optimized vm ?env (se_base_asset en) owner"
  from assms obtain before where before: "?balance (se_db en) = Some before"
    by (cases "?balance (se_db en)") (simp_all add: simulate_execution_def)
  show thesis
  proof (cases before)
    case (Inl e)
    with assms before show thesis by (intro unread) (auto simp: simulate_execution_def)
  next
    case (Inr b)
    note b = this
    show thesis
    proof (cases "lv_run vm ?env (se_db en)")
      case (Inl e)
      with assms before b show thesis by (intro refused) (auto simp: simulate_execution_def)
    next
      case (Inr x)
      obtain res db where x: "x = (res, db)" by (cases x)
      show thesis
      proof (cases res)
        case (ExecSuccess gas out)
        with assms before b Inr x obtain after where after: "?balance db = Some after" and en': "en' = en\<lparr>se_db := db\<rparr>"
            and r: "r = (case after of Inl e \<Rightarrow> Inl e | Inr a \<Rightarrow> legacy_verdict threshold b a gas)"
          by (auto simp: simulate_execution_def bind_eq_Some_conv)
        from before b after en' r show thesis by (cases after) (auto intro: lost ran)
      next
        case ExecOther
        with assms before b Inr x show thesis by (intro refused) (auto simp: simulate_execution_def)
      qed
    qed
  qed
qed

section \<open>Properties\<close>

text \<open>An accepted run earned at least the threshold: its profit is the rise of the balance of the base
  asset over the committed transaction.\<close>

theorem legacy_profit_is_earned:
  assumes "simulate_execution vm owner calldata block threshold en = Some (Inr (profit, gas), en')"
  shows "\<exists>bal_before bal_after.
    get_balance_optimized vm (strategy_tx owner calldata block) (se_base_asset en) owner (se_db en) = Some (Inr bal_before) \<and>
    get_balance_optimized vm (strategy_tx owner calldata block) (se_base_asset en) owner (se_db en') = Some (Inr bal_after) \<and>
    unat profit = unat bal_after - unat bal_before \<and> threshold \<le> profit"
  using assms
proof (cases rule: stages)
  case (ran b a g)
  then show ?thesis by (auto simp: verdict_cases nowrap not_less split: if_splits)
qed simp_all

definition paying_vm :: "nat legacy_vm" where
  "paying_vm = \<lparr>lv_cache = (\<lambda>_. 0), lv_insert = (\<lambda>_ _ e. e),
     lv_run = (\<lambda>tx e. Inr (ExecSuccess 7 [if e = 0 then 0 else 5], e + 1)), lv_keccak = (\<lambda>_. 0)\<rparr>"

lemma paying_vm_run:
  "simulate_execution paying_vm 1 [] 2 3 \<lparr>se_db = 0, se_base_asset = 4\<rparr> = Some (Inr (5, 7), \<lparr>se_db = 1, se_base_asset = 4\<rparr>)"
  by (simp add: simulate_execution_def get_balance_optimized_def paying_vm_def strategy_tx_def from_be_slice_def
      legacy_verdict_def sat_sub_def from_be_bytes_def be_value_def Let_def)

theorem legacy_profit_is_earned_witness:
  "\<exists>bal_before bal_after.
    get_balance_optimized paying_vm (strategy_tx 1 [] 2) 4 1 0 = Some (Inr bal_before) \<and>
    get_balance_optimized paying_vm (strategy_tx 1 [] 2) 4 1 1 = Some (Inr bal_after) \<and> (5 :: nat) = unat bal_after - unat bal_before"
  using legacy_profit_is_earned [OF paying_vm_run] by auto

text \<open>The honeypot verdict is never given: a run without profit is already rejected as too small.\<close>

theorem legacy_never_detects_honeypot:
  "simulate_execution vm owner calldata block threshold en \<noteq> Some (Inl (HoneypotDetected s), en')"
proof
  assume "simulate_execution vm owner calldata block threshold en = Some (Inl (HoneypotDetected s), en')"
  then show False
    by (cases rule: stages) (auto simp: verdict_cases dest: balance_no_honeypot split: if_splits)
qed

end
