(* ===== verification/Shadow_Bot.thy ===== *)
theory Shadow_Bot
  imports Models
begin

text \<open>
  The reader of the ghost payload: the contract \<open>src/ShadowBot.sol\<close>, whose \<open>executeArbitrage(bytes)\<close>
  the executor calls. It reads 32-byte words at byte offsets and takes fields out of them with \<open>shr\<close> and
  \<open>byte\<close>; a word near the end also holds whatever follows the payload, and zeros after that.
\<close>

section \<open>Words of the machine\<close>

definition mload_at :: "bytes \<Rightarrow> nat \<Rightarrow> u256" where
  "mload_at m p = from_be_bytes (take 32 (drop p m @ replicate 32 0))"

definition evm_byte :: "nat \<Rightarrow> u256 \<Rightarrow> u8" where
  "evm_byte i w = (if i < 32 then ucast (drop_bit (8 * (31 - i)) w) else 0)"

definition evm_address :: "u256 \<Rightarrow> address" where
  "evm_address w = ucast (drop_bit 96 w)"

section \<open>The reader\<close>

text \<open>Minimum profit, lender and count of loans; token and amount of each loan.\<close>

definition shadow_head :: "bytes \<Rightarrow> u256 \<times> u8 \<times> u8" where
  "shadow_head m = (let w = mload_at m 32 in (mload_at m 0, evm_byte 0 w, evm_byte 1 w))"

fun shadow_loans :: "bytes \<Rightarrow> nat \<Rightarrow> nat \<Rightarrow> (address \<times> u256) list" where
  "shadow_loans m 0 p = []"
| "shadow_loans m (Suc n) p = (evm_address (mload_at m p), mload_at m (p + 20)) # shadow_loans m n (p + 52)"

text \<open>Pool, token out, type of exchange, direction and stability of each hop.\<close>

type_synonym shadow_hop = "address \<times> address \<times> u8 \<times> u8 \<times> u8"

fun shadow_hops :: "bytes \<Rightarrow> nat \<Rightarrow> nat \<Rightarrow> shadow_hop list" where
  "shadow_hops m 0 p = []"
| "shadow_hops m (Suc n) p =
     (let w = mload_at m (p + 40)
      in (evm_address (mload_at m p), evm_address (mload_at m (p + 20)), evm_byte 0 w, evm_byte 1 w, evm_byte 2 w) #
         shadow_hops m n (p + 43))"

definition shadow_read :: "bytes \<Rightarrow> u256 \<times> u8 \<times> (address \<times> u256) list \<times> shadow_hop list" where
  "shadow_read m =
     (let (min_profit, lender, loans_len) = shadow_head m;
          hops_ptr = 34 + unat loans_len * 52;
          hops_len = evm_byte 0 (mload_at m hops_ptr)
      in (min_profit, lender, shadow_loans m (unat loans_len) 34, shadow_hops m (unat hops_len) (hops_ptr + 1)))"

section \<open>Fields of a word\<close>

lemma be_value_append: "be_value (xs @ ys) = be_value xs * 256 ^ length ys + be_value ys"
proof (induction ys rule: rev_induct)
  case (snoc y ys)
  have "be_value (xs @ ys @ [y]) = be_value ((xs @ ys) @ [y])" by simp
  also have "\<dots> = be_value (xs @ ys) * 256 + unat y" by (rule be_value_snoc)
  finally show ?case using snoc by (simp add: algebra_simps)
qed simp

lemma be_value_div: "length ys = n \<Longrightarrow> be_value (xs @ ys) div 256 ^ n = be_value xs"
  using be_value_bound [of ys] by (simp add: be_value_append)

lemma word_value: "length bs = 32 \<Longrightarrow> unat (from_be_bytes bs :: u256) = be_value bs"
  unfolding from_be_bytes_def by (rule unat_of_nat_nowrap) (use be_value_bound [of bs] in simp)

lemma unat_evm_address: "unat (evm_address w) = unat w div 2 ^ 96"
proof -
  have "unat w div 2 ^ 96 < 2 ^ 160" using unat_bound [of w] by (intro div_less_iff_less_mult [THEN iffD2]) simp_all
  then show ?thesis by (simp add: evm_address_def unsigned_ucast_eq take_bit_eq_mod unat_drop_bit_eq drop_bit_eq_div unat_div)
qed

lemma unat_evm_byte: "i < 32 \<Longrightarrow> unat (evm_byte i w) = unat w div 2 ^ (8 * (31 - i)) mod 2 ^ 8"
  by (simp add: evm_byte_def unsigned_ucast_eq take_bit_eq_mod unat_drop_bit_eq flip: drop_bit_eq_div)

lemma mload_split:
  assumes "m = pre @ bs @ rest" and "p = length pre" and "length bs \<le> 32"
  obtains ys where "mload_at m p = from_be_bytes (bs @ ys)" and "length (bs @ ys) = 32"
proof -
  have "take 32 (drop p m @ replicate 32 0) = bs @ take (32 - length bs) (rest @ replicate 32 0)"
    using assms by simp
  with that show thesis using assms(3) by (simp add: mload_at_def)
qed

lemma mload_word:
  assumes "m = pre @ to_be_bytes w @ rest" and "p = length pre"
  shows "mload_at m p = w"
  by (rule mload_split [OF assms]) simp_all

lemma mload_address:
  assumes "m = pre @ to_be_bytes a @ rest" and "p = length pre"
  shows "evm_address (mload_at m p) = a"
proof (rule mload_split [OF assms])
  fix ys assume m: "mload_at m p = from_be_bytes (to_be_bytes a @ ys)" and len: "length (to_be_bytes a @ ys) = 32"
  then have ys: "length ys = 12" by simp
  have "unat (evm_address (mload_at m p)) = be_value (to_be_bytes a @ ys) div 256 ^ 12"
    by (simp only: m unat_evm_address word_value [OF len]) simp
  also have "\<dots> = be_value (to_be_bytes a)" by (rule be_value_div [OF ys])
  also have "\<dots> = unat a" using unat_bound [of a] by (simp add: to_be_bytes_def be_value_digits)
  finally show ?thesis by (simp add: word_unat_eq_iff)
qed simp

lemma mload_byte:
  assumes "m = pre @ bs @ rest" and "p = length pre" and "i < length bs" and "length bs \<le> 32"
  shows "evm_byte i (mload_at m p) = bs ! i"
proof (rule mload_split [OF assms(1,2,4)])
  fix ys assume m: "mload_at m p = from_be_bytes (bs @ ys)" and len: "length (bs @ ys) = 32"
  let ?tail = "drop (Suc i) bs @ ys"
  have split: "bs @ ys = (take i bs @ [bs ! i]) @ ?tail"
    using assms(3) by (simp add: id_take_nth_drop [symmetric])
  have tail: "length ?tail = 31 - i" and i: "i < 32" using assms(3,4) len by simp_all
  have "be_value (bs @ ys) div 256 ^ (31 - i) = be_value (take i bs) * 256 + unat (bs ! i)"
    unfolding split be_value_div [OF tail] by simp
  then have "be_value (bs @ ys) div 2 ^ (8 * (31 - i)) mod 2 ^ 8 = unat (bs ! i)"
    using unat_bound [of "bs ! i"] by (simp add: power_mult)
  then have "unat (evm_byte i (mload_at m p)) = unat (bs ! i)"
    by (simp only: m unat_evm_byte [OF i] word_value [OF len])
  then show ?thesis by (simp add: word_unat_eq_iff)
qed

section \<open>Items of the payload\<close>

definition hop_fields :: "hop \<Rightarrow> shadow_hop" where
  "hop_fields h = (hop_pool h, hop_token_out h, dex_type_u8 (hop_dex_type h),
     if hop_zero_for_one h then 1 else 0, if hop_is_stable h then 1 else 0)"

lemma length_encode_loan [simp]: "length (encode_loan l) = 52"
  by (simp add: encode_loan_def)

lemma length_encode_hop [simp]: "length (encode_hop h) = 43"
  by (simp add: encode_hop_def)

lemma length_concat_const: "\<forall>x \<in> set xs. length (f x) = w \<Longrightarrow> length (concat (map f xs)) = w * length xs"
  by (induction xs) simp_all

lemma read_loans:
  "m = pre @ concat (map encode_loan loans) @ rest \<Longrightarrow> p = length pre \<Longrightarrow> shadow_loans m (length loans) p = loans"
proof (induction loans arbitrary: pre p)
  case (Cons l loans)
  let ?R = "concat (map encode_loan loans) @ rest"
  have m: "m = pre @ to_be_bytes (fst l) @ (to_be_bytes (snd l) @ ?R)"
    "m = (pre @ to_be_bytes (fst l)) @ to_be_bytes (snd l) @ ?R" "m = (pre @ encode_loan l) @ ?R"
    using Cons.prems(1) by (simp_all add: encode_loan_def [of l])
  have "evm_address (mload_at m p) = fst l" by (rule mload_address [OF m(1) Cons.prems(2)])
  moreover have "mload_at m (p + 20) = snd l" by (rule mload_word [OF m(2)]) (simp add: Cons.prems(2))
  moreover have "shadow_loans m (length loans) (p + 52) = loans"
    by (rule Cons.IH [OF m(3)]) (simp add: Cons.prems(2))
  ultimately show ?case by simp
qed simp

lemma read_hops:
  "m = pre @ concat (map encode_hop hops) @ rest \<Longrightarrow> p = length pre \<Longrightarrow> shadow_hops m (length hops) p = map hop_fields hops"
proof (induction hops arbitrary: pre p)
  case (Cons h hops)
  let ?R = "concat (map encode_hop hops) @ rest"
  let ?f = "[dex_type_u8 (hop_dex_type h), if hop_zero_for_one h then 1 else 0, if hop_is_stable h then 1 else 0]"
  let ?a = "to_be_bytes (hop_pool h)" and ?b = "to_be_bytes (hop_token_out h)"
  have m: "m = pre @ ?a @ (?b @ ?f @ ?R)" "m = (pre @ ?a) @ ?b @ (?f @ ?R)" "m = (pre @ ?a @ ?b) @ ?f @ ?R"
    "m = (pre @ encode_hop h) @ ?R"
    using Cons.prems(1) by (simp_all add: encode_hop_def [of h])
  have "evm_address (mload_at m p) = hop_pool h" by (rule mload_address [OF m(1) Cons.prems(2)])
  moreover have "evm_address (mload_at m (p + 20)) = hop_token_out h"
    by (rule mload_address [OF m(2)]) (simp add: Cons.prems(2))
  moreover have "evm_byte i (mload_at m (p + 40)) = ?f ! i" if "i < 3" for i
    by (rule mload_byte [OF m(3)]) (use that in \<open>simp_all add: Cons.prems(2)\<close>)
  moreover have "shadow_hops m (length hops) (p + 43) = map hop_fields hops"
    by (rule Cons.IH [OF m(4)]) (simp add: Cons.prems(2))
  ultimately show ?case by (simp add: hop_fields_def Let_def)
qed simp

section \<open>Properties\<close>

text \<open>C33 The contract \<open>ShadowBot\<close> reads out of the payload what the program put in, whatever follows the
  payload in its memory: for up to 255 loans and 255 hops the minimum profit, the lender's byte, every
  loan, and of every hop the pool, the token out, the type byte and the two flags. The lender itself is
  known up to its byte, which is 2 for all but Balancer and Aave.\<close>

theorem ghost_payload_roundtrip:
  assumes "length loans < 256" and "length (ap_hops self) < 256"
  shows "shadow_read (encode_ghost_multi self loans min_profit @ following) =
    (min_profit, lender_id (ap_lender self), loans, map hop_fields (ap_hops self))"
proof -
  let ?m = "encode_ghost_multi self loans min_profit @ following"
  let ?h = "[lender_id (ap_lender self), word_of_nat (length loans) :: u8]" and ?n = "[word_of_nat (length (ap_hops self)) :: u8]"
  let ?L = "concat (map encode_loan loans)" and ?H = "concat (map encode_hop (ap_hops self))"
  have m: "?m = [] @ to_be_bytes min_profit @ (?h @ ?L @ ?n @ ?H @ following)"
    "?m = to_be_bytes min_profit @ ?h @ (?L @ ?n @ ?H @ following)"
    "?m = (to_be_bytes min_profit @ ?h) @ ?L @ (?n @ ?H @ following)"
    "?m = (to_be_bytes min_profit @ ?h @ ?L) @ ?n @ (?H @ following)"
    "?m = (to_be_bytes min_profit @ ?h @ ?L @ ?n) @ ?H @ following"
    by (simp_all add: encode_ghost_multi_def)
  have lens: "length ?L = 52 * length loans" by (rule length_concat_const) simp
  have n: "unat (word_of_nat (length loans) :: u8) = length loans"
    "unat (word_of_nat (length (ap_hops self)) :: u8) = length (ap_hops self)"
    using assms by (simp_all add: unat_byte)
  have "mload_at ?m 0 = min_profit" by (rule mload_word [OF m(1)]) simp
  moreover have "evm_byte i (mload_at ?m 32) = ?h ! i" if "i < 2" for i
    by (rule mload_byte [OF m(2)]) (use that in simp_all)
  ultimately have head: "shadow_head ?m = (min_profit, lender_id (ap_lender self), word_of_nat (length loans))"
    by (simp add: shadow_head_def Let_def)
  have "shadow_loans ?m (length loans) 34 = loans" by (rule read_loans [OF m(3)]) simp
  moreover have "evm_byte 0 (mload_at ?m (34 + length loans * 52)) = word_of_nat (length (ap_hops self))"
    using mload_byte [OF m(4), of "34 + length loans * 52" 0] by (simp add: lens)
  moreover have "shadow_hops ?m (length (ap_hops self)) (34 + length loans * 52 + 1) = map hop_fields (ap_hops self)"
    by (rule read_hops [OF m(5)]) (simp add: lens)
  ultimately show ?thesis by (simp only: shadow_read_def head Let_def prod.case n)
qed

definition sample_hop :: "address \<Rightarrow> address \<Rightarrow> dex_type \<Rightarrow> bool \<Rightarrow> hop" where
  "sample_hop pool token_out d z =
     \<lparr>hop_pool = pool, hop_pool_address = pool, hop_pool_address_label = None, hop_token_in = TOKEN_WETH,
      hop_token_out = token_out, hop_dex_type = d, hop_dex_name = NameUniswapV2, hop_zero_for_one = z, hop_is_stable = \<not> z,
      hop_fee = None, hop_static_calldata = [], hop_gas_cost = 0, hop_id = [], hop_success_prob = 0\<rparr>"

theorem ghost_payload_roundtrip_witness:
  "shadow_read (encode_ghost_multi
      \<lparr>ap_hops = [sample_hop 0x1234 7 Aerodrome True, sample_hop 0xabcd 8 UniswapV3 False], ap_loans = [], ap_lender = LAaveV3\<rparr>
      [(TOKEN_WETH, 10 ^ 18)] 5 @ [0xff, 0xff]) =
    (5, 1, [(TOKEN_WETH, 10 ^ 18)], [(0x1234, 7, 3, 1, 0), (0xabcd, 8, 1, 0, 1)])"
  by (subst ghost_payload_roundtrip) (simp_all add: lender_id_def hop_fields_def sample_hop_def dex_type_u8_def)

end
