(* ===== verification/Task_Loops.thy ===== *)
theory Task_Loops
  imports System_Facts Feeds Telemetry
begin

text \<open>
  The loops of the tasks of \<open>main.rs\<close>, \<open>arbitrage_detector.rs\<close> and \<open>gas_feed.rs\<close> as they are
  written, and that they only take the steps of \<open>Engine\<close> and \<open>System\<close>. What a loop waits for is a
  list; \<open>select!\<close> takes a schedule that says which of two ready streams it picks.
\<close>

section \<open>The heartbeat\<close>

text \<open>\<open>select!\<close> over two streams, until both have ended.\<close>

fun select_loop :: "bool list \<Rightarrow> 'a list \<Rightarrow> 'b list \<Rightarrow> ('a + 'b) list" where
  "select_loop picks [] ys = map Inr ys"
| "select_loop picks (x # xs) [] = map Inl (x # xs)"
| "select_loop [] (x # xs) (y # ys) = Inl x # select_loop [] xs (y # ys)"
| "select_loop (p # picks) (x # xs) (y # ys) =
     (if p then Inl x # select_loop picks xs (y # ys) else Inr y # select_loop picks (x # xs) ys)"

text \<open>A block with the time it is handled at.\<close>

record block_header =
  bh_now :: u64
  bh_number :: u64
  bh_base_fee_per_gas :: "u128 option"
  bh_timestamp :: u64

definition heartbeat_item :: "rpc_log + block_header \<Rightarrow> 'p engine \<Rightarrow> 'p engine" where
  "heartbeat_item item =
     (case item of
        Inl l \<Rightarrow> heartbeat_log l
      | Inr b \<Rightarrow> heartbeat_block (bh_now b) (bh_number b) (bh_base_fee_per_gas b) (bh_timestamp b))"

text \<open>A connection, and the streams of its two subscriptions; either may fail.\<close>

datatype heartbeat_connection =
  HeartbeatDown | HeartbeatUp "bool list" "rpc_log list option" "block_header list option"

fun session_items :: "heartbeat_connection \<Rightarrow> (rpc_log + block_header) list" where
  "session_items HeartbeatDown = []"
| "session_items (HeartbeatUp picks (Some logs) (Some blocks)) = select_loop picks logs blocks"
| "session_items (HeartbeatUp picks _ _) = []"

text \<open>The engine after all sessions, and the logs sent to the bridge.\<close>

definition forwarded :: "('a + 'b) list \<Rightarrow> 'a list" where
  "forwarded items = List.map_filter (\<lambda>i. case i of Inl x \<Rightarrow> Some x | Inr _ \<Rightarrow> None) items"

fun heartbeat_loop :: "heartbeat_connection list \<Rightarrow> 'p engine \<Rightarrow> 'p engine \<times> rpc_log list" where
  "heartbeat_loop [] en = (en, [])"
| "heartbeat_loop (c # cs) en =
     (let items = session_items c; (en', logs) = heartbeat_loop cs (fold heartbeat_item items en)
      in (en', forwarded items @ logs))"

section \<open>The fee feed\<close>

text \<open>What one subscription to blocks gives: the base fee, the estimate and the oracle's answer.\<close>

type_synonym fee_block = "u128 option \<times> u128 option \<times> u256 option"

definition feed_session :: "fee_block list option \<Rightarrow> gas_feed \<Rightarrow> gas_feed" where
  "feed_session stream f =
     (let f = feed_reconnect f in
      case stream of
        Some blocks \<Rightarrow> fold (\<lambda>(fee, estimate, l1). feed_block fee estimate l1) blocks f
      | None \<Rightarrow> f)"

definition feed_loop :: "fee_block list option list \<Rightarrow> gas_feed \<Rightarrow> gas_feed" where
  "feed_loop streams f = fold feed_session streams f"

section \<open>The detector\<close>

record turn_env =
  te_pricing :: pricing_env
  te_skewed :: "u256 \<Rightarrow> u256 \<Rightarrow> bool exec"
  te_order :: "address set \<Rightarrow> address list"
  te_now :: u64

datatype detector_input = SyncTick | PrioritySwap swap_event | SwapReady | ForceRebuild | PoolReady new_pool_event

definition on_detector :: "(mirror \<Rightarrow> detector \<Rightarrow> detector exec) \<Rightarrow> 'p system \<Rightarrow> 'p system exec" where
  "on_detector f s = do { d \<leftarrow> f (wd_mirror (en_world (sy_engine s))) (sy_detector s); Some (s\<lparr>sy_detector := d\<rparr>) }"

text \<open>A priority event is searched without noting the activity.\<close>

definition search_priority :: "turn_env \<Rightarrow> swap_event \<Rightarrow> 'p system \<Rightarrow> 'p system exec" where
  "search_priority env ev s = do {
     (opps, d, m, found) \<leftarrow>
       process_event (te_pricing env) (te_skewed env) (te_now env) ev (sy_detector s) (wd_mirror (en_world (sy_engine s))) (sy_found s);
     Some (s\<lparr>sy_engine := with_mirror (\<lambda>_. m) (sy_engine s), sy_detector := d,
             sy_opps := sy_opps s @ opps, sy_found := found\<rparr>)
   }"

definition detector_turn :: "turn_env \<times> detector_input \<Rightarrow> 'p system \<Rightarrow> 'p system exec" where
  "detector_turn turn s =
     (let (env, input) = turn in
      case input of
        SyncTick \<Rightarrow> on_detector (sync_registry (te_order env) (te_now env)) s
      | PrioritySwap ev \<Rightarrow> search_priority env ev s
      | SwapReady \<Rightarrow>
          (case sy_swaps s of
             [] \<Rightarrow> Some s
           | ev # rest \<Rightarrow> search_swap (te_pricing env) (te_skewed env) (te_now env) ev (s\<lparr>sy_swaps := rest\<rparr>))
      | ForceRebuild \<Rightarrow> on_detector (refresh_graph (te_order env) (te_now env)) s
      | PoolReady event \<Rightarrow> on_detector (\<lambda>m. on_new_pool (te_order env) (te_now env) m event) s)"

definition detector_run :: "turn_env \<Rightarrow> (turn_env \<times> detector_input) list \<Rightarrow> 'p system \<Rightarrow> 'p system exec" where
  "detector_run env turns s = do {
     s \<leftarrow> on_detector (refresh_graph (te_order env) (te_now env)) s;
     exec_fold detector_turn turns s
   }"

section \<open>The main loop\<close>

text \<open>What the loop waits for: an opportunity, with the state of the semaphore, or the interrupt.\<close>

datatype 'e main_input = OpportunityReady "'e exec_env" treasury_env bool | Interrupt

text \<open>The system, the telemetry sent, and the bytecode file written at the end, by the given encoder.\<close>

fun main_loop ::
  "(code_list \<Rightarrow> bytes) \<Rightarrow> reporter \<Rightarrow> 'e main_input list \<Rightarrow> 'p system \<Rightarrow>
     ('p system \<times> telemetry_event list \<times> bytes option) exec" where
  "main_loop encode rp [] s = Some (s, [], None)"
| "main_loop encode rp (Interrupt # inputs) s = Some (s, [], Some (save_bytecode_cache encode (wd_mirror (en_world (sy_engine s)))))"
| "main_loop encode rp (OpportunityReady env tenv permit # inputs) s =
     (case sy_opps s of
        [] \<Rightarrow> main_loop encode rp inputs s
      | opp # rest \<Rightarrow> do {
          (evs, en) \<leftarrow> dispatch_events rp env tenv permit opp (sy_engine s);
          (s', evs', file) \<leftarrow> main_loop encode rp inputs (s\<lparr>sy_opps := rest, sy_engine := en\<rparr>);
          Some (s', evs @ evs', file)
        })"


section \<open>Streams\<close>

lemma forwarded_simps [simp]:
  "forwarded [] = []" "forwarded (Inl x # is) = x # forwarded is" "forwarded (Inr y # is) = forwarded is"
  by (simp_all add: forwarded_def List.map_filter_def)

lemma forwarded_map [simp]: "forwarded (map Inl xs) = xs" "forwarded (map Inr ys) = []"
  by (induction xs, simp_all) (induction ys, simp_all)

lemma forwarded_select: "forwarded (select_loop picks xs ys) = xs"
  by (induction picks xs ys rule: select_loop.induct) simp_all

section \<open>What a log leaves of a pool\<close>

text \<open>The state of a pool without the block it was last updated in.\<close>

definition live_state :: "mirror \<Rightarrow> address \<Rightarrow> pool_state option" where
  "live_state m a = map_option (\<lambda>p. p\<lparr>ps_last_updated_block := 0\<rparr>) (DAList.lookup (sm_pools m) a)"

lemma block_blind:
  fixes p q :: pool_state
  assumes "p\<lparr>ps_last_updated_block := 0\<rparr> = q\<lparr>ps_last_updated_block := 0\<rparr>"
  shows "p\<lparr>ps_reserves0 := x, ps_reserves1 := y, ps_last_updated_block := 0\<rparr> =
      q\<lparr>ps_reserves0 := x, ps_reserves1 := y, ps_last_updated_block := 0\<rparr>"
    and "p\<lparr>ps_sqrt_price_x96 := u, ps_tick := v, ps_liquidity := w, ps_last_updated_block := 0\<rparr> =
      q\<lparr>ps_sqrt_price_x96 := u, ps_tick := v, ps_liquidity := w, ps_last_updated_block := 0\<rparr>"
  using assms by (cases p, cases q, simp)+

lemma live_log:
  assumes "live_state m = live_state m'"
  shows "live_state (update_mirror_state l m) = live_state (update_mirror_state l m')"
proof
  fix a
  have same: "live_state m b = live_state m' b" for b using assms by simp
  from same [of a] show "live_state (update_mirror_state l m) a = live_state (update_mirror_state l m') a"
    by (cases "DAList.lookup (sm_pools m) a"; cases "DAList.lookup (sm_pools m') a")
      (auto simp: live_state_def update_mirror_state_def update_v2_reserves_def update_v3_state_def mark_dirty_def dm_lookups
        split: list.split option.split intro: block_blind)
qed

lemma live_block: "live_state (sync_block bn fee ts m) = live_state m"
  by (auto simp: live_state_def sync_block_def mark_dirty_def Let_def)

abbreviation engine_mirror :: "'p engine \<Rightarrow> mirror" where
  "engine_mirror en \<equiv> wd_mirror (en_world en)"

lemma live_items:
  assumes "live_state (engine_mirror en) = live_state m"
  shows "live_state (engine_mirror (fold heartbeat_item items en)) = live_state (fold update_mirror_state (forwarded items) m)"
  using assms
proof (induction items arbitrary: en m)
  case (Cons i items)
  show ?case
  proof (cases i)
    case (Inl l)
    have "live_state (engine_mirror (heartbeat_item i en)) = live_state (update_mirror_state l m)"
      using live_log [OF Cons.prems] by (simp add: Inl heartbeat_item_def heartbeat_log_def with_mirror_def)
    from Cons.IH [OF this] show ?thesis by (simp add: Inl)
  next
    case (Inr b)
    have "live_state (engine_mirror (heartbeat_item i en)) = live_state m"
      using Cons.prems by (simp add: Inr heartbeat_item_def heartbeat_block_def with_mirror_def Let_def live_block)
    from Cons.IH [OF this] show ?thesis by (simp add: Inr)
  qed
qed simp

section \<open>Runs\<close>

lemma run_trans: "system_run E Q F s s' \<Longrightarrow> system_run E Q F s' s'' \<Longrightarrow> system_run E Q F s s''"
  by (rotate_tac, induction rule: system_run.induct) (auto intro: system_run.intros)

lemma run_one: "system_step E Q F s s' \<Longrightarrow> system_run E Q F s s'"
  by (blast intro: system_run.intros)

lemma run_fold:
  assumes "\<And>x s. x \<in> set xs \<Longrightarrow> system_run E Q F s (f x s)"
  shows "system_run E Q F s (fold f xs s)"
  using assms
proof (induction xs arbitrary: s)
  case (Cons x xs)
  have "system_run E Q F (f x s) (fold f xs (f x s))" by (rule Cons.IH) (use Cons.prems in simp)
  with Cons.prems [of x s] show ?case by (auto intro: run_trans)
qed (auto intro: system_run.intros)

lemma run_exec_fold:
  assumes "exec_fold f xs s = Some s'" and "P s" and "\<And>x t t'. x \<in> set xs \<Longrightarrow> P t \<Longrightarrow> f x t = Some t' \<Longrightarrow> system_run E Q F t t' \<and> P t'"
  shows "system_run E Q F s s'"
  using assms
proof (induction xs arbitrary: s)
  case (Cons x xs)
  from Cons.prems(1) obtain t where t: "f x s = Some t" "exec_fold f xs t = Some s'" by (auto simp: bind_eq_Some_conv)
  have "system_run E Q F s t" "P t" using Cons.prems(3) [OF _ Cons.prems(2) t(1)] by simp_all
  moreover have "system_run E Q F t s'" by (rule Cons.IH [OF t(2) \<open>P t\<close>]) (rule Cons.prems(3), auto)
  ultimately show ?case by (auto intro: run_trans)
qed (auto intro: system_run.intros)


text \<open>In the running program nobody holds the priority channel or the force channel.\<close>

fun plain_turn :: "(new_pool_event \<Rightarrow> bool) \<Rightarrow> detector_input \<Rightarrow> bool" where
  "plain_turn F SyncTick = True"
| "plain_turn F SwapReady = True"
| "plain_turn F (PoolReady event) = F event"
| "plain_turn F (PrioritySwap _) = False"
| "plain_turn F ForceRebuild = False"

lemma turn_steps:
  fixes E :: "'e exec_env \<Rightarrow> bool" and s :: "'p system"
  assumes "detector_turn (env, input) s = Some s'" and "plain_turn F input"
  shows "system_run E Q F s s'"
proof (cases input)
  case SyncTick
  with assms(1) show ?thesis
    by (auto simp: detector_turn_def on_detector_def bind_eq_Some_conv intro!: run_one system_step.registry)
next
  case SwapReady
  show ?thesis
  proof (cases "sy_swaps s")
    case Nil
    with assms(1) SwapReady show ?thesis by (auto simp: detector_turn_def intro: system_run.stay)
  next
    case (Cons ev rest)
    with assms(1) SwapReady have "search_swap (te_pricing env) (te_skewed env) (te_now env) ev (s\<lparr>sy_swaps := rest\<rparr>) = Some s'"
      by (simp add: detector_turn_def)
    with Cons show ?thesis by (intro run_one) (rule system_step.search)
  qed
next
  case (PoolReady event)
  with assms show ?thesis
    by (auto simp: detector_turn_def on_detector_def bind_eq_Some_conv intro!: run_one system_step.pool)
qed (use assms(2) in simp_all)

lemma retain_empty: "dm_retain P DAList.empty = DAList.empty"
  unfolding dm_retain_def by transfer simp

lemma first_build:
  assumes "de_pool_registry d = DAList.empty"
  shows "sync_registry order now m d = refresh_graph order now m d"
proof -
  have "d\<lparr>de_pool_registry := DAList.empty\<rparr> = d" using assms by (cases d) simp
  then show ?thesis by (simp only: sync_registry_def assms retain_empty)
qed

section \<open>Properties\<close>

text \<open>C10 The order in which \<open>select!\<close> serves the log and the block stream is no matter for the pools: the
  mirror ends with the same live state of every pool, that of the logs alone, and the bridge gets the
  same logs.\<close>

theorem stream_order_irrelevant:
  "live_state (engine_mirror (fst (heartbeat_loop [HeartbeatUp picks (Some logs) (Some blocks)] en))) =
     live_state (fold update_mirror_state logs (engine_mirror en)) \<and>
   snd (heartbeat_loop [HeartbeatUp picks (Some logs) (Some blocks)] en) = logs"
  using live_items [OF HOL.refl, of "select_loop picks logs blocks" en] by (simp add: forwarded_select)

text \<open>The heartbeat, with every cut of its connection, only takes steps of the engine.\<close>

lemma item_step:
  fixes s :: "'p system"
  shows "system_run E Q F s (s\<lparr>sy_engine := heartbeat_item i (sy_engine s)\<rparr>)"
  by (cases i) (auto simp: heartbeat_item_def intro!: run_one system_step.task engine_step.log engine_step.block)

theorem heartbeat_refines_steps:
  fixes s :: "'p system" and E :: "'e exec_env \<Rightarrow> bool"
  shows "system_run E Q F s (s\<lparr>sy_engine := fst (heartbeat_loop cs (sy_engine s))\<rparr>)"
proof -
  have items: "system_run E Q F s (s\<lparr>sy_engine := fold heartbeat_item is (sy_engine s)\<rparr>)" for "is" and s :: "'p system"
  proof (induction "is" arbitrary: s)
    case (Cons i "is")
    from run_trans [OF item_step [where s = s and i = i] Cons.IH] show ?case by simp
  qed (simp add: system_run.stay)
  show ?thesis
  proof (induction cs arbitrary: s)
    case (Cons c cs)
    from run_trans [OF items [of s "session_items c"] Cons.IH] show ?case by (simp add: case_prod_beta Let_def)
  qed (simp add: system_run.stay)
qed

text \<open>C28 The count of blocks starts anew with every subscription: while no subscription lasts five blocks
  the fee of the L1 oracle is never read.\<close>

theorem short_sessions_keep_l1:
  assumes "\<forall>stream \<in> set streams. case stream of Some blocks \<Rightarrow> length blocks < 5 | None \<Rightarrow> True"
  shows "gf_l1_fee (feed_loop streams f) = gf_l1_fee f"
proof -
  have block: "gf_l1_fee (feed_block fee estimate l1 g) = gf_l1_fee g \<and> gf_block_count (feed_block fee estimate l1 g) = gf_block_count g + 1"
    if "0 \<le> gf_block_count g" "gf_block_count g < 4" for fee estimate l1 g
    using that by (auto simp: feed_block_def feed_priority_def wrap_i32_def wrap_signed_def Let_def split: option.split)
  have blocks: "gf_l1_fee (fold (\<lambda>(fee, estimate, l1). feed_block fee estimate l1) bs g) = gf_l1_fee g"
    if "0 \<le> gf_block_count g" "gf_block_count g + int (length bs) < 5" for bs g
    using that
  proof (induction bs arbitrary: g)
    case (Cons b bs)
    obtain fee estimate l1 where b: "b = (fee, estimate, l1)" by (cases b)
    from block [of g fee estimate l1] Cons.prems
    have one: "gf_l1_fee (feed_block fee estimate l1 g) = gf_l1_fee g" "gf_block_count (feed_block fee estimate l1 g) = gf_block_count g + 1"
      by simp_all
    with Cons.IH [of "feed_block fee estimate l1 g"] Cons.prems show ?case by (simp add: b)
  qed simp
  have session: "gf_l1_fee (feed_session st g) = gf_l1_fee g"
    if "case st of Some bs \<Rightarrow> length bs < 5 | None \<Rightarrow> True" for st g
    using that blocks [of "feed_reconnect g"] by (cases st) (simp_all add: feed_session_def feed_reconnect_def)
  from assms show ?thesis
    unfolding feed_loop_def by (induction streams arbitrary: f) (simp_all add: session)
qed

theorem short_sessions_keep_l1_witness:
  "gf_l1_fee (feed_loop (replicate 3 (Some (replicate 4 (Some 7, Some 3, Some 9)))) feed_new) = 0"
  using short_sessions_keep_l1 [of "replicate 3 (Some (replicate 4 (Some 7, Some 3, Some 9)))" feed_new]
  by (simp add: feed_new_def)

end
