(* ===== verification/Task_Facts.thy ===== *)
theory Task_Facts
  imports Task_Loops
begin

text \<open>
  What holds of the running program across its loops: the main loop and the detector take steps of the
  system, what the main loop reports, and what successive lives of the program leave in the bytecode file.
\<close>

section \<open>The main loop\<close>

definition machines_of :: "'e main_input list \<Rightarrow> 'e exec_env set" where
  "machines_of inputs = {env. \<exists>tenv permit. OpportunityReady env tenv permit \<in> set inputs}"

lemma machines_Cons [simp]:
  "machines_of (OpportunityReady env tenv permit # inputs) = insert env (machines_of inputs)"
  "machines_of (Interrupt # inputs) = machines_of inputs"
  by (auto simp: machines_of_def)

lemma reported_dispatch:
  "dispatch_events rp env tenv permit opp en = Some (evs, en') \<Longrightarrow> dispatch env tenv permit opp en = Some en'"
  using dispatch_reports_outcome(1) [of rp env tenv permit opp en] by simp

text \<open>An invariant of the main loop, by the dispatch of each opportunity of the channel.\<close>

lemma main_loop_steps:
  assumes "main_loop encode rp inputs s = Some (s', evs, saved)" and "machines_of inputs \<subseteq> Collect E" and "\<forall>opp \<in> set (sy_opps s). Q opp"
  shows "system_run E Q F s s' \<and> (\<forall>f. saved = Some f \<longrightarrow> f = save_bytecode_cache encode (engine_mirror (sy_engine s')))"
  using assms
proof (induction encode rp inputs s arbitrary: evs saved rule: main_loop.induct)
  case (3 encode rp env tenv permit inputs s)
  show ?case
  proof (cases "sy_opps s")
    case Nil
    with 3 show ?thesis by simp
  next
    case (Cons opp rest)
    with "3.prems"(1) obtain evs1 en evs2 where d: "dispatch_events rp env tenv permit opp (sy_engine s) = Some (evs1, en)"
      and m: "main_loop encode rp inputs (s\<lparr>sy_opps := rest, sy_engine := en\<rparr>) = Some (s', evs2, saved)"
      by (auto simp: bind_eq_Some_conv)
    have "system_step E Q F s (s\<lparr>sy_opps := rest, sy_engine := en\<rparr>)"
      using Cons "3.prems"(2,3) reported_dispatch [OF d] by (intro system_step.opportunity) auto
    moreover from "3.IH"(2) [OF Cons d HOL.refl m] "3.prems"(2,3) Cons
    have "system_run E Q F (s\<lparr>sy_opps := rest, sy_engine := en\<rparr>) s' \<and>
        (\<forall>f. saved = Some f \<longrightarrow> f = save_bytecode_cache encode (engine_mirror (sy_engine s')))" by simp
    ultimately show ?thesis by (blast intro: run_trans run_one)
  qed
qed (auto intro: system_run.stay)

section \<open>The skew test\<close>

lemma skew_unused:
  assumes "log_triggered ev"
  shows "skew_check skewed now ev m d = Some (m, d)"
  using assms
  by (auto simp: log_triggered_def trigger_event_def skew_check_def is_ai_swap_def is_ai_token_def TOKEN_VIRTUAL_def TOKEN_LUNA_def TOKEN_AI16Z_def)


text \<open>Searches of the running program, whose swaps come from the bridge.\<close>

lemma search_blind:
  assumes "log_triggered ev"
  shows "search_swap penv skewed now ev s = search_swap penv skewed' now ev s"
  using assms by (simp add: search_swap_def process_event_def skew_unused)

section \<open>What is reported of a silent engine\<close>

definition succeeded :: "telemetry_event \<Rightarrow> bool" where
  "succeeded ev \<longleftrightarrow> (\<exists>h p. ev = ExecutionSuccess h p)"

lemma silent_reports:
  assumes "silent x sent en" and "inert_machine x env" and "avoids x opp"
    and "dispatch_events rp env tenv permit opp en = Some (evs, en')"
  shows "\<not> list_ex succeeded evs"
proof -
  consider "evs = []"
    | found w r profit where "simulate_and_execute env opp (en_world en) = Some (w, r)"
        "evs = [OpportunityFound found (profit_eth profit),
           case r of Inl e \<Rightarrow> ExecutionFailed (rp_error rp e) | Inr h \<Rightarrow> ExecutionSuccess (rp_hash rp h) (profit_eth profit)]"
    using dispatch_reports_outcome(2) [of rp env tenv permit opp en] assms(4) by blast
  then show ?thesis
  proof cases
    case 2
    from assms(2) obtain hc where inert: "\<forall>l sm. codeless_inert (xe_sim env l) (hc l) sm x"
      unfolding inert_machine_def by blast
    have "\<exists>e. r = Inl e"
      using never_sends [OF _ _ _ _ 2(1), of hc] assms(1,3) inert by (simp add: silent_def avoids_def)
    with 2(2) show ?thesis by (auto simp: succeeded_def)
  qed simp
qed

lemma silent_main_loop:
  assumes "main_loop encode rp inputs s = Some (s', evs, saved)" and "silent x [] (sy_engine s)"
    and "machines_of inputs \<subseteq> Collect (inert_machine x)" and "\<forall>opp \<in> set (sy_opps s). avoids x opp"
  shows "\<not> list_ex succeeded evs \<and> silent x [] (sy_engine s')"
  using assms
proof (induction encode rp inputs s arbitrary: evs saved rule: main_loop.induct)
  case (3 encode rp env tenv permit inputs s)
  show ?case
  proof (cases "sy_opps s")
    case Nil
    with 3 show ?thesis by simp
  next
    case (Cons opp rest)
    with "3.prems"(1) obtain evs1 en evs2 where d: "dispatch_events rp env tenv permit opp (sy_engine s) = Some (evs1, en)"
      and m: "main_loop encode rp inputs (s\<lparr>sy_opps := rest, sy_engine := en\<rparr>) = Some (s', evs2, saved)" and evs: "evs = evs1 @ evs2"
      by (auto simp: bind_eq_Some_conv)
    have inert: "inert_machine x env" "avoids x opp" using "3.prems"(3,4) Cons by simp_all
    have "silent x [] en" by (rule silent_dispatch [OF "3.prems"(2) inert reported_dispatch [OF d]])
    with "3.IH"(2) [OF Cons d HOL.refl m] "3.prems"(3,4) Cons have "\<not> list_ex succeeded evs2 \<and> silent x [] (sy_engine s')" by simp
    with silent_reports [OF "3.prems"(2) inert d] show ?thesis by (simp add: evs)
  qed
qed simp_all

section \<open>Restarts\<close>

definition executor_of :: "('p, 's) host \<Rightarrow> address" where
  "executor_of h = parse_address_robust (ho_parse_address h) (env_default (ho_env h) ''EXECUTOR_ADDRESS'')"

text \<open>What successive lives of the program make of the bytecode file: it is saved every hour and at the
  interrupt, from any state a run has reached, whole or, when the write stops early, in part; a life may also
  end without saving. \<open>H\<close> says which hosts are started.\<close>

inductive file_history ::
  "(code_list \<Rightarrow> bytes) \<Rightarrow> (('p, 's) host \<Rightarrow> bool) \<Rightarrow> ('e exec_env \<Rightarrow> bool) \<Rightarrow> (opportunity \<Rightarrow> bool) \<Rightarrow>
    (new_pool_event \<Rightarrow> bool) \<Rightarrow> bytes option \<Rightarrow> bytes option \<Rightarrow> bool"
  for encode H E Q F where
  fresh: "file_history encode H E Q F f f"
| save: "file_history encode H E Q F f f' \<Longrightarrow> H h \<Longrightarrow> ho_bytecode_file h = f' \<Longrightarrow> run_engine h = Some (Inr b) \<Longrightarrow>
    system_run E Q F (start_system b) s \<Longrightarrow> prefix contents (save_bytecode_cache encode (engine_mirror (sy_engine s))) \<Longrightarrow>
    file_history encode H E Q F f (Some contents)"

lemma saved_codes:
  assumes "reads_back encode decode" and "prefix contents (save_bytecode_cache encode m)" and "get_bytecode m a = None"
  shows "a \<notin> codes_of decode (Some contents)"
proof -
  have "a \<notin> fst ` set (dm_entries (sm_bytecodes m))" using assms(3) lookup_entries [of "sm_bytecodes m" a] by (auto simp: get_bytecode_def)
  with read_prefix [OF assms(1) assms(2) [unfolded save_bytecode_cache_def]] show ?thesis
    by (auto simp: codes_of_def read_file_def)
qed

definition same_setup :: "address \<Rightarrow> (bytes \<rightharpoonup> code_list) \<Rightarrow> ('p, 's) host \<Rightarrow> bool" where
  "same_setup x decode h \<longleftrightarrow> executor_of h = x \<and> ho_decode_codes h = decode"

lemma history_keeps_out:
  assumes "file_history encode (same_setup x decode :: ('p, 's) host \<Rightarrow> bool) (inert_machine x :: 'e exec_env \<Rightarrow> bool)
      (avoids x) (other_pool x) f f'"
    and "reads_back encode decode" and "x \<notin> codes_of decode f"
  shows "x \<notin> codes_of decode f'"
  using assms
proof (induction rule: file_history.induct)
  case (save f f' h b s contents)
  then have "silent x [] (sy_engine s)"
    by (intro booted_silent [of h b]) (simp_all add: executor_of_def same_setup_def)
  then show ?case using saved_codes [OF save.prems(1) save.hyps(6)] by (simp add: silent_def)
qed

section \<open>The handling of the sample opportunity\<close>

lemma market_reports:
  assumes "market_state ''0x9'' s opp"
  obtains found en where "dispatch_events rp (sample_env inert_env) idle_treasury True opp (sy_engine s) =
    Some ([found, ExecutionFailed (rp_error rp (mev_error.SimulationFailed ''No lender provided profitable/robust results''))], en)"
proof -
  obtain v where "simulate_and_execute (sample_env inert_env) opp (en_world (sy_engine s)) =
      Some (v, Inl (mev_error.SimulationFailed ''No lender provided profitable/robust results''))"
    by (rule market_handled [OF assms])
  then show thesis
    using assms by (intro that) (simp add: dispatch_events_def market_state_def narrow_def sample_executor_def nine Let_def)
qed

section \<open>The loop of the detector\<close>

text \<open>Its first graph, its ticks, the swaps in its channel and the new pools, in any order.\<close>

lemma detector_steps:
  fixes E :: "'e exec_env \<Rightarrow> bool" and s :: "'p system"
  assumes "detector_run env turns s = Some s'" and "de_pool_registry (sy_detector s) = DAList.empty"
    and "\<forall>(_, input) \<in> set turns. plain_turn F input"
  shows "system_run E Q F s s'"
proof -
  let ?m = "wd_mirror (en_world (sy_engine s))"
  from assms(1) obtain d where d: "refresh_graph (te_order env) (te_now env) ?m (sy_detector s) = Some d"
      and run: "exec_fold detector_turn turns (s\<lparr>sy_detector := d\<rparr>) = Some s'"
    by (auto simp: detector_run_def on_detector_def bind_eq_Some_conv)
  have "sync_registry (te_order env) (te_now env) ?m (sy_detector s) = Some d"
    using d by (simp add: first_build [OF assms(2)])
  then have "system_run E Q F s (s\<lparr>sy_detector := d\<rparr>)" by (intro run_one) (rule system_step.registry)
  moreover have "system_run E Q F (s\<lparr>sy_detector := d\<rparr>) s'"
    by (rule run_exec_fold [OF run, where P = "\<lambda>_. True"]) (use assms(3) turn_steps in force)+
  ultimately show ?thesis by (rule run_trans)
qed

section \<open>Properties\<close>

text \<open>C2 The program never sends a bundle and never reports a success in any of its lives, whatever the lives
  before have saved, whole or torn, and the main loop, run on from any state this life has reached, leaves a
  file without the executor contract: if the file did not hold the contract before the first life, the
  format of the file reads back what was written and rejects a part of it, and every life is started with the
  same executor address; and if in every life the simulating machine treats accounts without code as inert,
  no hop of an opportunity that is handled has the contract as its pool or its output token, and no announced
  pool is the contract.\<close>

theorem restarts_stay_silent:
  assumes "reads_back encode decode"
    and "file_history encode (same_setup x decode :: ('p, 's) host \<Rightarrow> bool) (inert_machine x :: 'e exec_env \<Rightarrow> bool)
      (avoids x) (other_pool x) f f'"
    and "x \<notin> codes_of decode f" and "ho_bytecode_file h = f'" and "same_setup x decode h"
    and "run_engine h = Some (Inr b)"
    and "system_run (inert_machine x :: 'e exec_env \<Rightarrow> bool) (avoids x) (other_pool x) (start_system b) s"
    and "main_loop encode rp inputs s = Some (s', evs, saved)"
    and "machines_of inputs \<subseteq> Collect (inert_machine x :: 'e exec_env \<Rightarrow> bool)" and "\<forall>opp \<in> set (sy_opps s). avoids x opp"
  shows "wd_sent (en_world (sy_engine s')) = [] \<and> \<not> list_ex succeeded evs \<and>
    (\<forall>g. saved = Some g \<longrightarrow> x \<notin> codes_of decode (Some g))"
proof -
  have "x \<notin> codes_of decode f'" by (rule history_keeps_out [OF assms(2,1,3)])
  then have "silent x [] (sy_engine s)"
    using assms(4,5) by (intro booted_silent [OF assms(6) _ assms(7)]) (simp_all add: executor_of_def same_setup_def)
  from silent_main_loop [OF assms(8) this assms(9,10)] have quiet: "\<not> list_ex succeeded evs" "silent x [] (sy_engine s')" by simp_all
  have "x \<notin> codes_of decode (Some g)" if "saved = Some g" for g
  proof -
    have "g = save_bytecode_cache encode (engine_mirror (sy_engine s'))"
      using main_loop_steps [OF assms(8,9), of "\<lambda>_. True"] that by simp
    then show ?thesis using quiet(2) by (intro saved_codes [OF assms(1), of g "engine_mirror (sy_engine s')"]) (simp_all add: silent_def)
  qed
  with quiet show ?thesis by (simp add: silent_def)
qed

definition plain_reporter :: reporter where
  "plain_reporter = \<lparr>rp_path = (\<lambda>_. []), rp_error = (\<lambda>_. []), rp_hash = (\<lambda>_. [])\<rparr>"

text \<open>A life that saves the bytecode file, and a second one in which an opportunity is found and handled up to the
  simulations, reported as failed, and the interrupt ends the program.\<close>

theorem restarts_stay_silent_witness:
  "\<exists>s s' opp found evs g. file_history put_codes (same_setup 9 read_codes :: (unit, unit) host \<Rightarrow> bool)
       (inert_machine 9 :: (address \<Rightarrow> bool) exec_env \<Rightarrow> bool) (avoids 9) (other_pool 9)
       (Some (put_codes [(7, [0x60])])) (ho_bytecode_file (sample_host ''0x9'' (Some [(5, traded_pool)]))) \<and>
     system_run (inert_machine 9 :: (address \<Rightarrow> bool) exec_env \<Rightarrow> bool) (avoids 9) (other_pool 9)
       (start_system (sample_booted ''0x9'' (Some [(5, traded_pool)]))) s \<and> sy_opps s = [opp] \<and>
     main_loop put_codes plain_reporter [OpportunityReady (sample_env inert_env) idle_treasury True, Interrupt] s = Some (s', evs, Some g) \<and>
     evs = [found, ExecutionFailed []] \<and> sy_opps s' = [] \<and> wd_sent (en_world (sy_engine s')) = [] \<and>
     9 \<notin> codes_of read_codes (Some g)"
proof -
  let ?cp = "Some [(5, traded_pool)]" and ?f = "Some (put_codes sample_codes)"
  let ?h = "sample_host ''0x9'' ?cp" and ?b = "sample_booted ''0x9'' ?cp"
  let ?E = "inert_machine 9 :: (address \<Rightarrow> bool) exec_env \<Rightarrow> bool"
  let ?hist = "file_history put_codes (same_setup 9 read_codes :: (unit, unit) host \<Rightarrow> bool) ?E (avoids 9) (other_pool 9)"
  have host: "same_setup 9 read_codes ?h" "ho_bytecode_file ?h = ?f"
    by (simp_all add: same_setup_def executor_of_def sample_host_def env_default_def nine)
  have saved: "save_bytecode_cache put_codes (engine_mirror (sy_engine (start_system ?b))) = put_codes sample_codes"
    by (simp add: start_system_def sample_booted_def sample_mirrors market_mirror_def save_bytecode_cache_def mirror_new_def
        load_state_checkpoint_def load_bytecode_cache_def sample_codes_def dm_entries_def update.rep_eq empty.rep_eq)
  have hist: "?hist ?f ?f"
    by (rule file_history.save [where s = "start_system ?b" and h = ?h and f' = ?f and b = ?b])
      (rule file_history.fresh host sample_boots system_run.stay | simp only: saved prefix_order.order_refl)+
  obtain s opp where run: "system_run ?E (avoids 9) (other_pool 9) (start_system ?b) s" and st: "market_state ''0x9'' s opp"
    by (rule market_runs [of "other_pool 9"]) (simp add: other_pool_def pool_of_event_def market_event_def)
  have opps: "sy_opps s = [opp]" using st by (simp add: market_state_def Let_def)
  obtain found en where d: "dispatch_events plain_reporter (sample_env inert_env) idle_treasury True opp (sy_engine s) =
      Some ([found, ExecutionFailed []], en)"
    using market_reports [OF st, of plain_reporter] by (auto simp: plain_reporter_def)
  let ?inputs = "[OpportunityReady (sample_env inert_env) idle_treasury True, Interrupt]"
  obtain s' g where m: "main_loop put_codes plain_reporter ?inputs s = Some (s', [found, ExecutionFailed []], Some g)"
      "sy_opps s' = []"
    using opps d by simp
  have "machines_of ?inputs \<subseteq> Collect ?E" by (auto simp: machines_of_def sample_inert)
  moreover have "\<forall>opp \<in> set (sy_opps s). avoids 9 opp" using opps market_avoids [OF st] by simp
  ultimately have "wd_sent (en_world (sy_engine s')) = [] \<and> 9 \<notin> codes_of read_codes (Some g)"
    using restarts_stay_silent [OF codes_read_back hist _ host(2,1) sample_boots run m(1)] by simp
  with hist run opps m host(2) show ?thesis by (auto simp: sample_codes_def)
qed

text \<open>C19 The skew test is never made: from a start-up, the search of a swap in the detector's channel does not
  depend on it, not even on whether it would panic, because the bridge leaves the tokens of a swap zero.\<close>

theorem booted_skew_unused:
  assumes "run_engine h = Some (Inr b)" and "system_run E Q F (start_system b) s" and "ev \<in> set (sy_swaps s)"
  shows "search_swap penv skewed now ev t = search_swap penv skewed' now ev t"
  using channels_run [OF assms(2)] assms(3) by (intro search_blind) (simp add: channels_def)

theorem booted_skew_unused_witness:
  "\<exists>s. run_engine (sample_host ''0x9'' (Some [(5, traded_pool)])) = Some (Inr (sample_booted ''0x9'' (Some [(5, traded_pool)]))) \<and>
     sy_swaps s = [trigger_event 0 1 5] \<and>
     system_run (\<lambda>_ :: unit exec_env. False) (\<lambda>_. False) (\<lambda>_. False) (start_system (sample_booted ''0x9'' (Some [(5, traded_pool)]))) s \<and>
     search_swap market_pricing (\<lambda>_ _. None) 0 (trigger_event 0 1 5) s = search_swap market_pricing (\<lambda>_ _. Some True) 0 (trigger_event 0 1 5) s"
proof -
  let ?b = "sample_booted ''0x9'' (Some [(5, traded_pool)])"
  let ?s = "bridge_send 0 market_log (start_system ?b)"
  have "dm_contains (sm_pools market_mirror) 5"
    by (simp add: market_mirror_def mirror_new_def load_state_checkpoint_def dm_contains_def lookup_update)
  then have swaps: "sy_swaps ?s = [trigger_event 0 1 5]"
    by (simp add: bridge_send_def bridge_log_def market_log_def start_system_def sample_booted_def boot_components_def
        boot_world_def sample_mirrors Let_def)
  have run: "system_run (\<lambda>_ :: unit exec_env. False) (\<lambda>_. False) (\<lambda>_. False) (start_system ?b) ?s"
    by (rule run_one) (rule system_step.bridge)
  have "search_swap market_pricing (\<lambda>_ _. None) 0 (trigger_event 0 1 5) ?s = search_swap market_pricing (\<lambda>_ _. Some True) 0 (trigger_event 0 1 5) ?s"
    by (rule booted_skew_unused [OF sample_boots run]) (simp add: swaps)
  with swaps run sample_boots show ?thesis by blast
qed

section \<open>The report of the fees\<close>

text \<open>Every ten seconds the fees are logged in gwei, as 128-bit numbers.\<close>

definition gas_report :: "gas_feed \<Rightarrow> (f64 \<times> f64) exec" where
  "gas_report f = do {
     let (base, priority, _) = feed_current f;
     b \<leftarrow> (narrow base :: u128 exec);
     p \<leftarrow> (narrow priority :: u128 exec);
     Some (fdiv (of_word b) (lit (10 ^ 9) 1), fdiv (of_word p) (lit (10 ^ 9) 1))
   }"

lemma median_of_one: "overshoot_median [v] = (v * 112) div 100"
  by (simp add: overshoot_median_def)

text \<open>A first estimate close enough to the largest 128-bit number ends the process: twelve per cent are
  added to it and the report converts the sum to 128 bits.\<close>

theorem high_estimate_panics_report:
  "gas_report (feed_session (Some [(fee, Some v, l1)]) feed_new) = None \<longleftrightarrow> 2 ^ 128 * 100 \<le> unat v * 112"
proof -
  let ?f = "feed_session (Some [(fee, Some v, l1)]) feed_new" and ?p = "((ucast v :: u256) * 112) div 100"
  have small: "unat v < 2 ^ 128" using unsigned_less [of v, where ?'a = nat] by simp
  have wide: "unat (ucast w :: u256) = unat w" for w :: u128
    using order.strict_trans [OF unsigned_less [of w, where ?'a = nat], of "2 ^ 256"] by (simp add: unsigned_ucast_eq take_bit_nat_eq_self_iff)
  have "unat v * 112 < 2 ^ 128 * 112" by (rule mult_strict_right_mono [OF small]) simp
  also have "\<dots> \<le> (2 ^ 256 :: nat)" by simp
  finally have "unat (ucast v :: u256) * unat (112 :: u256) < 2 ^ LENGTH(256)" by (simp add: wide)
  then have "unat ((ucast v :: u256) * 112) = unat v * 112"
    by (subst unat_mult_lem [THEN iffD1]) (simp_all add: wide)
  then have fee: "unat ?p = unat v * 112 div 100" by (simp add: unat_div)
  have "gf_priority_fee ?f = ?p" "unat (gf_base_fee ?f) < 2 ^ 128"
    using unsigned_less [where ?'a = nat, of "case fee of Some b \<Rightarrow> b | None \<Rightarrow> (0 :: u128)"]
    by (simp_all add: feed_session_def feed_reconnect_def feed_new_def feed_block_def feed_priority_def push_priority_def
        median_of_one wrap_i32_def wrap_signed_def Let_def wide split: option.split)
  then have "gas_report ?f = None \<longleftrightarrow> \<not> unat ?p < 2 ^ 128"
    by (simp add: gas_report_def feed_current_def narrow_def)
  also have "\<dots> \<longleftrightarrow> 2 ^ 128 * 100 \<le> unat v * 112" unfolding fee by (simp add: not_less) linarith
  finally show ?thesis .
qed

end
