(* ===== verification/Task_Services.thy ===== *)
theory Task_Services
  imports Task_Loops
begin

text \<open>
  The other loops \<open>main.rs\<close> spawns: the bridge, the initialisation worker, the pool feed, the upkeep of the
  wallet and the daily report. The pool feed reads a broadcast channel, whose \<open>recv\<close> gives an error when
  the channel is closed and also when the receiver has fallen behind; what it gives is an argument.
\<close>

section \<open>The loops\<close>

definition bridge_loop :: "(u64 \<times> rpc_log) list \<Rightarrow> 'p system \<Rightarrow> 'p system" where
  "bridge_loop logs s = fold (\<lambda>(now, l). bridge_send now l) logs s"

text \<open>A turn of the worker: the clock, the code of the account and the answers to the multicall.\<close>

definition init_loop ::
  "bytes decoders \<Rightarrow> (u64 \<times> bytes option \<times> (bool \<times> bytes) list option list) list \<Rightarrow> 'p engine \<Rightarrow> 'p engine exec" where
  "init_loop D turns en = exec_fold (\<lambda>(now, code, replies). init_worker D now code replies) turns en"

datatype recv_error = RecvLagged u64 | RecvClosed

type_synonym received = "u64 \<times> (recv_error + new_pool_event)"

text \<open>\<open>while let Ok(event)\<close>: every error ends the feed.\<close>

fun pool_feed_loop :: "received list \<Rightarrow> 'p engine \<Rightarrow> 'p engine" where
  "pool_feed_loop [] en = en"
| "pool_feed_loop ((now, Inl e) # rs) en = en"
| "pool_feed_loop ((now, Inr event) # rs) en = pool_feed_loop rs (pool_feed now event en)"

text \<open>What the upkeep task waits for: a tick, or during a sweep the answers that take it on.\<close>

datatype upkeep_tick = GasCheckTick "string + u256" "u256 option" | HarvestTick sweep_env | SweepReply sweep_env

fun upkeep_turn :: "upkeep_tick \<Rightarrow> 'p engine \<Rightarrow> 'p engine" where
  "upkeep_turn (GasCheckTick eth weth) en = (if en_sweep en = None then gas_check eth weth en else en)"
| "upkeep_turn (HarvestTick env) en = (if en_sweep en = None then harvest env en else en)"
| "upkeep_turn (SweepReply env) en = sweep_advance env en"

definition upkeep_loop :: "upkeep_tick list \<Rightarrow> 'p engine \<Rightarrow> 'p engine" where
  "upkeep_loop ticks en = fold upkeep_turn ticks en"

fun report_loop :: "nat \<Rightarrow> 'p engine \<Rightarrow> 'p engine" where
  "report_loop 0 en = en"
| "report_loop (Suc days) en = report_loop days (daily_report en)"

section \<open>The loops take steps of the system\<close>

lemma run_engine_fold:
  fixes s :: "'p system"
  assumes "\<And>x en. x \<in> set xs \<Longrightarrow> f x en = en \<or> engine_step (\<lambda>_ :: 'e exec_env. False) (\<lambda>_. False) F en (f x en)"
  shows "system_run (E :: 'e exec_env \<Rightarrow> bool) Q F s (s\<lparr>sy_engine := fold f xs (sy_engine s)\<rparr>)"
  using assms
proof (induction xs arbitrary: s)
  case (Cons x xs)
  have "system_run E Q F s (s\<lparr>sy_engine := f x (sy_engine s)\<rparr>)"
    using Cons.prems [of x "sy_engine s"] by (auto intro: run_one system_step.task system_run.stay)
  moreover have "system_run E Q F t (t\<lparr>sy_engine := fold f xs (sy_engine t)\<rparr>)" for t :: "'p system"
    by (rule Cons.IH) (rule Cons.prems, simp)
  from this [of "s\<lparr>sy_engine := f x (sy_engine s)\<rparr>"]
  have "system_run E Q F (s\<lparr>sy_engine := f x (sy_engine s)\<rparr>) (s\<lparr>sy_engine := fold f (x # xs) (sy_engine s)\<rparr>)" by simp
  ultimately show ?case by (rule run_trans)
qed (simp add: system_run.stay)

text \<open>The feed is a fold over what comes before the first error.\<close>

definition fed :: "received list \<Rightarrow> (u64 \<times> new_pool_event) list" where
  "fed rs = List.map_filter (\<lambda>(now, r). case r of Inr ev \<Rightarrow> Some (now, ev) | Inl _ \<Rightarrow> None)
     (takeWhile (\<lambda>(_, r). case r of Inr _ \<Rightarrow> True | Inl _ \<Rightarrow> False) rs)"

lemma fed_simps [simp]:
  "fed [] = []" "fed ((now, Inl e) # rs) = []" "fed ((now, Inr ev) # rs) = (now, ev) # fed rs"
  by (simp_all add: fed_def List.map_filter_def)

lemma feed_fold: "pool_feed_loop rs en = fold (\<lambda>(now, ev). pool_feed now ev) (fed rs) en"
  by (induction rs en rule: pool_feed_loop.induct) simp_all

lemma report_fold: "report_loop days en = fold (\<lambda>_. daily_report) [0..<days] en"
proof (induction days arbitrary: en)
  case (Suc days)
  have "fold (\<lambda>_. daily_report) ks (daily_report e) = daily_report (fold (\<lambda>_. daily_report) ks e)" for ks :: "nat list" and e :: "'a engine"
    by (induction ks arbitrary: e) simp_all
  with Suc show ?case by simp
qed simp

theorem services_refine_steps:
  fixes s :: "'p system" and E :: "'e exec_env \<Rightarrow> bool"
  shows "system_run E Q F s (bridge_loop logs s)"
    and "system_run E Q F s (s\<lparr>sy_engine := upkeep_loop ticks (sy_engine s)\<rparr>)"
    and "system_run E Q F s (s\<lparr>sy_engine := report_loop days (sy_engine s)\<rparr>)"
    and "\<forall>(_, ev) \<in> set (fed rs). F ev \<Longrightarrow> system_run E Q F s (s\<lparr>sy_engine := pool_feed_loop rs (sy_engine s)\<rparr>)"
proof -
  show "system_run E Q F s (bridge_loop logs s)"
    unfolding bridge_loop_def by (rule run_fold) (auto intro: run_one system_step.bridge)
  show "system_run E Q F s (s\<lparr>sy_engine := upkeep_loop ticks (sy_engine s)\<rparr>)"
    unfolding upkeep_loop_def
  proof (rule run_engine_fold)
    show "upkeep_turn x en = en \<or> engine_step (\<lambda>_ :: 'e exec_env. False) (\<lambda>_. False) F en (upkeep_turn x en)" for x and en :: "'p engine"
      by (cases x) (simp_all add: engine_step.gas engine_step.sweep engine_step.sweep_turn)
  qed
  show "system_run E Q F s (s\<lparr>sy_engine := report_loop days (sy_engine s)\<rparr>)"
    unfolding report_fold by (rule run_engine_fold) (blast intro: engine_step.report)
  show "system_run E Q F s (s\<lparr>sy_engine := pool_feed_loop rs (sy_engine s)\<rparr>)" if "\<forall>(_, ev) \<in> set (fed rs). F ev"
    unfolding feed_fold by (rule run_engine_fold) (use that in \<open>auto intro: engine_step.feed\<close>)
qed

section \<open>What the feed makes known\<close>

definition fed_pools :: "received list \<Rightarrow> address set" where
  "fed_pools rs = (\<lambda>(_, ev). fst (pool_of_event ev)) ` set (fed rs)"

abbreviation mirrored :: "'p engine \<Rightarrow> address \<Rightarrow> bool" where
  "mirrored en a \<equiv> dm_contains (sm_pools (engine_mirror en)) a"

lemma mirrored_feed: "mirrored (pool_feed now ev en) a \<longleftrightarrow> mirrored en a \<or> a = fst (pool_of_event ev)"
  by (auto simp: pool_feed_def with_mirror_def update_aerodrome_stable_def mark_dirty_def dm_contains_def dm_lookups
      lookup_update Let_def split: new_pool_event.split prod.split)

lemma mirrored_feed_fold:
  "mirrored (fold (\<lambda>(now, ev). pool_feed now ev) evs en) a \<longleftrightarrow>
     mirrored en a \<or> a \<in> (\<lambda>(_, ev). fst (pool_of_event ev)) ` set evs"
  by (induction evs arbitrary: en) (auto simp: mirrored_feed)

lemma fed_until_error: "fed (pre @ (now, Inl e) # post) = fed pre"
  by (induction pre rule: pool_feed_loop.induct [where ?a1.0 = undefined]) auto

section \<open>Properties\<close>

text \<open>C39 The pool feed ends for good at the first error of its channel, a lag as well as a close: whatever
  comes after it changes nothing. The mirror then knows exactly the pools it knew and those received
  before, and the bridge passes on a log of an unseen transaction exactly if it comes from one of these.\<close>

theorem feed_ends_at_lag:
  "pool_feed_loop (pre @ (now, Inl e) # post) en = pool_feed_loop pre en \<and>
   fst (bridge_log t l (pool_feed_loop (pre @ (now, Inl e) # post) en)) =
     (let h = (case lg_transaction_hash l of Some h \<Rightarrow> h | None \<Rightarrow> 0) in
      if h \<notin> en_seen_hashes en \<and> (mirrored en (lg_address l) \<or> lg_address l \<in> fed_pools pre)
      then Some (trigger_event t h (lg_address l)) else None)"
proof -
  have cut: "pool_feed_loop (pre @ (now, Inl e) # post) en = pool_feed_loop pre en"
    by (simp add: feed_fold fed_until_error)
  have seen: "en_seen_hashes (fold (\<lambda>(now, ev). pool_feed now ev) evs en) = en_seen_hashes en" for evs
    by (induction evs arbitrary: en)
      (auto simp: pool_feed_def with_mirror_def Let_def split: new_pool_event.split prod.split)
  show ?thesis
    unfolding cut by (simp add: bridge_log_def feed_fold seen mirrored_feed_fold fed_pools_def Let_def)
qed

end
