(* ===== verification/Unit_Tests.thy ===== *)
theory Unit_Tests
  imports Float_Facts Decoder_Facts Tick_Table
begin

text \<open>
  The unit tests of the crate, one definition each, on the model: a test is a computation that panics
  (\<open>None\<close>) when an assertion fails. \<open>powi\<close> is repeated multiplication here.
\<close>

section \<open>Assertions\<close>

definition assert_true :: "bool \<Rightarrow> unit exec" where
  "assert_true P = (if P then Some () else None)"

definition powi_mul :: int_power where
  "powi_mul x n = (if n = 2 then fmul x x else fmul (fmul x x) x)"

section \<open>The tests\<close>

definition test_tick_zero :: "unit exec" where
  "test_tick_zero = assert_true (get_sqrt_ratio_at_tick 0 = q96)"

definition test_aerodrome_stable_k_logic :: "unit exec" where
  "test_aerodrome_stable_k_logic =
     (let r0 = 1000 * 10 ^ 18; r1 = 1000 * 10 ^ 18; k = aerodrome_k r0 r1 in assert_true (k \<noteq> 0))"

definition test_aerodrome_stable_output_stability :: "u64 \<Rightarrow> unit exec" where
  "test_aerodrome_stable_output_stability now = do {
     let state = (default_pool_state now)\<lparr>ps_reserves0 := 1000 * 10 ^ 18, ps_reserves1 := 1000 * 10 ^ 18, ps_is_stable := True\<rparr>;
     let amount_in = 10 ^ 18;
     out \<leftarrow> get_aerodrome_output (aerodrome_guess powi_mul) amount_in state True;
     _ \<leftarrow> assert_true (out > 990 * 10 ^ 15);
     assert_true (out < amount_in)
   }"

definition mock_price :: "u256 \<Rightarrow> f64 exec" where
  "mock_price x = do { v \<leftarrow> (narrow x :: u128 exec); Some (fsub (lit 11 10) (fdiv (of_word v) (lit (10 ^ 21) 1))) }"

definition test_newton_optimizer_convergence :: "unit exec" where
  "test_newton_optimizer_convergence = do {
     optimal \<leftarrow> find_optimal_input_newton (10 ^ 18) mock_price;
     let target = 100 * 10 ^ 18;
     let diff = (if optimal > target then optimal - target else target - optimal);
     assert_true (diff < 10 ^ 14)
   }"

definition test_l1_fee_estimation_logic :: "unit exec" where
  "test_l1_fee_estimation_logic = do {
     let scalars = \<lparr>ec_base_fee_scalar = 1360, ec_blob_fee_scalar = 1360, ec_l1_base_fee = 1000000000,
       ec_l1_blob_fee = 1000000, ec_decimals = 6, ec_last_updated = 1234567\<rparr>;
     r \<leftarrow> estimate_l1_fee scalars Base [0xaa, 0xbb, 0x00, 0x11];
     case r of Inl _ \<Rightarrow> None | Inr fee \<Rightarrow> assert_true (fee > 0)
   }"

definition test_v3_path_decoding :: "unit exec" where
  "test_v3_path_decoding = do {
     let path = to_be_bytes (0x4200000000000000000000000000000000000006 :: address) @ [0x00, 0x01, 0xf4] @
       to_be_bytes (0x833589fcd6edb6e08f4c7c32d4f71b54bda02913 :: address);
     let decoded = fast_decode_v3_path path;
     _ \<leftarrow> assert_true (length decoded = 1);
     first \<leftarrow> index decoded 0;
     assert_true (fst (snd first) = 500)
   }"

definition test_pool_state_default :: "u64 \<Rightarrow> unit exec" where
  "test_pool_state_default now = assert_true (ps_reserves0 (default_pool_state now) = 0)"

definition test_gas_state_default :: "unit exec" where
  "test_gas_state_default = assert_true (gs_base_fee default_gas_state = 0)"

section \<open>Evaluation\<close>

text \<open>\<open>narrow\<close> without a detour through the natural numbers.\<close>

lemma narrow_code [code]:
  "(narrow (w :: 'a::len word) :: 'b::len word exec) = (if drop_bit LENGTH('b) w = 0 then Some (ucast w) else None)"
proof -
  have "unat (drop_bit LENGTH('b) w) = unat w div 2 ^ LENGTH('b)" by (simp add: unat_drop_bit_eq flip: drop_bit_eq_div)
  then have "drop_bit LENGTH('b) w = 0 \<longleftrightarrow> unat w < 2 ^ LENGTH('b)"
    by (metis div_eq_0_iff power_not_zero unat_eq_zero zero_neq_numeral)
  then show ?thesis by (simp add: narrow_def)
qed

text \<open>The search, from one ether to within two gwei of a hundred.\<close>

lemma newton_mock: "find_optimal_input_newton (10 ^ 18) mock_price = Some 99999999998260428800"
  by code_simp

lemma output_fields:
  "ps_reserves0 p = ps_reserves0 q \<Longrightarrow> ps_reserves1 p = ps_reserves1 q \<Longrightarrow> ps_is_stable p = ps_is_stable q \<Longrightarrow>
   get_aerodrome_output g a p z = get_aerodrome_output g a q z"
  by (simp add: get_aerodrome_output_def get_v2_output_def Let_def cong: if_cong)

lemma stable_mock_0:
  "get_aerodrome_output (aerodrome_guess powi_mul) (10 ^ 18)
     ((default_pool_state 0)\<lparr>ps_reserves0 := 1000 * 10 ^ 18, ps_reserves1 := 1000 * 10 ^ 18, ps_is_stable := True\<rparr>) True =
   Some 999699999500599730"
  by code_simp

lemma stable_mock:
  "get_aerodrome_output (aerodrome_guess powi_mul) (10 ^ 18)
     ((default_pool_state now)\<lparr>ps_reserves0 := 1000 * 10 ^ 18, ps_reserves1 := 1000 * 10 ^ 18, ps_is_stable := True\<rparr>) True =
   Some 999699999500599730"
  by (rule trans [OF output_fields stable_mock_0]) simp_all

section \<open>Properties\<close>

text \<open>All unit tests of the crate pass on the model.\<close>

theorem unit_tests_pass:
  "test_tick_zero = Some () \<and> test_aerodrome_stable_k_logic = Some () \<and>
   test_aerodrome_stable_output_stability now = Some () \<and> test_newton_optimizer_convergence = Some () \<and>
   test_l1_fee_estimation_logic = Some () \<and> test_v3_path_decoding = Some () \<and>
   test_pool_state_default now = Some () \<and> test_gas_state_default = Some ()"
proof (intro conjI)
  show "test_tick_zero = Some ()"
    by (simp add: test_tick_zero_def assert_true_def ratio_at_0)
  show "test_aerodrome_stable_k_logic = Some ()" by code_simp
  show "test_aerodrome_stable_output_stability now = Some ()"
    by (simp add: test_aerodrome_stable_output_stability_def stable_mock [simplified] assert_true_def)
  show "test_newton_optimizer_convergence = Some ()"
    using newton_mock by (simp add: test_newton_optimizer_convergence_def assert_true_def)
  show "test_l1_fee_estimation_logic = Some ()" by code_simp
  show "test_v3_path_decoding = Some ()"
  proof -
    let ?a = "0x4200000000000000000000000000000000000006 :: address" and ?b = "0x833589fcd6edb6e08f4c7c32d4f71b54bda02913 :: address"
    have "packed_hop (500, ?b) = [0x00, 0x01, 0xf4] @ to_be_bytes ?b" by (simp add: packed_hop_def numeral_3_eq_3 be_digits.simps)
    then have "v3_path_from (to_be_bytes ?a @ [0x00, 0x01, 0xf4] @ to_be_bytes ?b) = [(?a, 500, ?b)]"
      using v3_path_packed [of "[(500, ?b)]" ?a] by simp
    then show ?thesis by (simp add: test_v3_path_decoding_def fast_decode_v3_path_def assert_true_def index_def)
  qed
  show "test_pool_state_default now = Some ()" by (simp add: test_pool_state_default_def default_pool_state_def assert_true_def)
  show "test_gas_state_default = Some ()" by (simp add: test_gas_state_default_def default_gas_state_def assert_true_def)
qed

end
