(* ===== verification/Unread_Constants.thy ===== *)
theory Unread_Constants
  imports Universal_Decoder Float64 Log_Pipeline
begin

text \<open>
  The constants of \<open>src/constants.rs\<close> that no other module reads, and where they disagree with the
  code that should read them: the decoder's table, the bytecode scan, the core pools.
\<close>

section \<open>Single values\<close>

definition ENV_RPC_URL :: string where "ENV_RPC_URL = ''SHADOW_RPC_URL''"
definition ENV_WS_URL :: string where "ENV_WS_URL = ''SHADOW_WS_URL''"
definition ENV_HTTP_URL :: string where "ENV_HTTP_URL = ''SHADOW_HTTP_URL''"
definition ENV_PRIVATE_KEY :: string where "ENV_PRIVATE_KEY = ''SHADOW_PRIVATE_KEY''"
definition ENV_FLASHBOTS_RELAY :: string where "ENV_FLASHBOTS_RELAY = ''SHADOW_FLASHBOTS_RELAY''"
definition ENV_GAS_VAULT_ADDRESS :: string where "ENV_GAS_VAULT_ADDRESS = ''SHADOW_GAS_VAULT''"
definition ENV_EXECUTOR_ADDRESS :: string where "ENV_EXECUTOR_ADDRESS = ''SHADOW_EXECUTOR_ADDRESS''"
definition TOKEN_AIXBT :: address where "TOKEN_AIXBT = 0x4f9fd6be4a90f2620860d680c0d4d5fb53d1a84e"
definition TOKEN_HIGHER :: address where "TOKEN_HIGHER = 0x057871a20512f5343046bc3a531557d903698064"
definition TOKEN_MOXIE :: address where "TOKEN_MOXIE = 0x8e903254580327429402f0d4f907693998d654b9"
definition POOL_UNIV3_WETH_DAI :: address where "POOL_UNIV3_WETH_DAI = 0xd9e885b1e6a6b8f7fe1e6e9b5e5e5e5e5e5e5e5e"
definition POOL_SUSHI_WETH_DEGEN :: address where "POOL_SUSHI_WETH_DEGEN = 0xc9034c3e7242654fd148e934814510d0e9436db4"
definition MIN_NET_PROFIT_USD_WEI :: u128 where "MIN_NET_PROFIT_USD_WEI = 60000000000000"
definition MIN_ALPHA_LIQUIDITY_USD :: u128 where "MIN_ALPHA_LIQUIDITY_USD = 300"
definition MIN_AI_LIQUIDITY_USD :: u128 where "MIN_AI_LIQUIDITY_USD = 10000"
definition SELECTOR_UNISWAP_V2_SWAP_EXACT_TOKENS_FOR_TOKENS :: bytes where "SELECTOR_UNISWAP_V2_SWAP_EXACT_TOKENS_FOR_TOKENS = [0x38, 0xed, 0x17, 0x39]"
definition SELECTOR_UNISWAP_V2_SWAP_TOKENS_FOR_EXACT_TOKENS :: bytes where "SELECTOR_UNISWAP_V2_SWAP_TOKENS_FOR_EXACT_TOKENS = [0x88, 0x03, 0xdb, 0xee]"
definition SELECTOR_UNISWAP_V2_SWAP_EXACT_ETH_FOR_TOKENS :: bytes where "SELECTOR_UNISWAP_V2_SWAP_EXACT_ETH_FOR_TOKENS = [0x7f, 0xf3, 0x6a, 0xb5]"
definition SELECTOR_UNISWAP_V2_SWAP_TOKENS_FOR_EXACT_ETH :: bytes where "SELECTOR_UNISWAP_V2_SWAP_TOKENS_FOR_EXACT_ETH = [0x4a, 0x25, 0xd9, 0x4a]"
definition SELECTOR_UNISWAP_V2_SWAP_EXACT_TOKENS_FOR_ETH :: bytes where "SELECTOR_UNISWAP_V2_SWAP_EXACT_TOKENS_FOR_ETH = [0x18, 0xcb, 0xaf, 0xe5]"
definition SELECTOR_UNISWAP_V2_SWAP_ETH_FOR_EXACT_TOKENS :: bytes where "SELECTOR_UNISWAP_V2_SWAP_ETH_FOR_EXACT_TOKENS = [0xfb, 0x3b, 0xdb, 0x41]"
definition SELECTOR_UNISWAP_V3_EXACT_INPUT :: bytes where "SELECTOR_UNISWAP_V3_EXACT_INPUT = [0xb1, 0x58, 0x5b, 0x3f]"
definition SELECTOR_UNISWAP_V3_EXACT_OUTPUT :: bytes where "SELECTOR_UNISWAP_V3_EXACT_OUTPUT = [0x2a, 0x8e, 0x59, 0x8b]"
definition SELECTOR_UNISWAP_V3_EXACT_INPUT_SINGLE :: bytes where "SELECTOR_UNISWAP_V3_EXACT_INPUT_SINGLE = [0x41, 0x4b, 0xf3, 0x89]"
definition SELECTOR_UNISWAP_V3_EXACT_OUTPUT_SINGLE :: bytes where "SELECTOR_UNISWAP_V3_EXACT_OUTPUT_SINGLE = [0xdb, 0x3e, 0x21, 0x98]"
definition SELECTOR_UNIVERSAL_ROUTER_EXECUTE :: bytes where "SELECTOR_UNIVERSAL_ROUTER_EXECUTE = [0x35, 0x93, 0x56, 0x4c]"
definition SELECTOR_MULTICALL3 :: bytes where "SELECTOR_MULTICALL3 = [0xca, 0x02, 0x4c, 0x08]"
definition SELECTOR_MULTICALL :: bytes where "SELECTOR_MULTICALL = [0xac, 0x96, 0x50, 0xd8]"
definition SELECTOR_CURVE_EXCHANGE :: bytes where "SELECTOR_CURVE_EXCHANGE = [0x3d, 0xf0, 0x21, 0x24]"
definition SELECTOR_CURVE_EXCHANGE_UNDERLYING :: bytes where "SELECTOR_CURVE_EXCHANGE_UNDERLYING = [0xa6, 0x41, 0x47, 0x5a]"
definition SELECTOR_CURVE_EXCHANGE_AT_DYNAMIC :: bytes where "SELECTOR_CURVE_EXCHANGE_AT_DYNAMIC = [0x53, 0xc3, 0x5a, 0x56]"
definition SELECTOR_CURVE_ADD_LIQUIDITY :: bytes where "SELECTOR_CURVE_ADD_LIQUIDITY = [0x0b, 0x4c, 0x7e, 0x27]"
definition SELECTOR_BALANCER_SWAP :: bytes where "SELECTOR_BALANCER_SWAP = [0x52, 0xbb, 0xbe, 0x29]"
definition SELECTOR_BALANCER_BATCH_SWAP :: bytes where "SELECTOR_BALANCER_BATCH_SWAP = [0x94, 0x5b, 0xce, 0xc9]"
definition SELECTOR_PERMIT2_PERMIT :: bytes where "SELECTOR_PERMIT2_PERMIT = [0x2b, 0x67, 0x8a, 0x24]"
definition SELECTOR_PERMIT2_TRANSFER_FROM :: bytes where "SELECTOR_PERMIT2_TRANSFER_FROM = [0x36, 0x78, 0x00, 0x7b]"
definition SELECTOR_COWSWAP_SETTLE :: bytes where "SELECTOR_COWSWAP_SETTLE = [0x09, 0x86, 0x32, 0x14]"
definition SELECTOR_UNISWAPX_EXECUTE :: bytes where "SELECTOR_UNISWAPX_EXECUTE = [0x8a, 0xe0, 0x69, 0x3a]"
definition SELECTOR_UNISWAPX_EXECUTE_BATCH :: bytes where "SELECTOR_UNISWAPX_EXECUTE_BATCH = [0x5b, 0x0d, 0x13, 0x5a]"
definition BALANCER_VAULT :: address where "BALANCER_VAULT = 0xba12222222228d8ba445958a75a0704d566bf2c8"
definition AAVE_V3_POOL :: address where "AAVE_V3_POOL = 0xa238dd80c259a72e81d7e4664a9801593f98d1c5"
definition MAX_TICK_CROSSES :: usize where "MAX_TICK_CROSSES = 256"
definition SIMULATION_VERBOSE :: bool where "SIMULATION_VERBOSE = False"
definition TOP_N_TOKENS :: usize where "TOP_N_TOKENS = 50"
definition PATH_CACHE_TTL_MS :: u64 where "PATH_CACHE_TTL_MS = 5000"
definition GSS_TOLERANCE_WEI :: u128 where "GSS_TOLERANCE_WEI = 1000000000000"
definition MIN_OPTIMIZATION_AMOUNT_WEI :: u128 where "MIN_OPTIMIZATION_AMOUNT_WEI = 100000000000000"
definition POOL_REPLACEMENT_INTERVAL_SEC :: u64 where "POOL_REPLACEMENT_INTERVAL_SEC = 300"
definition FLASHBOTS_RELAY :: string where "FLASHBOTS_RELAY = ''https://relay.flashbots.net''"
definition HOT_MEMORY_BLOCKS :: usize where "HOT_MEMORY_BLOCKS = 100"
definition POOL_STATE_TTL_MS :: u64 where "POOL_STATE_TTL_MS = 12000"
definition MAX_FAILED_TRADES_STORED :: usize where "MAX_FAILED_TRADES_STORED = 1000"
definition MINIMAL_PROXY_FACTORY :: address where "MINIMAL_PROXY_FACTORY = 0x4e59b44847b379578588920ca78fbf26c0b4956c"
definition GHOST_SALT :: bytes where "GHOST_SALT = [0x67, 0x68, 0x6f, 0x73, 0x74, 0x5f, 0x70, 0x72, 0x6f, 0x74, 0x6f, 0x63, 0x6f, 0x6c, 0x5f, 0x76, 0x31]"
definition COMPETITOR_TIP_TOLERANCE_WEI :: u128 where "COMPETITOR_TIP_TOLERANCE_WEI = 1000000000000"
definition MAX_BUILDER_TIP_WEI :: u128 where "MAX_BUILDER_TIP_WEI = 10000000000000000"
definition DUST_CONVERSION_MAX_GAS_PRICE_GWEI :: u64 where "DUST_CONVERSION_MAX_GAS_PRICE_GWEI = 30"
definition GAS_BUFFER_PERCENT :: u64 where "GAS_BUFFER_PERCENT = 10"
definition BRANCH_POSITIONS_TO_SIMULATE :: usize where "BRANCH_POSITIONS_TO_SIMULATE = 3"
definition MIN_LIQUIDITY_ETH :: u128 where "MIN_LIQUIDITY_ETH = 1000000000000000000"
definition REQUIRE_SUCCESSFUL_SIMULATION :: bool where "REQUIRE_SUCCESSFUL_SIMULATION = True"
definition ALPHA_SCAN_DEPTH :: usize where "ALPHA_SCAN_DEPTH = 5"
definition ARBITRUM_NODE_INTERFACE :: address where "ARBITRUM_NODE_INTERFACE = 0x00000000000000000000000000000000000000c8"
definition BOOTSTRAP_MIN_BALANCE_WEI :: u128 where "BOOTSTRAP_MIN_BALANCE_WEI = 1000000000000000"
definition CONGESTION_TX_COUNT :: usize where "CONGESTION_TX_COUNT = 5000"
definition MIN_INCLUSION_PROBABILITY :: u8 where "MIN_INCLUSION_PROBABILITY = 100"
definition MAX_STALE_BLOCKS :: u64 where "MAX_STALE_BLOCKS = 1"
definition MAX_POOL_CACHE_SIZE :: usize where "MAX_POOL_CACHE_SIZE = 5000"
definition MAX_TOKEN_CACHE_SIZE :: usize where "MAX_TOKEN_CACHE_SIZE = 1000"
definition WATCH_ONLY_MODE :: bool where "WATCH_ONLY_MODE = False"
definition MAX_WASH_TRADE_RATIO :: f64 where "MAX_WASH_TRADE_RATIO = lit 3 10"
definition MICRO_PROFIT_THRESHOLD_USD_CENTS :: u64 where "MICRO_PROFIT_THRESHOLD_USD_CENTS = 2"
definition FACTORY_SCAN_INTERVAL_BLOCKS :: u64 where "FACTORY_SCAN_INTERVAL_BLOCKS = 1000"
definition MIN_PROFIT_WEI :: u128 where "MIN_PROFIT_WEI = 1"
definition MIN_PROFIT_BPS :: u64 where "MIN_PROFIT_BPS = 5"
definition DEFAULT_SLIPPAGE_BPS :: u64 where "DEFAULT_SLIPPAGE_BPS = 30"
definition GAS_LIMIT_MULTIPLIER :: f64 where "GAS_LIMIT_MULTIPLIER = lit 115 100"
definition PRIORITY_FEE_MULTIPLIER :: f64 where "PRIORITY_FEE_MULTIPLIER = lit 12 10"
definition MAX_GAS_PRICE_GWEI :: u64 where "MAX_GAS_PRICE_GWEI = 100"
definition MAX_TOTAL_TX_FEE_WEI :: u128 where "MAX_TOTAL_TX_FEE_WEI = 5000000000000000"
definition STRIKE_GAS_LIMIT :: u64 where "STRIKE_GAS_LIMIT = 150000"
definition SURVIVAL_PROFIT_MULTIPLIER :: u64 where "SURVIVAL_PROFIT_MULTIPLIER = 2"
definition UNISWAP_V2_FACTORY :: address where "UNISWAP_V2_FACTORY = 0x5c69bee701ef814a2b6a3edd4b1652cb9cc5aa6f"
definition UNISWAP_V3_ROUTER :: address where "UNISWAP_V3_ROUTER = 0x68b3465833fb72a70ecdf485e0e4c7bd8665fc45"
definition UNISWAP_V3_QUOTER :: address where "UNISWAP_V3_QUOTER = 0xb27308f9f90d607463bb33ea1bebb41c27ce5ab6"
definition SUSHISWAP_ROUTER :: address where "SUSHISWAP_ROUTER = 0xd9e1ce17f2641f24ae83637ab66a2cca9c378b9f"
definition SUSHISWAP_FACTORY :: address where "SUSHISWAP_FACTORY = 0xc0aee478e3658e2610c5f7a4a2e1777ce9e4f2ac"
definition BASE_UNISWAP_V3_QUOTER :: address where "BASE_UNISWAP_V3_QUOTER = 0xb27308f9f90d607463bb33ea1bebb41c27ce5ab6"
definition BASE_SUSHISWAP_ROUTER :: address where "BASE_SUSHISWAP_ROUTER = 0x6bd61e38ecca1e08830e3fbc00fa91194863991a"
definition BASE_PANCAKESWAP_ROUTER :: address where "BASE_PANCAKESWAP_ROUTER = 0x1b813dfa2931441bcad067000e08271167739502"
definition BASE_BASESWAP_ROUTER :: address where "BASE_BASESWAP_ROUTER = 0x327df1e4de51d9752a3e019c42e5f9bb762ed144"
definition BASE_MAVERICK_ROUTER :: address where "BASE_MAVERICK_ROUTER = 0x792376e191c802a466d57b545f8f85f340807551"
definition BASE_SWAPBASED_FACTORY :: address where "BASE_SWAPBASED_FACTORY = 0x04c9f118a4864700721a163744021d21db27c11f"
definition BASE_ALIENBASE_FACTORY :: address where "BASE_ALIENBASE_FACTORY = 0x3d2d7681335a74be482d207137f814ba688849e8"
definition MAX_VOLATILITY_THRESHOLD_BPS :: u64 where "MAX_VOLATILITY_THRESHOLD_BPS = 500"
definition GLOBAL_STOP_LOSS_BPS :: u64 where "GLOBAL_STOP_LOSS_BPS = 1000"
definition BASE_BUNDLE_GAS :: u64 where "BASE_BUNDLE_GAS = 800000"
definition MAX_BUNDLE_GAS :: u64 where "MAX_BUNDLE_GAS = 10000000"
definition UNISWAP_V2_INIT_CODE_HASH :: string where
  "UNISWAP_V2_INIT_CODE_HASH = ''0x96e8ac4277198ff8b6f785478aa9a39f403cb768dd02cbee326c3e7da348845f''"
definition UNISWAP_V3_INIT_CODE_HASH :: string where
  "UNISWAP_V3_INIT_CODE_HASH = ''0xe34f199b19b2b4f47f68442619d555527d244f78a3297ea89325f843f87b8b54''"
definition SUSHISWAP_INIT_CODE_HASH :: string where
  "SUSHISWAP_INIT_CODE_HASH = ''0xe18a34eb0e04b04f7a0ac29a6e80748dca96319b42c54d679cb821dca90c6303''"

section \<open>Tables\<close>

definition HONEYPOT_BYTECODE_SIGNATURES :: "bytes list" where
  "HONEYPOT_BYTECODE_SIGNATURES = [[0xfe], [0xff], [0xf4], [0xf2]]"

definition L1_BASE_FEE_SCALAR :: "chain \<rightharpoonup> u64" where
  "L1_BASE_FEE_SCALAR = [Base \<mapsto> 1360]"

definition L2_L1_DATA_GAS_MULTIPLIER :: "chain \<rightharpoonup> f64" where
  "L2_L1_DATA_GAS_MULTIPLIER = [Base \<mapsto> lit 2 10]"

definition L2_GAS_LIMIT_MULTIPLIER :: "chain \<rightharpoonup> f64" where
  "L2_GAS_LIMIT_MULTIPLIER = [Base \<mapsto> lit 15 10]"

definition GAS_FAUCETS :: "chain \<rightharpoonup> address list" where
  "GAS_FAUCETS = Map.empty"

definition MALICIOUS_OPCODES :: "u8 set" where
  "MALICIOUS_OPCODES = {0xff, 0xf4, 0xf2, 0xfe}"

definition KNOWN_FACTORY_DEPLOYERS :: "address set" where
  "KNOWN_FACTORY_DEPLOYERS = {0x1f98431c8ad98523631ae4a59f267346ea31f984, 0x5c69bee701ef814a2b6a3edd4b1652cb9cc5aa6f}"

definition TOKEN_DECIMALS :: "address \<rightharpoonup> u8" where
  "TOKEN_DECIMALS = [0x4200000000000000000000000000000000000006 \<mapsto> 18, 0x833589fcd6edb6e08f4c7c32d4f71b54bda02913 \<mapsto> 6]"

definition UNISWAP_V3_FEE_TIERS :: "u32 list" where
  "UNISWAP_V3_FEE_TIERS = [100, 500, 3000, 10000]"

record dex_contracts =
  dx_router :: address
  dx_factory :: address
  dx_quoter :: "address option"

definition DEX_CONTRACTS :: "chain \<times> dex_name \<rightharpoonup> dex_contracts" where
  "DEX_CONTRACTS = Map.empty"

section \<open>Against the decoder\<close>

text \<open>The selectors the file lists for swaps and batches of swaps.\<close>

definition swap_selectors :: "bytes list" where
  "swap_selectors =
     [SELECTOR_UNISWAP_V2_SWAP_EXACT_TOKENS_FOR_TOKENS, SELECTOR_UNISWAP_V2_SWAP_TOKENS_FOR_EXACT_TOKENS,
      SELECTOR_UNISWAP_V2_SWAP_EXACT_ETH_FOR_TOKENS, SELECTOR_UNISWAP_V2_SWAP_TOKENS_FOR_EXACT_ETH,
      SELECTOR_UNISWAP_V2_SWAP_EXACT_TOKENS_FOR_ETH, SELECTOR_UNISWAP_V2_SWAP_ETH_FOR_EXACT_TOKENS,
      SELECTOR_UNISWAP_V3_EXACT_INPUT, SELECTOR_UNISWAP_V3_EXACT_OUTPUT, SELECTOR_UNISWAP_V3_EXACT_INPUT_SINGLE,
      SELECTOR_UNISWAP_V3_EXACT_OUTPUT_SINGLE, SELECTOR_UNIVERSAL_ROUTER_EXECUTE, SELECTOR_MULTICALL3,
      SELECTOR_MULTICALL, SELECTOR_CURVE_EXCHANGE, SELECTOR_CURVE_EXCHANGE_UNDERLYING, SELECTOR_BALANCER_SWAP,
      SELECTOR_BALANCER_BATCH_SWAP, SELECTOR_UNISWAPX_EXECUTE, SELECTOR_UNISWAPX_EXECUTE_BATCH]"

lemmas selector_bytes =
  SELECTOR_UNISWAP_V2_SWAP_EXACT_TOKENS_FOR_TOKENS_def SELECTOR_UNISWAP_V2_SWAP_TOKENS_FOR_EXACT_TOKENS_def
  SELECTOR_UNISWAP_V2_SWAP_EXACT_ETH_FOR_TOKENS_def SELECTOR_UNISWAP_V2_SWAP_TOKENS_FOR_EXACT_ETH_def
  SELECTOR_UNISWAP_V2_SWAP_EXACT_TOKENS_FOR_ETH_def SELECTOR_UNISWAP_V2_SWAP_ETH_FOR_EXACT_TOKENS_def
  SELECTOR_UNISWAP_V3_EXACT_INPUT_def SELECTOR_UNISWAP_V3_EXACT_OUTPUT_def SELECTOR_UNISWAP_V3_EXACT_INPUT_SINGLE_def
  SELECTOR_UNISWAP_V3_EXACT_OUTPUT_SINGLE_def SELECTOR_UNIVERSAL_ROUTER_EXECUTE_def SELECTOR_MULTICALL3_def
  SELECTOR_MULTICALL_def SELECTOR_CURVE_EXCHANGE_def SELECTOR_CURVE_EXCHANGE_UNDERLYING_def
  SELECTOR_BALANCER_SWAP_def SELECTOR_BALANCER_BATCH_SWAP_def SELECTOR_UNISWAPX_EXECUTE_def
  SELECTOR_UNISWAPX_EXECUTE_BATCH_def

text \<open>Of these nineteen the decoder dispatches on nine; calldata that starts with another one is dropped.\<close>

theorem undecoded_selectors:
  "filter (\<lambda>s. SELECTORS (selector_of s) = None) swap_selectors =
     [SELECTOR_UNISWAP_V2_SWAP_EXACT_ETH_FOR_TOKENS, SELECTOR_UNISWAP_V3_EXACT_INPUT, SELECTOR_UNISWAP_V3_EXACT_OUTPUT,
      SELECTOR_UNISWAP_V3_EXACT_OUTPUT_SINGLE, SELECTOR_MULTICALL3, SELECTOR_MULTICALL, SELECTOR_CURVE_EXCHANGE,
      SELECTOR_CURVE_EXCHANGE_UNDERLYING, SELECTOR_BALANCER_SWAP, SELECTOR_BALANCER_BATCH_SWAP]"
  by (simp add: swap_selectors_def SELECTORS_def selector_of_def from_be_bytes_def be_value_def selector_bytes)

section \<open>Against the bytecode scan\<close>

text \<open>Two of the four opcodes listed as malicious, \<open>CALLCODE\<close> and \<open>INVALID\<close>, are not what the scan rejects.\<close>

theorem listed_opcodes_not_rejected:
  "\<not> is_malicious_bytecode [op] \<longleftrightarrow> op \<notin> {0xff, 0xf4}"
  by (simp add: is_malicious_bytecode_def)

theorem listed_opcodes_accepted:
  "{op \<in> MALICIOUS_OPCODES. \<not> is_malicious_bytecode [op]} = {0xf2, 0xfe}"
  by (auto simp: MALICIOUS_OPCODES_def listed_opcodes_not_rejected)

section \<open>Against the core pools\<close>

text \<open>The pools of the last two core entries are the factories of SwapBased and AlienBase.\<close>

theorem core_pools_are_factories:
  "core_event TOKEN_WETH TOKEN_DAI BASE_SWAPBASED_FACTORY NameUniswapV2 \<in> set (bootstrap_core_pools Base) \<and>
   core_event TOKEN_WETH TOKEN_USDT BASE_ALIENBASE_FACTORY NameUniswapV2 \<in> set (bootstrap_core_pools Base)"
  unfolding bootstrap_core_pools_def BASE_SWAPBASED_FACTORY_def BASE_ALIENBASE_FACTORY_def
  by (simp only: list.set if_True HOL.simp_thms insert_iff)

end
