(* ===== verification/Decoding_Errors.thy ===== *)
theory Decoding_Errors
  imports State_Mirror
begin

text \<open>
  The errors of \<open>src/errors.rs\<close> and their texts. No code constructs one (the decoder returns options);
  the texts tell the errors apart. How alloy prints a hash is an argument.
\<close>

section \<open>Errors and texts\<close>

datatype decoding_error =
    InputTooShort
  | UnknownSelector u8 u8 u8 u8
  | InvalidDataLength string
  | DynamicDataReadFailed usize
  | InvalidPathLength usize
  | UnsupportedUniversalRouterCommand u8
  | MulticallDepthExceeded
  | InvalidNestedData b256
  | AddressParsingFailed
  | U256ParsingFailed
  | UsizeParsingFailed
  | NoRecipient

text \<open>An array of bytes in the debug format.\<close>

definition debug_bytes :: "bytes \<Rightarrow> string" where
  "debug_bytes bs =
     ''['' @ (case map (\<lambda>b. decimal (unat b)) bs of [] \<Rightarrow> [] | x # xs \<Rightarrow> x @ concat (map (\<lambda>y. '', '' @ y) xs)) @ '']''"

fun decoding_error_text :: "(b256 \<Rightarrow> string) \<Rightarrow> decoding_error \<Rightarrow> string" where
  "decoding_error_text show_hash InputTooShort = ''Input data too short''"
| "decoding_error_text show_hash (UnknownSelector a b c d) = ''Unknown selector: '' @ debug_bytes [a, b, c, d]"
| "decoding_error_text show_hash (InvalidDataLength s) = ''Invalid data length for selector '' @ s"
| "decoding_error_text show_hash (DynamicDataReadFailed offset) =
     ''Failed to read dynamic data at offset '' @ decimal (unat offset)"
| "decoding_error_text show_hash (InvalidPathLength n) = ''Invalid path length: '' @ decimal (unat n)"
| "decoding_error_text show_hash (UnsupportedUniversalRouterCommand c) =
     ''Unsupported Universal Router command: '' @ decimal (unat c)"
| "decoding_error_text show_hash MulticallDepthExceeded = ''Recursive decoding depth exceeded in Multicall''"
| "decoding_error_text show_hash (InvalidNestedData h) =
     ''Invalid data in nested component of transaction '' @ show_hash h"
| "decoding_error_text show_hash AddressParsingFailed = ''Address parsing failed from data slice''"
| "decoding_error_text show_hash U256ParsingFailed = ''U256 parsing failed from data slice''"
| "decoding_error_text show_hash UsizeParsingFailed = ''Usize parsing failed from data slice''"
| "decoding_error_text show_hash NoRecipient = ''Attempted to decode a transaction with no recipient''"

section \<open>Decimal numbers\<close>

definition digits_value :: "string \<Rightarrow> nat" where
  "digits_value s = foldl (\<lambda>v c. 10 * v + (of_char c - 48)) 0 s"

lemma digits_value_snoc: "digits_value (s @ [c]) = 10 * digits_value s + (of_char c - 48)"
  by (simp add: digits_value_def)

lemma decimal_read: "digits_value (decimal n) = n"
proof (induction n rule: decimal.induct)
  case (1 n)
  show ?case
  proof (cases "n < 10")
    case True
    then show ?thesis by (subst decimal.simps) (simp add: digits_value_def of_char_of)
  next
    case False
    with 1 have "digits_value (decimal (n div 10)) = n div 10" by simp
    with False show ?thesis by (subst decimal.simps) (simp add: digits_value_snoc of_char_of)
  qed
qed

lemma decimal_inject [simp]: "decimal m = decimal n \<longleftrightarrow> m = n"
  by (metis decimal_read)

lemma decimal_digits: "c \<in> set (decimal n) \<Longrightarrow> of_char c \<in> {48..57 :: nat}"
proof (induction n rule: decimal.induct)
  case (1 n)
  then show ?case by (subst (asm) decimal.simps) (auto simp: of_char_of split: if_splits)
qed

text \<open>A number ends where the text goes on with something that is no digit.\<close>

lemma decimal_split:
  assumes "of_char c \<notin> {48..57 :: nat}"
  shows "decimal m @ c # s = decimal n @ c # t \<longleftrightarrow> m = n \<and> s = t"
proof
  assume eq: "decimal m @ c # s = decimal n @ c # t"
  have head: "takeWhile (\<lambda>x. x \<noteq> c) (decimal k @ c # u) = decimal k" for k u
    using decimal_digits [of c k] assms by (subst takeWhile_append2) auto
  from arg_cong [OF eq, of "takeWhile (\<lambda>x. x \<noteq> c)"] have "m = n" unfolding head by simp
  with eq show "m = n \<and> s = t" by simp
qed simp

section \<open>Properties\<close>

text \<open>The texts tell the errors apart, with what they carry, as far as the printed hashes do.\<close>

theorem decoding_error_texts_distinct:
  assumes "inj show_hash"
  shows "inj (decoding_error_text show_hash)"
proof (rule injI)
  fix e e'
  assume "decoding_error_text show_hash e = decoding_error_text show_hash e'"
  then show "e = e'"
    by (cases e; cases e') (auto simp: debug_bytes_def decimal_split dest: injD [OF assms] simp flip: word_unat_eq_iff)
qed

theorem decoding_error_texts_distinct_witness:
  "decoding_error_text (\<lambda>h. decimal (unat h)) (UnknownSelector 1 2 3 4) \<noteq>
   decoding_error_text (\<lambda>h. decimal (unat h)) (UnknownSelector 12 3 3 4)"
proof -
  have "inj (\<lambda>h :: b256. decimal (unat h))" by (rule injI) (simp flip: word_unat_eq_iff)
  from injD [OF decoding_error_texts_distinct [OF this], of "UnknownSelector 1 2 3 4" "UnknownSelector 12 3 3 4"] show ?thesis by auto
qed

end
