(* ===== verification/Spec2Isabelle.thy ===== *)
theory Spec2Isabelle
  imports Swap_Loop Decoder_Facts Detector_Facts Engine_Types System_Facts Float_Facts Feeds Telemetry
    Audit_Log Legacy_Engine Shadow_Bot Inventory Task_Facts Task_Services Unit_Tests Unread_Constants Decoding_Errors
begin

text \<open>
  A verification development for Sovereign Shadow, an arbitrage searcher in Rust. All paths
  below are under \<open>src/src/\<close>.

  The program. Log streams and blocks keep an in-memory mirror of pool states up to date
  (\<open>state_mirror.rs\<close>); a detector searches that mirror for cycles of pools and prices them
  (\<open>arbitrage_detector.rs\<close>, \<open>math_engine.rs\<close>, \<open>v3_math.rs\<close>); an executor simulates the best ones,
  sizes the bribe and sends a signed bundle whose payload \<open>models.rs\<close> encodes, guarded by the
  circuit breaker and the fee calculator of \<open>utils.rs\<close>. Calldata of pending transactions goes
  through \<open>universal_decoder.rs\<close> and the readers of \<open>utils.rs\<close>.

  Machine model. The release build: native integers wrap, a panic ends the process. A function
  that can panic returns \<open>'a exec\<close>, an option whose \<open>None\<close> is the panic; a loop that need not
  end is a \<open>partial_function\<close> whose \<open>None\<close> also stands for not returning. Big integers are
  256- and 512-bit words with wrapping operators; division by zero and narrowing conversions
  panic (\<open>u_div\<close>, \<open>narrow\<close> in \<open>Shadow_Base\<close>). Signed integers are \<open>int\<close> with the range
  written out. Concurrent maps are association maps (\<open>Keyed_Store\<close>), atomics plain fields,
  and each operation of the mirror is one atomic step; the handling of one opportunity, the search
  for one swap event and a turn of the initialisation worker are one step each too, although the
  code waits for the node inside them, so every sequence of steps, as said below, is coarser than every
  interleaving of the tasks there. A sweep of the inventory and the bootstrap of the mirror wait
  for the node in the model as in the code: one step per transaction or chunk, with the steps of
  the other tasks in between. Clocks, RPC answers, ABI decoders and hashers are arguments, and so
  are the encoders and decoders of the files (\<open>bincode\<close>). Floating-point stages are arguments of the components that use them and
  are given by \<open>Float_Engine\<close>, on a binary64 in integer arithmetic (\<open>Float64\<close>). The conversions to 128 bits inside \<open>debug!\<close>
  messages are left out, as are all messages.

  Theories, in the order of their dependencies:

  \<^item> \<open>Shadow_Base\<close>: type names, checked and saturating word operations, signed
    conversions, slices, and the lemma collections \<open>exec_simps\<close> and its companions.
  \<^item> \<open>Wide_Math\<close>: the 512-bit helpers of \<open>v3_math.rs\<close>. \<open>mul_div_exact\<close>: they are the
    exact floor and ceiling, saturated.
  \<^item> \<open>V3_Ticks\<close>, \<open>Tick_Table\<close>: sqrt price of a tick by the twenty guarded factors, the lookup
    table and the binary search. The locale \<open>strict_table\<close> states what the search needs of a
    table, and is interpreted on the price function itself: the price is strictly increasing,
    the search returns the greatest tick not above the price, and the two are inverse.
  \<^item> \<open>V3_Bitmap\<close>: the search of the next initialised tick in one word of the bitmap.
  \<^item> \<open>V3_Swap\<close>, \<open>Swap_Curve\<close>, \<open>Swap_Step\<close>: amount deltas, next prices, one swap step and the
    loop over the ticks. The locale \<open>swap_curve\<close> is what a step needs of one direction and is
    interpreted for both; the theorems bound what a step takes and gives.
  \<^item> \<open>Swap_Loop\<close>: the loop over the ticks, run with fuel. The locale \<open>ranked_loop\<close> is the contract of
    a loop with an invariant and a rank, interpreted on the downward swap with the distance to
    \<open>MIN_TICK\<close> as rank: one iteration more than that is enough fuel. An upward swap has no such
    rank, because a search past \<open>MAX_TICK\<close> sets the price to zero.
  \<^item> \<open>Byte_Codec\<close>, \<open>Models\<close>: big-endian codecs, the shared data types and the payload encoder.
    \<open>Shadow_Bot\<close>: the loops with which the contract \<open>src/ShadowBot.sol\<close> reads that payload, and the
    round trip of the two.
  \<^item> \<open>Shadow_Constants\<close>: the constants the code reads.
  \<^item> \<open>Keyed_Store\<close>, \<open>State_Mirror\<close>, \<open>Mirror_Facts\<close>: the mirror with every operation. The locale
    \<open>keyed_store\<close> states the map interface and is interpreted on association maps;
    \<open>mirror_reachable\<close> is the closure of all operations and carries the invariants. \<open>Code_File\<close>:
    \<open>reads_back\<close>, what the persistence relies on of the file format (it reads back what was written and
    rejects a strict prefix), with a concrete format that has it.
  \<^item> \<open>Math_Engine\<close>, \<open>Math_Facts\<close>: pool outputs, path outputs, golden-section search, the closed
    form and the integer square root. The search runs at most forty steps and the stable
    refinement three, as in the code; the square-root loop is proved to terminate.
  \<^item> \<open>Abi_Readers\<close>, \<open>Universal_Decoder\<close>, \<open>Decoder_Facts\<close>: the readers and decoders, with the
    wrap-around of attacker-chosen offsets.
  \<^item> \<open>Circuit_Breaker\<close>: the breaker as a step relation, and the L1 fee.
  \<^item> \<open>Log_Pipeline\<close>: the decoding of event logs (\<open>mempool_listener.rs\<close>), of factory events
    (\<open>factory_scanner.rs\<close>) and the warm start (\<open>discovery.rs\<close>).
  \<^item> \<open>Path_Graph\<close>, \<open>Path_Facts\<close>: the sparse token graph and the depth-first cycle search of
    \<open>arbitrage_detector.rs\<close>. The locale \<open>undoable_set\<close> is what backtracking needs of the visited
    set, interpreted on the 64 words of bits. The search is refined to a declarative set of walks;
    the recursion on the depth is one on the levels that are left.
  \<^item> \<open>Detector\<close>, \<open>Detector_Facts\<close>: the detector's state, the pricing of the found paths and the
    opportunities it reports.
  \<^item> \<open>Rpc_Services\<close>: the provider pool (\<open>lib.rs\<close>), the nonce manager, the fee feed and the block
    tracker. The locale \<open>ticket_source\<close> is what the senders of transactions rely on, interpreted
    on the nonce manager.
  \<^item> \<open>Bidding\<close>: \<open>bidding_engine.rs\<close>, the share of the profit that is bid and the priority fee.
  \<^item> \<open>Simulator\<close>, \<open>Simulator_Facts\<close>: \<open>state_simulator.rs\<close>, with the virtual machine as a record of
    functions. The predicates \<open>conforming_token\<close> and \<open>codeless_inert\<close> name the documented
    behaviour two theorems rely on; \<open>ledger_env\<close> and \<open>inert_env\<close> satisfy them.
  \<^item> \<open>Flash_Executor\<close>, \<open>Executor_Facts\<close>: \<open>flash_loan_executor.rs\<close>. The handler is split where the
    code has its stages: admission and locks, validation, simulation, guards, submission and the
    broadcast with at most one repetition. \<open>execute_stages\<close> says which stages a call has passed.
  \<^item> \<open>Treasury\<close>: \<open>profit_manager.rs\<close>, with the transactions it sends as results.
  \<^item> \<open>Inventory\<close>: \<open>inventory_manager.rs\<close>. A sweep is a task with a program point, and a schedule says
    how many nonces the other tasks draw and which tokens they register before each of its turns;
    \<open>sweep_is_orderly\<close> holds for every schedule.
  \<^item> \<open>Engine\<close>, \<open>Engine_Facts\<close>, \<open>Engine_Types\<close>: the tasks of \<open>main.rs\<close> as a step relation over the
    shared state, and invariants over every sequence of these steps: the silent executor, the well-formed
    state and what only grows. A running sweep and the bootstrap are parts of the state.
  \<^item> \<open>Bundle_Relay\<close>: \<open>bundle_builder.rs\<close>, the payload of a bundle, its signature and the posts to the
    relays. \<open>payload_roundtrip\<close>: the payload can be read back to the transactions and the block.
  \<^item> \<open>Boot\<close>: the start-up of \<open>main.rs\<close>, from the environment, the connections and the cached files
    (the record \<open>host\<close>) to the shared components, with every early return.
  \<^item> \<open>System\<close>, \<open>System_Facts\<close>: the whole program as a step relation, the engine tasks, the detector
    and the background feeds over the channels between them, from a start-up of \<open>Boot\<close>. The
    theorems hold for every sequence of steps. \<open>Sample_System\<close> has one run from the environment to an
    opportunity in the channel (\<open>market_runs\<close>) and on through its handling (\<open>market_dispatch\<close>),
    on which the witnesses rest.
  \<^item> \<open>Float64\<close>, \<open>Float_Engine\<close>, \<open>Float_Facts\<close>: binary64 with correct rounding, and the Newton search,
    the marginal prices, the skew test and the gas buffer on it. Operations on numbers in a known
    range are bounded by \<open>inside\<close>. The Newton loop has the twelve rounds of the code.
  \<^item> \<open>Feeds\<close>: the subscription loops of \<open>mempool_listener.rs\<close> and \<open>factory_scanner.rs\<close> and the filters.
    The answers of a node are a list, one entry for each connection.
  \<^item> \<open>Telemetry\<close>: \<open>telemetry.rs\<close> and the events the main loop sends around a dispatch, with the
    decimal format of numbers.
  \<^item> \<open>Audit_Log\<close>: the rejection log of \<open>utils.rs\<close>. \<open>Legacy_Engine\<close>: \<open>simulation_engine.rs\<close>, a file
    that \<open>lib.rs\<close> does not declare.
  \<^item> \<open>Task_Loops\<close>, \<open>Task_Services\<close>, \<open>Task_Facts\<close>: the loops of the heartbeat, the fee feed, the detector,
    the pool feed and the other services and the main task as they are written, over lists of what they wait for; \<open>select!\<close> takes a schedule. They are
    refined to the steps of \<open>Engine\<close> and \<open>System\<close>, so the invariants of these hold along the loops.
    \<open>file_history\<close> is what successive lives of the program make of the bytecode file, and
    \<open>restarts_stay_silent\<close> the silence of the executor across them.
  \<^item> \<open>Unit_Tests\<close>: the unit tests of the crate, evaluated on the model.
  \<^item> \<open>Unread_Constants\<close>: the constants no module reads, compared with the decoder, the bytecode scan
    and the core pools. \<open>Decoding_Errors\<close>: \<open>errors.rs\<close>, whose texts are shown to be distinct.

  Not modelled: sockets, the opening of files and log messages, the virtual machine (\<open>revm\<close>), the
  elliptic-curve signature, the pinning of threads, the sizes of the channels and the sleeps between
  attempts; the interfaces of contracts (\<open>sol!\<close>), from which the build generates the ABI codecs that
  are arguments here. The tasks that one call of the executor or one search of the detector spawns run in
  spawn order. The remaining lines without a definition are imports, module headers and comments.
\<close>

end
